(* ===== verification/Lastro_Prelude.thy ===== *)
theory Lastro_Prelude
  imports Main "HOL-Library.Word" "HOL-Library.Sublist"
begin

text \<open>
  Shared vocabulary of the development: Go's byte slices and fixed-width integers, the
  error values of the packages, the sequencing of fallible calls, slicing and
  \<open>copy\<close>, the big-endian integer layouts of \<open>encoding/binary\<close>, and the generic
  lemmas the component theories rest on.

  A Go function that returns \<open>(T, error)\<close> is modelled with result type
  \<open>go_error + T\<close>, \<open>Inl\<close> being the non-nil error; one that returns only
  \<open>error\<close> has result type \<open>go_error + unit\<close> (\<open>Inr ()\<close> is nil). A runtime panic
  is an error value too (\<open>PanicBounds\<close>, \<open>PanicNil\<close>, \<open>PanicKeySize\<close>), so that
  its absence is something to prove.
\<close>

unbundle bit_operations_syntax

type_synonym byte = "8 word"
type_synonym bytes = "byte list"
type_synonym uint16 = "16 word"
type_synonym uint32 = "32 word"
type_synonym uint64 = "64 word"

named_theorems panic_free "calls that cannot panic"

subsection \<open>Errors\<close>

datatype go_error =
    ErrTruncated | ErrOversize | ErrTrailingBytes | ErrMalformed
  | ErrFieldBounds
  | ErrMalformedKey | ErrBadSignature
  | ErrRolePairForbidden | ErrApproverNoQuorum | ErrCertTooLongLived | ErrUntrustedCA
  | ErrNoExecutorRole | ErrNotSpanSigner | ErrResourceFingerprint
  | ErrBadVersion | ErrBadEnvelopeBinding | ErrGrantBadSignature | ErrBadApproverCert
  | ErrApproverRevoked | ErrApproverOutOfScope | ErrBadSubjectCert | ErrSubjectRevoked
  | ErrSubjectOutOfScope | ErrWrongExecutor | ErrWrongSubject | ErrNoMatchingIntent
  | ErrWrongResource | ErrActionDigestMismatch | ErrExpired | ErrOutsideValidity
  | ErrMac1Failed | ErrDecryptFailed | ErrIdentityPoint | ErrBufferTooSmall
  | ErrPacketTooShort | ErrNotTransport | ErrBindingLength | ErrBindingSignature
  | ErrCipherKey
  | ErrNamespaceLength | ErrNamespaceChar | ErrPathLength | ErrPathChar | ErrPathSegment
  | ErrNoHead | ErrNotSha
  | PanicBounds | PanicNil | PanicKeySize

definition is_panic :: "go_error \<Rightarrow> bool" where
  "is_panic e \<longleftrightarrow> e = PanicBounds \<or> e = PanicNil \<or> e = PanicKeySize"

type_synonym 'a result = "go_error + 'a"

subsection \<open>Sequencing of fallible calls\<close>

text \<open>
  \<open>x, err := m; if err != nil { return nil, err }\<close> followed by the rest of the function.
\<close>

definition rbind :: "'e + 'a \<Rightarrow> ('a \<Rightarrow> 'e + 'b) \<Rightarrow> 'e + 'b" where
  "rbind m k = (case m of Inl e \<Rightarrow> Inl e | Inr x \<Rightarrow> k x)"

text \<open>Slicing \<open>xs[i:j]\<close>, in range and with the bounds check written out.\<close>

definition subslice :: "'a list \<Rightarrow> nat \<Rightarrow> nat \<Rightarrow> 'a list" where
  "subslice xs i j = take (j - i) (drop i xs)"

definition go_slice :: "bytes \<Rightarrow> nat \<Rightarrow> nat \<Rightarrow> bytes result" where
  "go_slice xs i j = (if i \<le> j \<and> j \<le> length xs then Inr (subslice xs i j) else Inl PanicBounds)"

definition go_index :: "bytes \<Rightarrow> nat \<Rightarrow> byte result" where
  "go_index xs i = (if i < length xs then Inr (xs ! i) else Inl PanicBounds)"

text \<open>\<open>copy(dst[off:], src)\<close>: overwrites as many bytes as fit and leaves the length alone.\<close>

definition copy_at :: "nat \<Rightarrow> bytes \<Rightarrow> bytes \<Rightarrow> bytes" where
  "copy_at off src dst =
     take off dst @ take (length dst - off) src @ drop (off + length src) dst"

text \<open>\<open>encoding/binary\<close>, big endian.\<close>

definition be16 :: "uint16 \<Rightarrow> bytes" where
  "be16 v = [ucast (drop_bit 8 v), ucast v]"

definition be32 :: "uint32 \<Rightarrow> bytes" where
  "be32 v = [ucast (drop_bit 24 v), ucast (drop_bit 16 v), ucast (drop_bit 8 v), ucast v]"

definition be64 :: "uint64 \<Rightarrow> bytes" where
  "be64 v = [ucast (drop_bit 56 v), ucast (drop_bit 48 v), ucast (drop_bit 40 v),
             ucast (drop_bit 32 v), ucast (drop_bit 24 v), ucast (drop_bit 16 v),
             ucast (drop_bit 8 v), ucast v]"

fun be_bytes :: "nat \<Rightarrow> 'a :: len word \<Rightarrow> bytes" where
  "be_bytes 0 v = []"
| "be_bytes (Suc n) v = be_bytes n (drop_bit 8 v) @ [ucast v]"

definition be_word :: "bytes \<Rightarrow> 'a :: len word" where
  "be_word bs = foldl (\<lambda>v b. push_bit 8 v OR ucast b) 0 bs"

text \<open>Go string literals are byte strings.\<close>

definition str_bytes :: "string \<Rightarrow> bytes" where
  "str_bytes s = map (\<lambda>c. of_nat (of_char c)) s"

subsection \<open>Lemmas on results\<close>

lemma rbind_Inl [simp]: "rbind (Inl e) k = Inl e"
  by (simp add: rbind_def)

lemma rbind_Inr [simp]: "rbind (Inr x) k = k x"
  by (simp add: rbind_def)

lemma rbind_eq_Inr: "rbind m k = Inr y \<longleftrightarrow> (\<exists>x. m = Inr x \<and> k x = Inr y)"
  by (cases m) auto

lemma rbind_eq_Inl: "rbind m k = Inl e \<longleftrightarrow> m = Inl e \<or> (\<exists>x. m = Inr x \<and> k x = Inl e)"
  by (cases m) auto

definition no_panic :: "'a result \<Rightarrow> bool" where
  "no_panic m \<longleftrightarrow> (\<forall>e. m = Inl e \<longrightarrow> \<not> is_panic e)"

lemma no_panic_bind [panic_free]:
  "no_panic m \<Longrightarrow> (\<And>x. m = Inr x \<Longrightarrow> no_panic (k x)) \<Longrightarrow> no_panic (rbind m k)"
  by (cases m) (auto simp: no_panic_def)

lemma no_panic_Inr [simp, panic_free]: "no_panic (Inr x)"
  by (simp add: no_panic_def)

lemma no_panic_Inl [simp]: "no_panic (Inl e) \<longleftrightarrow> \<not> is_panic e"
  by (simp add: no_panic_def)

lemma no_panic_if [panic_free]:
  "(b \<Longrightarrow> no_panic m) \<Longrightarrow> (\<not> b \<Longrightarrow> no_panic m') \<Longrightarrow> no_panic (if b then m else m')"
  by simp

lemma no_panic_prod [panic_free]:
  "(\<And>a b. p = (a, b) \<Longrightarrow> no_panic (f a b)) \<Longrightarrow> no_panic (case p of (a, b) \<Rightarrow> f a b)"
  by (cases p) simp

lemma rbind_assoc: "rbind (rbind m f) g = rbind m (\<lambda>x. rbind (f x) g)"
  by (cases m) auto

lemma rbind_cong [fundef_cong]:
  "m = m' \<Longrightarrow> (\<And>x. m' = Inr x \<Longrightarrow> k x = k' x) \<Longrightarrow> rbind m k = rbind m' k'"
  by (cases m') auto

lemma unit_result_cases: "(m :: unit result) = Inr () \<or> (\<exists>e. m = Inl e)"
  by (cases m) auto

lemma str_bytes_Nil [simp]: "str_bytes s = [] \<longleftrightarrow> s = []"
  by (simp add: str_bytes_def)

subsection \<open>Lemmas on slices and copies\<close>

lemma subslice_append3 [simp]: "subslice (xs @ ys @ zs) (length xs) (length xs + length ys) = ys"
  by (simp add: subslice_def)

lemma length_subslice [simp]: "j \<le> length xs \<Longrightarrow> length (subslice xs i j) = j - i"
  by (simp add: subslice_def)

lemma go_slice_ok [simp]: "i \<le> j \<Longrightarrow> j \<le> length xs \<Longrightarrow> go_slice xs i j = Inr (subslice xs i j)"
  by (simp add: go_slice_def)

lemma subslice_ends: "subslice xs 0 j = take j xs" "subslice xs i (length xs) = drop i xs"
  by (simp_all add: subslice_def)

lemma length_copy_at [simp]: "off \<le> length dst \<Longrightarrow> length (copy_at off src dst) = length dst"
  by (simp add: copy_at_def)

lemma subslice_copy_at_same:
  assumes "off + length src \<le> length dst" and "i = off" and "j = off + length src"
  shows "subslice (copy_at off src dst) i j = src"
  using assms by (simp add: subslice_def copy_at_def)

lemma subslice_copy_at_before:
  assumes "j \<le> off" and "off \<le> length dst"
  shows "subslice (copy_at off src dst) i j = subslice dst i j"
  using assms by (simp add: subslice_def copy_at_def drop_take)

lemma subslice_copy_at_after:
  assumes "off + length src \<le> i" and "off + length src \<le> length dst"
  shows "subslice (copy_at off src dst) i j = subslice dst i j"
  using assms by (simp add: subslice_def copy_at_def)

lemma subslice_list_update [simp]: "k < i \<Longrightarrow> subslice (xs[k := v]) i j = subslice xs i j"
  by (simp add: subslice_def)

lemma copy_at_whole: "length src = length dst \<Longrightarrow> copy_at 0 src dst = src"
  by (simp add: copy_at_def)

lemmas subslice_copy_at = subslice_copy_at_same subslice_copy_at_before subslice_copy_at_after

subsection \<open>Strict prefixes\<close>

lemma strict_prefix_append_cases:
  assumes "strict_prefix r (xs @ s)"
  obtains "strict_prefix r xs" | r' where "r = xs @ r'" "strict_prefix r' s"
proof -
  from assms have "prefix r xs \<or> (\<exists>r'. r = xs @ r' \<and> prefix r' s)" and "r \<noteq> xs @ s"
    by (auto simp: strict_prefix_def prefix_append)
  then show thesis
    using that by (cases "r = xs") (auto simp: strict_prefix_def)
qed

lemma strict_prefix_butlast: "xs \<noteq> [] \<Longrightarrow> strict_prefix (butlast xs) xs"
  by (metis append_butlast_last_id strict_prefixI' append_Nil2)

subsection \<open>Cutting a list into pieces of equal length\<close>

definition pieces :: "nat \<Rightarrow> nat \<Rightarrow> 'a list \<Rightarrow> 'a list list" where
  "pieces k n xs = map (\<lambda>i. take k (drop (i * k) xs)) [0..<n]"

lemma pieces_Suc: "pieces k (Suc n) xs = take k xs # pieces k n (drop k xs)"
  by (simp add: pieces_def map_upt_Suc add.commute del: upt_Suc)

lemma concat_pieces: "length xs = n * k \<Longrightarrow> concat (pieces k n xs) = xs"
proof (induction n arbitrary: xs)
  case (Suc n)
  then show ?case by (simp add: pieces_Suc)
qed (simp add: pieces_def)

lemma length_pieces: "length xs = n * k \<Longrightarrow> list_all (\<lambda>p. length p = k) (pieces k n xs) \<and> length (pieces k n xs) = n"
proof (induction n arbitrary: xs)
  case (Suc n)
  then show ?case by (simp add: pieces_Suc)
qed (simp add: pieces_def)

subsection \<open>Lemmas on the integer layouts\<close>

lemma length_be [simp]: "length (be16 a) = 2" "length (be32 b) = 4" "length (be64 c) = 8"
  by (simp_all add: be16_def be32_def be64_def)

text \<open>
  Both directions at any width: \<open>be_word\<close> reads bytes most significant first,
  \<open>be_bytes n\<close> writes the low \<open>n\<close> bytes.
\<close>

lemma bit_byte_ge [simp]: "8 \<le> n \<Longrightarrow> \<not> bit (x :: byte) n"
  using bit_imp_le_length [of x n] by auto

lemma be_word_snoc: "be_word (bs @ [b]) = push_bit 8 (be_word bs) OR ucast b"
  by (simp add: be_word_def)

lemma take_bit_step:
  "push_bit 8 (take_bit (8 * n) (drop_bit 8 v)) OR ucast (ucast v :: byte)
   = take_bit (8 * Suc n) (v :: 'a :: len word)"
  by (rule bit_word_eqI) (auto simp: bit_simps)

lemma be_word_be_bytes: "be_word (be_bytes n v) = take_bit (8 * n) v"
proof (induction n arbitrary: v)
  case 0
  then show ?case by (simp add: be_word_def)
next
  case (Suc n)
  then show ?case by (simp only: be_bytes.simps be_word_snoc take_bit_step)
qed

lemma low_byte_step: "8 \<le> LENGTH('a :: len) \<Longrightarrow> ucast (push_bit 8 (w :: 'a word) OR ucast b) = (b :: byte)"
  by (rule bit_word_eqI) (auto simp: bit_simps)

lemma drop_byte_step:
  assumes "take_bit n (w :: 'a :: len word) = w" and "n + 8 \<le> LENGTH('a)"
  shows "drop_bit 8 (push_bit 8 w OR ucast (b :: byte)) = w"
proof (rule bit_word_eqI)
  fix k assume "k < LENGTH('a)"
  have "bit w k \<Longrightarrow> k < n" using assms(1) by (metis bit_take_bit_iff)
  then show "bit (drop_bit 8 (push_bit 8 w OR ucast b)) k = bit w k"
    using assms(2) by (auto simp: bit_simps)
qed

lemma take_bit_be_word: "take_bit (8 * length bs) (be_word bs :: 'a :: len word) = be_word bs"
proof (induction bs rule: rev_induct)
  case Nil
  then show ?case by (simp add: be_word_def)
next
  case (snoc b bs)
  let ?w = "be_word bs :: 'a word"
  show ?case
  proof (rule bit_word_eqI)
    fix n assume "n < LENGTH('a)"
    have "bit ?w (n - 8) \<Longrightarrow> n - 8 < 8 * length bs" using snoc.IH by (metis bit_take_bit_iff)
    then show "bit (take_bit (8 * length (bs @ [b])) (be_word (bs @ [b]) :: 'a word)) n
               = bit (be_word (bs @ [b]) :: 'a word) n"
      by (auto simp: be_word_snoc bit_simps)
  qed
qed

lemma be_bytes_be_word:
  "8 * length bs \<le> LENGTH('a :: len) \<Longrightarrow> be_bytes (length bs) (be_word bs :: 'a word) = bs"
proof (induction bs rule: rev_induct)
  case Nil
  then show ?case by simp
next
  case (snoc b bs)
  then have "drop_bit 8 (be_word (bs @ [b]) :: 'a word) = be_word bs"
    using drop_byte_step [OF take_bit_be_word [of bs, where 'a = 'a], of b] by (simp only: be_word_snoc) simp
  moreover have "ucast (be_word (bs @ [b]) :: 'a word) = b"
    using snoc.prems by (simp add: be_word_snoc low_byte_step)
  ultimately show ?case using snoc by simp
qed

lemma be_word_eq_iff:
  assumes "8 * length bs = LENGTH('a :: len)"
  shows "be_word bs = (v :: 'a word) \<longleftrightarrow> be_bytes (length bs) v = bs"
proof
  assume "be_word bs = v"
  then show "be_bytes (length bs) v = bs" using be_bytes_be_word [of bs] assms by auto
next
  assume "be_bytes (length bs) v = bs"
  then have "be_word bs = take_bit (8 * length bs) v" using be_word_be_bytes [of "length bs" v] by simp
  then show "be_word bs = v" by (simp add: assms take_bit_word_eq_self)
qed

lemma be_bytes_layout:
  "be_bytes 2 = be16" "be_bytes 4 = be32" "be_bytes 8 = be64"
  by (simp_all add: fun_eq_iff be16_def be32_def be64_def numeral_eq_Suc)

lemma be16_read: "be_word [a, b] = v \<longleftrightarrow> be16 v = [a, b]"
  using be_word_eq_iff [of "[a, b]" v] by (simp add: be16_def)

lemma be32_read: "be_word [a, b, c, d] = v \<longleftrightarrow> be32 v = [a, b, c, d]"
  using be_word_eq_iff [of "[a, b, c, d]" v] by (simp add: be32_def)

lemma be64_read: "length bs = 8 \<Longrightarrow> be_word bs = v \<longleftrightarrow> be64 v = bs"
  using be_word_eq_iff [of bs v] by (simp add: be_bytes_layout)

lemma be_inject [simp]:
  "be16 u = be16 u' \<longleftrightarrow> u = u'" "be32 v = be32 v' \<longleftrightarrow> v = v'" "be64 w = be64 w' \<longleftrightarrow> w = w'"
proof -
  show "be16 u = be16 u' \<longleftrightarrow> u = u'" by (metis be16_def be16_read)
  show "be32 v = be32 v' \<longleftrightarrow> v = v'" by (metis be32_def be32_read)
  show "be64 w = be64 w' \<longleftrightarrow> w = w'" by (metis be64_read length_be(3))
qed

lemma case_prod_eq_iff: "(case p of (a, b) \<Rightarrow> f a b) = y \<longleftrightarrow> (\<exists>a b. p = (a, b) \<and> f a b = y)"
  by (cases p) auto

lemma if_Inl_eq_Inr: "(if b then Inl e else m) = Inr y \<longleftrightarrow> \<not> b \<and> m = Inr y"
  by auto

lemma take_copy_at_0: "n \<le> length d \<Longrightarrow> n \<le> length dst \<Longrightarrow> take n (copy_at 0 d dst) = take n d"
  by (simp add: copy_at_def)

lemma copy_at_0_prefix:
  assumes "m \<le> length d" and "m \<le> length dst"
  shows "j \<le> m \<Longrightarrow> subslice (copy_at 0 d dst) i j = subslice d i j" and "0 < m \<Longrightarrow> copy_at 0 d dst ! 0 = d ! 0"
proof -
  show "subslice (copy_at 0 d dst) i j = subslice d i j" if "j \<le> m"
    using take_copy_at_0 [OF assms] that unfolding subslice_def
    by (metis drop_take min.absorb1 take_take)
  show "copy_at 0 d dst ! 0 = d ! 0" if "0 < m"
    using take_copy_at_0 [OF assms] that by (metis nth_take)
qed

lemma take_copy_at: "n \<le> off \<Longrightarrow> off \<le> length dst \<Longrightarrow> take n (copy_at off src dst) = take n dst"
  by (simp add: copy_at_def)

lemma be_word_be32: "be_word (be32 v) = v"
  using be32_read [of "ucast (drop_bit 24 v)" "ucast (drop_bit 16 v)" "ucast (drop_bit 8 v)" "ucast v" v]
  by (simp add: be32_def)

end
