(* ===== verification/Wire_Cursor.thy ===== *)
theory Wire_Cursor
  imports Lastro_Prelude
begin

text \<open>
  \<open>wire/cursor.go\<close> and the length-prefixed field readers: the bounds-checked reader
  every parser of the wire package is written with. The cursor is a record of the
  caller's buffer and the position; a read returns the value and the advanced cursor, or
  the error. The parsers drop the cursor on an error, so no state is returned with one.

  The two interfaces that the parsers of the other theories use are locales. \<open>codec\<close>
  says that a reader accepts exactly the bytes of an encoding, advances past them and
  reports a strict prefix of an encoding as \<open>ErrTruncated\<close>; \<open>exact_codec\<close> adds the
  trailing-bytes check of a \<open>ParseX\<close> function and derives from it that the function
  and its encoding are inverse to each other, that every strict prefix of an accepted
  input is refused as truncated and every extension as trailing bytes. All the cursor's
  readers are interpreted here.
\<close>

subsection \<open>The cursor and its readers\<close>

record cursor =
  buf :: bytes
  pos :: nat

definition need :: "nat \<Rightarrow> cursor \<Rightarrow> unit result" where
  "need n c = (if int (length (buf c)) - int (pos c) < int n then Inl ErrTruncated else Inr ())"

definition u8 :: "cursor \<Rightarrow> (byte \<times> cursor) result" where
  "u8 c = rbind (need 1 c) (\<lambda>_. rbind (go_index (buf c) (pos c)) (\<lambda>v. Inr (v, c\<lparr>pos := pos c + 1\<rparr>)))"

definition u16be :: "cursor \<Rightarrow> (uint16 \<times> cursor) result" where
  "u16be c = rbind (need 2 c) (\<lambda>_.
     rbind (go_index (buf c) (pos c)) (\<lambda>b0. rbind (go_index (buf c) (pos c + 1)) (\<lambda>b1.
     let v = push_bit 8 (ucast b0) OR ucast b1 in Inr (v, c\<lparr>pos := pos c + 2\<rparr>))))"

definition u32be :: "cursor \<Rightarrow> (uint32 \<times> cursor) result" where
  "u32be c = rbind (need 4 c) (\<lambda>_.
     rbind (go_index (buf c) (pos c)) (\<lambda>b0. rbind (go_index (buf c) (pos c + 1)) (\<lambda>b1.
     rbind (go_index (buf c) (pos c + 2)) (\<lambda>b2. rbind (go_index (buf c) (pos c + 3)) (\<lambda>b3.
     let v = push_bit 24 (ucast b0) OR push_bit 16 (ucast b1) OR push_bit 8 (ucast b2) OR ucast b3
     in Inr (v, c\<lparr>pos := pos c + 4\<rparr>))))))"

fun u64_loop :: "cursor \<Rightarrow> uint64 \<Rightarrow> nat list \<Rightarrow> uint64 result" where
  "u64_loop c v [] = Inr v"
| "u64_loop c v (i # is) =
     rbind (go_index (buf c) (pos c + i)) (\<lambda>b. u64_loop c (push_bit 8 v OR ucast b) is)"

definition u64be :: "cursor \<Rightarrow> (uint64 \<times> cursor) result" where
  "u64be c = rbind (need 8 c) (\<lambda>_.
     rbind (u64_loop c 0 [0..<8]) (\<lambda>v. Inr (v, c\<lparr>pos := pos c + 8\<rparr>)))"

definition take_c :: "nat \<Rightarrow> cursor \<Rightarrow> (bytes \<times> cursor) result" where
  "take_c n c = rbind (need n c) (\<lambda>_.
     rbind (go_slice (buf c) (pos c) (pos c + n)) (\<lambda>out. Inr (out, c\<lparr>pos := pos c + n\<rparr>)))"

definition field16 :: "nat \<Rightarrow> cursor \<Rightarrow> (bytes \<times> cursor) result" where
  "field16 mx c = rbind (u16be c) (\<lambda>(n, c).
     if unat n > mx then Inl ErrOversize else take_c (unat n) c)"

definition field32 :: "nat \<Rightarrow> cursor \<Rightarrow> (bytes \<times> cursor) result" where
  "field32 mx c = rbind (u32be c) (\<lambda>(n, c).
     if unat n > mx then Inl ErrOversize else take_c (unat n) c)"

text \<open>
  A cursor over \<open>pre @ r\<close> that has consumed \<open>pre\<close>; \<open>cursor{buf: buf}\<close> is
  \<open>start_cursor\<close>.
\<close>

definition cur_at :: "bytes \<Rightarrow> bytes \<Rightarrow> cursor" where
  "cur_at pre r = \<lparr>buf = pre @ r, pos = length pre\<rparr>"

definition start_cursor :: "bytes \<Rightarrow> cursor" where
  "start_cursor b = \<lparr>buf = b, pos = 0\<rparr>"

lemma start_cursor_at: "start_cursor b = cur_at [] b"
  by (simp add: start_cursor_def cur_at_def)

lemma cur_at_sel [simp]: "buf (cur_at pre r) = pre @ r" "pos (cur_at pre r) = length pre"
  by (simp_all add: cur_at_def)

lemma cur_at_inject: "cur_at p r = cur_at p' r' \<longleftrightarrow> p = p' \<and> r = r'"
  by (auto simp: cur_at_def)

subsection \<open>The interface of a reader\<close>

locale codec =
  fixes rd :: "cursor \<Rightarrow> ('a \<times> cursor) result"
    and enc :: "'a \<Rightarrow> bytes"
    and ok :: "'a \<Rightarrow> bool"
  assumes rd_iff: "rd (cur_at pre r) = Inr (a, c) \<longleftrightarrow>
      ok a \<and> (\<exists>ys. r = enc a @ ys \<and> c = cur_at (pre @ enc a) ys)"
    and rd_trunc: "ok a \<Longrightarrow> strict_prefix r (enc a) \<Longrightarrow> rd (cur_at pre r) = Inl ErrTruncated"
begin

lemma rd_enc: "ok a \<Longrightarrow> rd (cur_at pre (enc a @ ys)) = Inr (a, cur_at (pre @ enc a) ys)"
  by (auto simp: rd_iff)

text \<open>One step of a reader that continues with \<open>k\<close>, on a cut-short input.\<close>

lemma rd_trunc_step:
  assumes r: "strict_prefix r (enc a @ s)"
    and k: "\<And>r'. strict_prefix r' s \<Longrightarrow> k a (cur_at (pre @ enc a) r') = Inl ErrTruncated"
    and a: "ok a"
  shows "rbind (rd (cur_at pre r)) (case_prod k) = Inl ErrTruncated"
  using r
proof (cases rule: strict_prefix_append_cases)
  case 1
  then show ?thesis by (simp add: rd_trunc [OF a])
next
  case (2 r')
  then show ?thesis using a by (simp add: rd_enc k)
qed

lemma rd_trunc_last:
  "strict_prefix r (enc a) \<Longrightarrow> ok a \<Longrightarrow> rbind (rd (cur_at pre r)) k = Inl ErrTruncated"
  by (simp add: rd_trunc)

lemma rd_unique:
  assumes a: "ok a" and b: "ok b" and eq: "enc a @ ys = enc b @ zs"
  shows "a = b \<and> ys = zs"
proof -
  have "Inr (a, cur_at (enc a) ys) = (Inr (b, cur_at (enc b) zs) :: ('a \<times> cursor) result)"
    using rd_enc [OF a, of "[]" ys] rd_enc [OF b, of "[]" zs] eq by simp
  then show ?thesis by (simp add: cur_at_inject)
qed

end

text \<open>A reader of a fixed number of bytes.\<close>

locale fixed_width =
  fixes rd :: "cursor \<Rightarrow> ('a \<times> cursor) result"
    and n :: nat
    and dec :: "bytes \<Rightarrow> 'a"
    and enc :: "'a \<Rightarrow> bytes"
    and ok :: "'a \<Rightarrow> bool"
  assumes rd_eq: "rd (cur_at pre r) =
      (if length r < n then Inl ErrTruncated
       else Inr (dec (take n r), cur_at (pre @ take n r) (drop n r)))"
    and dec_iff: "length bs = n \<Longrightarrow> dec bs = a \<longleftrightarrow> ok a \<and> enc a = bs"
    and enc_len: "ok a \<Longrightarrow> length (enc a) = n"
begin

sublocale codec rd enc ok
proof
  fix pre r a c
  show "rd (cur_at pre r) = Inr (a, c) \<longleftrightarrow>
      ok a \<and> (\<exists>ys. r = enc a @ ys \<and> c = cur_at (pre @ enc a) ys)"
  proof (cases "length r < n")
    case True
    then show ?thesis using enc_len [of a] by (auto simp: rd_eq)
  next
    case False
    then have t: "dec (take n r) = a \<longleftrightarrow> ok a \<and> enc a = take n r"
      by (simp add: dec_iff)
    show ?thesis
    proof
      assume "rd (cur_at pre r) = Inr (a, c)"
      then have "dec (take n r) = a" and c: "c = cur_at (pre @ take n r) (drop n r)"
        using False by (simp_all add: rd_eq)
      then show "ok a \<and> (\<exists>ys. r = enc a @ ys \<and> c = cur_at (pre @ enc a) ys)"
        using t by (metis append_take_drop_id)
    next
      assume "ok a \<and> (\<exists>ys. r = enc a @ ys \<and> c = cur_at (pre @ enc a) ys)"
      then obtain ys where a: "ok a" "r = enc a @ ys" "c = cur_at (pre @ enc a) ys" by blast
      then show "rd (cur_at pre r) = Inr (a, c)"
        using False t enc_len [of a] by (simp add: rd_eq)
    qed
  qed
next
  fix pre r a
  assume "ok a" and "strict_prefix r (enc a)"
  then have "length r < n" using prefix_length_less enc_len by metis
  then show "rd (cur_at pre r) = Inl ErrTruncated" by (simp add: rd_eq)
qed

end

subsection \<open>The interface of a parser of exactly one structure\<close>

text \<open>The last check of every \<open>ParseX\<close>: \<open>if c.pos != len(buf) { return nil, ErrTrailingBytes }\<close>.\<close>

definition parse_exact :: "(cursor \<Rightarrow> ('a \<times> cursor) result) \<Rightarrow> bytes \<Rightarrow> 'a result" where
  "parse_exact rd b = rbind (rd (start_cursor b)) (\<lambda>(a, c).
     if pos c \<noteq> length b then Inl ErrTrailingBytes else Inr a)"

locale exact_codec = codec +
  fixes parse :: "bytes \<Rightarrow> 'a result"
  assumes parse_eq: "parse b = parse_exact rd b"
begin

lemma parse_iff: "parse b = Inr a \<longleftrightarrow> ok a \<and> b = enc a"
proof
  assume "parse b = Inr a"
  then show "ok a \<and> b = enc a"
    by (auto simp: parse_eq parse_exact_def rbind_eq_Inr start_cursor_at rd_iff split: if_splits)
next
  assume "ok a \<and> b = enc a"
  then show "parse b = Inr a"
    using rd_enc [of a "[]" "[]"] by (simp add: parse_eq parse_exact_def start_cursor_at)
qed

lemma parse_enc: "ok a \<Longrightarrow> parse (enc a) = Inr a"
  by (simp add: parse_iff)

lemma parse_canonical: "parse b = Inr a \<Longrightarrow> parse b' = Inr a \<Longrightarrow> b = b'"
  by (simp add: parse_iff)

lemma parse_prefix: "parse b = Inr a \<Longrightarrow> strict_prefix p b \<Longrightarrow> parse p = Inl ErrTruncated"
  using rd_trunc [of a p "[]"]
  by (simp only: parse_iff) (simp add: parse_eq parse_exact_def start_cursor_at)

lemma parse_extension:
  assumes "parse b = Inr a" and "x \<noteq> []"
  shows "parse (b @ x) = Inl ErrTrailingBytes"
proof -
  have "ok a" "b = enc a" using assms(1) by (simp_all add: parse_iff)
  then show ?thesis using assms(2) by (simp add: parse_eq parse_exact_def start_cursor_at rd_enc)
qed

end

text \<open>How the parsers establish the interface: acceptance, evaluation on an encoding, cut-short inputs.\<close>

lemma codecI:
  assumes "\<And>pre r a c. rd (cur_at pre r) = Inr (a, c) \<Longrightarrow>
      ok a \<and> (\<exists>ys. r = enc a @ ys \<and> c = cur_at (pre @ enc a) ys)"
    and "\<And>pre a ys. ok a \<Longrightarrow> rd (cur_at pre (enc a @ ys)) = Inr (a, cur_at (pre @ enc a) ys)"
    and "\<And>pre r a. ok a \<Longrightarrow> strict_prefix r (enc a) \<Longrightarrow> rd (cur_at pre r) = Inl ErrTruncated"
  shows "codec rd enc ok"
proof
  fix pre r a c
  show "rd (cur_at pre r) = Inr (a, c) \<longleftrightarrow>
      ok a \<and> (\<exists>ys. r = enc a @ ys \<and> c = cur_at (pre @ enc a) ys)"
    using assms(1,2) by blast
qed (rule assms(3))

lemma exact_codecI:
  "codec rd enc ok \<Longrightarrow> (\<And>b. parse b = parse_exact rd b) \<Longrightarrow> exact_codec rd enc ok parse"
  by (simp add: exact_codec_def exact_codec_axioms_def)

subsection \<open>The cursor's readers implement the interface\<close>

lemma need_at [simp]: "need n (cur_at pre r) = (if length r < n then Inl ErrTruncated else Inr ())"
  by (auto simp: need_def)

lemma cur_at_advance:
  "n \<le> length r \<Longrightarrow> (cur_at pre r)\<lparr>pos := length pre + n\<rparr> = cur_at (pre @ take n r) (drop n r)"
  by (simp add: cur_at_def)

lemma take_nth_list: "n \<le> length r \<Longrightarrow> take n r = map ((!) r) [0..<n]"
  by (intro nth_equalityI) auto

lemma go_index_in [simp]: "i < length xs \<Longrightarrow> go_index xs i = Inr (xs ! i)"
  by (simp add: go_index_def)

lemma slice_trunc:
  "k (drop i p) = Inl ErrTruncated \<Longrightarrow> i \<le> length p \<Longrightarrow>
   rbind (go_slice (buf (cur_at p r)) i (pos (cur_at p r))) k = Inl ErrTruncated"
  by (simp add: subslice_def)

lemma u8_at: "u8 (cur_at pre r) =
    (if length r < 1 then Inl ErrTruncated
     else Inr (hd (take 1 r), cur_at (pre @ take 1 r) (drop 1 r)))"
  using cur_at_advance [of 1 r pre] by (cases r) (auto simp: u8_def)

lemma u16be_at: "u16be (cur_at pre r) =
    (if length r < 2 then Inl ErrTruncated
     else Inr (be_word (take 2 r), cur_at (pre @ take 2 r) (drop 2 r)))"
  using cur_at_advance [of 2 r pre]
  by (cases "r = []") (auto simp: u16be_def take_nth_list nth_append be_word_def upt_rec)

lemma u32be_at: "u32be (cur_at pre r) =
    (if length r < 4 then Inl ErrTruncated
     else Inr (be_word (take 4 r), cur_at (pre @ take 4 r) (drop 4 r)))"
  using cur_at_advance [of 4 r pre]
  by (cases "r = []") (auto simp: u32be_def take_nth_list nth_append be_word_def upt_rec numeral_2_eq_2 numeral_3_eq_3 ac_simps)

lemma u64_loop_in:
  "\<forall>i \<in> set is. pos c + i < length (buf c) \<Longrightarrow>
   u64_loop c v is = Inr (foldl (\<lambda>v i. push_bit 8 v OR ucast (buf c ! (pos c + i))) v is)"
  by (induction "is" arbitrary: v) auto

lemma u64be_at: "u64be (cur_at pre r) =
    (if length r < 8 then Inl ErrTruncated
     else Inr (be_word (take 8 r), cur_at (pre @ take 8 r) (drop 8 r)))"
  using cur_at_advance [of 8 r pre] u64_loop_in [of "[0..<8]" "cur_at pre r" 0]
  by (cases "r = []") (auto simp: u64be_def take_nth_list nth_append be_word_def upt_rec simp del: u64_loop.simps)

lemma take_c_at: "take_c n (cur_at pre r) =
    (if length r < n then Inl ErrTruncated
     else Inr (take n r, cur_at (pre @ take n r) (drop n r)))"
  using cur_at_advance [of n r pre] by (auto simp: take_c_def go_slice_def subslice_def)

interpretation u8c: fixed_width u8 1 hd "\<lambda>v. [v]" "\<lambda>_. True"
proof
  fix bs :: bytes and a assume "length bs = 1"
  then show "hd bs = a \<longleftrightarrow> True \<and> [a] = bs" by (cases bs) auto
qed (simp_all add: u8_at)

interpretation u16c: fixed_width u16be 2 be_word be16 "\<lambda>_. True"
proof
  fix bs :: bytes and a assume "length bs = 2"
  then obtain x y where "bs = [x, y]" by (auto simp: numeral_eq_Suc length_Suc_conv)
  then show "be_word bs = a \<longleftrightarrow> True \<and> be16 a = bs" by (simp add: be16_read)
qed (simp_all add: u16be_at)

interpretation u32c: fixed_width u32be 4 be_word be32 "\<lambda>_. True"
proof
  fix bs :: bytes and a assume "length bs = 4"
  then obtain w x y z where "bs = [w, x, y, z]" by (auto simp: numeral_eq_Suc length_Suc_conv)
  then show "be_word bs = a \<longleftrightarrow> True \<and> be32 a = bs" by (simp add: be32_read)
qed (simp_all add: u32be_at)

interpretation u64c: fixed_width u64be 8 be_word be64 "\<lambda>_. True"
  by unfold_locales (simp_all add: u64be_at be64_read)

interpretation takec: fixed_width "take_c n" n "\<lambda>bs. bs" "\<lambda>bs. bs" "\<lambda>bs. length bs = n" for n
  by unfold_locales (auto simp: take_c_at)

text \<open>
  The length-prefixed fields. The prefix must be able to hold the length, which the
  declared maxima guarantee where the fields are used.
\<close>

definition enc_field16 :: "bytes \<Rightarrow> bytes" where
  "enc_field16 bs = be16 (of_nat (length bs)) @ bs"

definition enc_field32 :: "bytes \<Rightarrow> bytes" where
  "enc_field32 bs = be32 (of_nat (length bs)) @ bs"

lemma unat_of_nat_lt16: "n < 65536 \<Longrightarrow> unat (of_nat n :: uint16) = n"
  by (simp add: unsigned_of_nat take_bit_nat_eq_self)

lemma unat_of_nat_lt32: "n < 4294967296 \<Longrightarrow> unat (of_nat n :: uint32) = n"
  by (simp add: unsigned_of_nat take_bit_nat_eq_self)

lemma unat_lt16: "unat (v :: uint16) < 65536"
  using unsigned_less [of v, where ?'a = nat] by simp

lemma unat_lt32: "unat (v :: uint32) < 4294967296"
  using unsigned_less [of v, where ?'a = nat] by simp

interpretation field16c: codec "field16 mx" enc_field16 "\<lambda>bs. length bs \<le> mx \<and> length bs < 65536" for mx
proof
  fix pre r a c
  show "field16 mx (cur_at pre r) = Inr (a, c) \<longleftrightarrow>
      (length a \<le> mx \<and> length a < 65536) \<and>
      (\<exists>ys. r = enc_field16 a @ ys \<and> c = cur_at (pre @ enc_field16 a) ys)"
  proof
    assume "field16 mx (cur_at pre r) = Inr (a, c)"
    then show "(length a \<le> mx \<and> length a < 65536) \<and>
      (\<exists>ys. r = enc_field16 a @ ys \<and> c = cur_at (pre @ enc_field16 a) ys)"
      by (auto simp: field16_def rbind_eq_Inr u16c.rd_iff takec.rd_iff enc_field16_def unat_lt16 split: if_splits)
  next
    assume "(length a \<le> mx \<and> length a < 65536) \<and>
      (\<exists>ys. r = enc_field16 a @ ys \<and> c = cur_at (pre @ enc_field16 a) ys)"
    then show "field16 mx (cur_at pre r) = Inr (a, c)"
      by (auto simp: field16_def enc_field16_def u16c.rd_enc takec.rd_enc unat_of_nat_lt16)
  qed
next
  fix pre r a
  assume a: "length a \<le> mx \<and> length a < 65536" and "strict_prefix r (enc_field16 a)"
  then show "field16 mx (cur_at pre r) = Inl ErrTruncated"
    unfolding field16_def enc_field16_def
    by (elim u16c.rd_trunc_step) (auto simp: unat_of_nat_lt16 intro: takec.rd_trunc)
qed

interpretation field32c: codec "field32 mx" enc_field32 "\<lambda>bs. length bs \<le> mx \<and> length bs < 4294967296" for mx
proof
  fix pre r a c
  show "field32 mx (cur_at pre r) = Inr (a, c) \<longleftrightarrow>
      (length a \<le> mx \<and> length a < 4294967296) \<and>
      (\<exists>ys. r = enc_field32 a @ ys \<and> c = cur_at (pre @ enc_field32 a) ys)"
  proof
    assume "field32 mx (cur_at pre r) = Inr (a, c)"
    then show "(length a \<le> mx \<and> length a < 4294967296) \<and>
      (\<exists>ys. r = enc_field32 a @ ys \<and> c = cur_at (pre @ enc_field32 a) ys)"
      by (auto simp: field32_def rbind_eq_Inr u32c.rd_iff takec.rd_iff enc_field32_def unat_lt32 split: if_splits)
  next
    assume "(length a \<le> mx \<and> length a < 4294967296) \<and>
      (\<exists>ys. r = enc_field32 a @ ys \<and> c = cur_at (pre @ enc_field32 a) ys)"
    then show "field32 mx (cur_at pre r) = Inr (a, c)"
      by (auto simp: field32_def enc_field32_def u32c.rd_enc takec.rd_enc unat_of_nat_lt32)
  qed
next
  fix pre r a
  assume a: "length a \<le> mx \<and> length a < 4294967296" and "strict_prefix r (enc_field32 a)"
  then show "field32 mx (cur_at pre r) = Inl ErrTruncated"
    unfolding field32_def enc_field32_def
    by (elim u32c.rd_trunc_step) (auto simp: unat_of_nat_lt32 intro: takec.rd_trunc)
qed

lemmas cursor_iff =
  u8c.rd_iff u16c.rd_iff u32c.rd_iff u64c.rd_iff takec.rd_iff field16c.rd_iff field32c.rd_iff

lemma u8_Cons: "u8 (cur_at pre (v # ys)) = Inr (v, cur_at (pre @ [v]) ys)"
  using u8c.rd_enc [of pre v ys] by simp

lemmas cursor_enc =
  u8_Cons u16c.rd_enc u32c.rd_enc u64c.rd_enc takec.rd_enc field16c.rd_enc field32c.rd_enc

lemma guard_trunc: "f = Inl ErrTruncated \<Longrightarrow> \<not> b \<Longrightarrow> (if b then e else f) = Inl ErrTruncated"
  by simp

lemmas cursor_trunc =
  u8c.rd_trunc_step u16c.rd_trunc_step u32c.rd_trunc_step u64c.rd_trunc_step
  takec.rd_trunc_step field16c.rd_trunc_step field32c.rd_trunc_step

subsection \<open>No reader leaves the buffer\<close>

text \<open>
  The second interface of a reader: it never panics, and a successful read keeps the buffer,
  moves the position forward and leaves it within the buffer. The client is a parser that
  reads on and slices the bytes it has consumed.
\<close>

locale safe_reader =
  fixes rd :: "cursor \<Rightarrow> ('a \<times> cursor) result"
  assumes rd_no_panic: "no_panic (rd c)"
    and rd_advance: "rd c = Inr (v, c') \<Longrightarrow> buf c' = buf c \<and> pos c \<le> pos c' \<and> pos c' \<le> length (buf c')"
begin

lemma rd_then:
  assumes "\<And>v c'. buf c' = buf c \<Longrightarrow> pos c \<le> pos c' \<Longrightarrow> pos c' \<le> length (buf c') \<Longrightarrow> no_panic (k v c')"
  shows "no_panic (rbind (rd c) (\<lambda>(v, c'). k v c'))"
  by (intro no_panic_bind no_panic_prod rd_no_panic assms) (auto dest: rd_advance)

lemma parse_exact_no_panic: "no_panic (parse_exact rd b)"
  unfolding parse_exact_def by (rule rd_then) (simp add: is_panic_def)

end

lemma need_ok: "need n c = Inr () \<longleftrightarrow> pos c + n \<le> length (buf c)"
  by (auto simp: need_def)

lemma need_no_panic: "no_panic (need n c)"
  by (simp add: need_def is_panic_def)

lemma need_then:
  "(pos c + n \<le> length (buf c) \<Longrightarrow> no_panic k) \<Longrightarrow> no_panic (rbind (need n c) (\<lambda>_. k))"
  by (intro no_panic_bind need_no_panic) (simp add: need_ok)

interpretation u8s: safe_reader u8
proof
  show "no_panic (u8 c)" for c unfolding u8_def by (rule need_then) simp
qed (auto simp: u8_def rbind_eq_Inr need_ok)

interpretation u16s: safe_reader u16be
proof
  show "no_panic (u16be c)" for c unfolding u16be_def by (rule need_then) simp
qed (auto simp: u16be_def rbind_eq_Inr need_ok Let_def)

interpretation u32s: safe_reader u32be
proof
  show "no_panic (u32be c)" for c unfolding u32be_def by (rule need_then) simp
qed (auto simp: u32be_def rbind_eq_Inr need_ok Let_def)

interpretation u64s: safe_reader u64be
proof
  show "no_panic (u64be c)" for c unfolding u64be_def by (rule need_then) (simp add: u64_loop_in)
qed (auto simp: u64be_def rbind_eq_Inr need_ok simp del: u64_loop.simps)

interpretation takes: safe_reader "take_c n" for n
proof
  show "no_panic (take_c n c)" for c unfolding take_c_def by (rule need_then) simp
qed (auto simp: take_c_def rbind_eq_Inr need_ok)

interpretation field16s: safe_reader "field16 mx" for mx
proof
  show "no_panic (field16 mx c)" for c
    unfolding field16_def by (rule u16s.rd_then) (simp add: is_panic_def takes.rd_no_panic)
qed (auto simp: field16_def rbind_eq_Inr dest!: u16s.rd_advance takes.rd_advance split: if_splits)

interpretation field32s: safe_reader "field32 mx" for mx
proof
  show "no_panic (field32 mx c)" for c
    unfolding field32_def by (rule u32s.rd_then) (simp add: is_panic_def takes.rd_no_panic)
qed (auto simp: field32_def rbind_eq_Inr dest!: u32s.rd_advance takes.rd_advance split: if_splits)

lemma slice_then:
  "i \<le> j \<Longrightarrow> j \<le> length b \<Longrightarrow> no_panic (k (subslice b i j)) \<Longrightarrow> no_panic (rbind (go_slice b i j) k)"
  by simp

lemmas safe_reads = slice_then
  u8s.rd_then u16s.rd_then u32s.rd_then u64s.rd_then takes.rd_then field16s.rd_then field32s.rd_then

lemmas safe_advances =
  u8s.rd_advance u16s.rd_advance u32s.rd_advance u64s.rd_advance takes.rd_advance
  field16s.rd_advance field32s.rd_advance

end
