(* ===== verification/Wire_Crypto.thy ===== *)
theory Wire_Crypto
  imports Lastro_Prelude
begin

text \<open>
  \<open>wire/crypto.go\<close>: domain-separated signatures, the protocol hash and the values
  derived from a signing key.

  The primitives themselves are not in the repository: Ed25519 arithmetic
  (\<open>crypto/ed25519\<close>), BLAKE2s, ChaCha20-Poly1305 and X25519 (\<open>golang.org/x/crypto\<close>).
  They are the fields of the record \<open>crypto\<close>, a parameter of every definition that
  uses one. What the code relies on is stated by the predicates \<open>ed25519_laws\<close>,
  \<open>blake2s_laws\<close>, \<open>aead_laws\<close>, \<open>aead_exact\<close> and \<open>x25519_laws\<close>: the documented functional behaviour of
  the packages (lengths, that a signature made with a key verifies under its public key,
  that opening inverts sealing, that the Diffie-Hellman results agree), never a
  computational hardness assumption. The argument checks and the key layout of
  \<open>crypto/ed25519\<close> are written out, panics included.
\<close>

record crypto =
  ed_pub :: "bytes \<Rightarrow> bytes" \<comment> \<open>public key of a seed\<close>
  ed_sign :: "bytes \<Rightarrow> bytes \<Rightarrow> bytes" \<comment> \<open>private key, message\<close>
  ed_verify :: "bytes \<Rightarrow> bytes \<Rightarrow> bytes \<Rightarrow> bool" \<comment> \<open>public key, message, signature\<close>
  blake2s_Sum256 :: "bytes \<Rightarrow> bytes"
  blake2s_mac128 :: "bytes \<Rightarrow> bytes \<Rightarrow> bytes" \<comment> \<open>key, data\<close>
  aead_Seal :: "bytes \<Rightarrow> bytes \<Rightarrow> bytes \<Rightarrow> bytes \<Rightarrow> bytes" \<comment> \<open>key, nonce, plaintext, ad\<close>
  aead_Open :: "bytes \<Rightarrow> bytes \<Rightarrow> bytes \<Rightarrow> bytes \<Rightarrow> bytes option" \<comment> \<open>key, nonce, ciphertext, ad\<close>
  X25519 :: "bytes \<Rightarrow> bytes \<Rightarrow> bytes option" \<comment> \<open>scalar, point\<close>
  Basepoint :: bytes

subsection \<open>Sizes and domain tags\<close>

abbreviation PublicKeySize :: nat where "PublicKeySize \<equiv> 32"
abbreviation PrivateKeySize :: nat where "PrivateKeySize \<equiv> 64"
abbreviation SeedSize :: nat where "SeedSize \<equiv> 32"
abbreviation SignatureSize :: nat where "SignatureSize \<equiv> 64"

abbreviation DomainCert :: byte where "DomainCert \<equiv> 0x01"
abbreviation DomainEnvelope :: byte where "DomainEnvelope \<equiv> 0x02"
abbreviation DomainSpan :: byte where "DomainSpan \<equiv> 0x03"
abbreviation DomainGrant :: byte where "DomainGrant \<equiv> 0x04"
abbreviation DomainBinding :: byte where "DomainBinding \<equiv> 0x05"
abbreviation DomainRefusal :: byte where "DomainRefusal \<equiv> 0x06"
abbreviation DomainRelayReg :: byte where "DomainRelayReg \<equiv> 0x07"
abbreviation DomainResourceSet :: byte where "DomainResourceSet \<equiv> 0x08"

subsection \<open>Ed25519 as the package exposes it\<close>

text \<open>A private key is the seed followed by the public key.\<close>

definition NewKeyFromSeed :: "crypto \<Rightarrow> bytes \<Rightarrow> bytes result" where
  "NewKeyFromSeed cr seed =
     (if length seed \<noteq> SeedSize then Inl PanicKeySize else Inr (seed @ ed_pub cr seed))"

definition PublicOf :: "bytes \<Rightarrow> bytes" where
  "PublicOf priv = drop SeedSize priv"

definition ed25519_Sign :: "crypto \<Rightarrow> bytes \<Rightarrow> bytes \<Rightarrow> bytes result" where
  "ed25519_Sign cr priv msg =
     (if length priv \<noteq> PrivateKeySize then Inl PanicKeySize else Inr (ed_sign cr priv msg))"

definition ed25519_Verify :: "crypto \<Rightarrow> bytes \<Rightarrow> bytes \<Rightarrow> bytes \<Rightarrow> bool result" where
  "ed25519_Verify cr pub msg sig =
     (if length pub \<noteq> PublicKeySize then Inl PanicKeySize else Inr (ed_verify cr pub msg sig))"

subsection \<open>Signing and verifying under a tag\<close>

definition VerifySigned :: "crypto \<Rightarrow> byte \<Rightarrow> bytes \<Rightarrow> bytes \<Rightarrow> bytes \<Rightarrow> unit result" where
  "VerifySigned cr tag tbs sig pubkey =
     (if length pubkey \<noteq> PublicKeySize then Inl ErrMalformedKey
      else if length sig \<noteq> SignatureSize then Inl ErrBadSignature
      else let msg = tag # tbs in
        rbind (ed25519_Verify cr pubkey msg sig) (\<lambda>good.
          if \<not> good then Inl ErrBadSignature else Inr ()))"

definition SignTagged :: "crypto \<Rightarrow> byte \<Rightarrow> bytes \<Rightarrow> bytes \<Rightarrow> bytes result" where
  "SignTagged cr tag tbs priv = (let msg = tag # tbs in ed25519_Sign cr priv msg)"

definition SignTaggedSeed :: "crypto \<Rightarrow> byte \<Rightarrow> bytes \<Rightarrow> bytes \<Rightarrow> bytes result" where
  "SignTaggedSeed cr tag tbs seed =
     rbind (NewKeyFromSeed cr seed) (\<lambda>priv. SignTagged cr tag tbs priv)"

subsection \<open>The protocol hash and what is derived from it\<close>

definition Blake2s256 :: "crypto \<Rightarrow> bytes \<Rightarrow> bytes" where
  "Blake2s256 cr d = blake2s_Sum256 cr d"

definition OverlayAddr :: "crypto \<Rightarrow> bytes \<Rightarrow> bytes" where
  "OverlayAddr cr sigPubkey =
     (let h = blake2s_Sum256 cr sigPubkey; addr = replicate 16 0
      in copy_at 1 (take 15 h) (addr[0 := 0xfd]))"

definition hex_digit :: "byte \<Rightarrow> byte" where
  "hex_digit d = str_bytes ''0123456789abcdef'' ! unat d"

definition EncodeToString :: "bytes \<Rightarrow> bytes" where
  "EncodeToString bs = concat (map (\<lambda>b. [hex_digit (drop_bit 4 b), hex_digit (b AND 0x0f)]) bs)"

definition Fingerprint :: "crypto \<Rightarrow> bytes \<Rightarrow> bytes" where
  "Fingerprint cr sigPubkey = (let h = blake2s_Sum256 cr sigPubkey in EncodeToString (take 8 h))"

subsection \<open>The documented behaviour of the primitives\<close>

definition ed25519_laws :: "crypto \<Rightarrow> bool" where
  "ed25519_laws cr \<longleftrightarrow>
     (\<forall>seed. length seed = SeedSize \<longrightarrow> length (ed_pub cr seed) = PublicKeySize) \<and>
     (\<forall>priv m. length (ed_sign cr priv m) = SignatureSize) \<and>
     (\<forall>seed m. length seed = SeedSize \<longrightarrow>
        ed_verify cr (ed_pub cr seed) m (ed_sign cr (seed @ ed_pub cr seed) m))"

definition blake2s_laws :: "crypto \<Rightarrow> bool" where
  "blake2s_laws cr \<longleftrightarrow>
     (\<forall>d. length (blake2s_Sum256 cr d) = 32) \<and> (\<forall>k d. length (blake2s_mac128 cr k d) = 16)"

definition aead_laws :: "crypto \<Rightarrow> bool" where
  "aead_laws cr \<longleftrightarrow>
     (\<forall>k n pt ad. length k = 32 \<longrightarrow> length n = 12 \<longrightarrow>
        aead_Open cr k n (aead_Seal cr k n pt ad) ad = Some pt \<and>
        length (aead_Seal cr k n pt ad) = length pt + 16)"

text \<open>The AEAD is deterministic: what opens is what sealing the result gives.\<close>

definition aead_exact :: "crypto \<Rightarrow> bool" where
  "aead_exact cr \<longleftrightarrow>
     (\<forall>k n ct ad pt. length k = 32 \<longrightarrow> length n = 12 \<longrightarrow>
        aead_Open cr k n ct ad = Some pt \<longrightarrow> ct = aead_Seal cr k n pt ad)"

definition x25519_laws :: "crypto \<Rightarrow> bool" where
  "x25519_laws cr \<longleftrightarrow>
     (\<forall>a p q. X25519 cr a p = Some q \<longrightarrow> length q = 32) \<and>
     (\<forall>a b A B. X25519 cr a (Basepoint cr) = Some A \<longrightarrow> X25519 cr b (Basepoint cr) = Some B \<longrightarrow>
        X25519 cr a B = X25519 cr b A)"

subsection \<open>Lemmas\<close>

lemma ed25519_lawsD:
  assumes "ed25519_laws cr"
  shows "length seed = SeedSize \<Longrightarrow> length (ed_pub cr seed) = PublicKeySize"
    and "length (ed_sign cr priv m) = SignatureSize"
    and "length seed = SeedSize \<Longrightarrow>
         ed_verify cr (ed_pub cr seed) m (ed_sign cr (seed @ ed_pub cr seed) m)"
  using assms by (simp_all add: ed25519_laws_def)

lemma blake2s_lawsD:
  assumes "blake2s_laws cr"
  shows "length (blake2s_Sum256 cr d) = 32" and "length (blake2s_mac128 cr k d) = 16"
  using assms by (simp_all add: blake2s_laws_def)

lemma VerifySigned_ok_iff:
  "VerifySigned cr tag tbs sig pub = Inr () \<longleftrightarrow>
     length pub = PublicKeySize \<and> length sig = SignatureSize \<and> ed_verify cr pub (tag # tbs) sig"
  by (simp add: VerifySigned_def ed25519_Verify_def)

lemma VerifySigned_error:
  "VerifySigned cr tag tbs sig pub = Inl e \<Longrightarrow> e = ErrMalformedKey \<or> e = ErrBadSignature"
  by (auto simp: VerifySigned_def ed25519_Verify_def Let_def split: if_splits)

lemma VerifySigned_no_panic [panic_free]: "no_panic (VerifySigned cr tag tbs sig pub)"
  by (auto simp: no_panic_def is_panic_def dest: VerifySigned_error)

lemma length_EncodeToString [simp]: "length (EncodeToString bs) = 2 * length bs"
  by (induction bs) (simp_all add: EncodeToString_def)

lemma length_Fingerprint: "blake2s_laws cr \<Longrightarrow> length (Fingerprint cr k) = 16"
  by (simp add: Fingerprint_def Let_def blake2s_lawsD)

lemma SignTaggedSeed_verifies:
  assumes "ed25519_laws cr" and "length seed = SeedSize"
  shows "\<exists>sig. SignTaggedSeed cr tag tbs seed = Inr sig \<and>
               VerifySigned cr tag tbs sig (ed_pub cr seed) = Inr ()"
  using assms
  by (simp add: SignTaggedSeed_def NewKeyFromSeed_def SignTagged_def ed25519_Sign_def
      VerifySigned_ok_iff ed25519_lawsD)

end
