(* ===== verification/Reference_Crypto.thy ===== *)
theory Reference_Crypto
  imports Wire_Crypto
begin

text \<open>
  A concrete instance of the \<open>crypto\<close> parameter. It satisfies every law the properties
  assume and computes, so that they can be applied to concrete inputs. It has the shape
  of the real primitives (lengths, who can open and verify what) and no strength
  whatever: nothing about the security of the protocol is read off it.
\<close>

definition ref_sum :: "nat \<Rightarrow> bytes \<Rightarrow> bytes" where
  "ref_sum n d = take n (rev d @ replicate n 0)"

definition ref_tag :: "bytes \<Rightarrow> bytes \<Rightarrow> bytes \<Rightarrow> bytes" where
  "ref_tag k n ad = ref_sum 16 (ad @ drop 8 n @ take 4 k)"

definition ref_point :: "bytes \<Rightarrow> bytes \<Rightarrow> bytes option" where
  "ref_point a p = (if length a = 32 \<and> length p = 32 then Some (map2 (XOR) a p) else None)"

definition ref_crypto :: crypto where
  "ref_crypto =
     \<lparr>ed_pub = map (\<lambda>b. b XOR 0x5a),
      ed_sign = (\<lambda>priv m. ref_sum 64 (m @ drop 32 priv)),
      ed_verify = (\<lambda>pub m sig. sig = ref_sum 64 (m @ pub)),
      blake2s_Sum256 = ref_sum 32,
      blake2s_mac128 = (\<lambda>k d. ref_sum 16 (d @ take 4 k)),
      aead_Seal = (\<lambda>k n pt ad. pt @ ref_tag k n ad),
      aead_Open = (\<lambda>k n ct ad.
        if 16 \<le> length ct \<and> drop (length ct - 16) ct = ref_tag k n ad
        then Some (take (length ct - 16) ct) else None),
      X25519 = ref_point, Basepoint = 9 # replicate 31 0\<rparr>"

lemma length_ref_sum [simp]: "length (ref_sum n d) = n"
  by (simp add: ref_sum_def)

lemma length_ref_tag [simp]: "length (ref_tag k n ad) = 16"
  by (simp add: ref_tag_def)

lemma ref_ed25519: "ed25519_laws ref_crypto"
  by (simp add: ed25519_laws_def ref_crypto_def)

lemma ref_blake2s: "blake2s_laws ref_crypto"
  by (simp add: blake2s_laws_def ref_crypto_def)

lemma ref_aead: "aead_laws ref_crypto"
  by (simp add: aead_laws_def ref_crypto_def)

lemma ref_aead_exact: "aead_exact ref_crypto"
  by (auto simp: aead_exact_def ref_crypto_def split: if_splits) (metis append_take_drop_id)

lemma map2_xor_swap:
  "length a = length b \<Longrightarrow> length b = length (g :: bytes) \<Longrightarrow>
   map2 (XOR) a (map2 (XOR) b g) = map2 (XOR) b (map2 (XOR) a g)"
  by (induction a b g rule: list_induct3) (auto simp: ac_simps)

lemma ref_x25519: "x25519_laws ref_crypto"
  using map2_xor_swap [of _ _ "9 # replicate 31 0"]
  by (auto simp: x25519_laws_def ref_crypto_def ref_point_def split: if_splits)

lemmas ref_laws = ref_ed25519 ref_blake2s ref_aead ref_aead_exact ref_x25519

text \<open>Key material for the concrete inputs: repeated bytes, and the public key of such a seed.\<close>

abbreviation key32 :: "byte \<Rightarrow> bytes" where "key32 b \<equiv> replicate 32 b"

lemma ref_pub [simp]: "ed_pub ref_crypto (key32 b) = key32 (b XOR 0x5a)"
  by (simp add: ref_crypto_def)

end
