(* ===== verification/Wire_Span.thy ===== *)
theory Wire_Span
  imports Wire_Cursor Reference_Crypto
begin

text \<open>
  \<open>wire/span.go\<close> and the span half of \<open>wire/encode.go\<close>: the receipt itself. A span is
  parsed by \<open>readSpan\<close>/\<open>ParseSpan\<close>, minted by \<open>EncodeSpanTBS\<close>/\<open>BuildSpan\<close> and checked
  against its own executor key by \<open>Span_VerifySig\<close>.

  \<open>ParseSpan\<close> is interpreted as an \<open>exact_codec\<close> over the layout \<open>enc_span\<close>: from that
  come the round trip, canonicity, totality on prefixes and the trailing-bytes check.
\<close>

subsection \<open>Layout constants, the parsed span and the fields to be signed\<close>

abbreviation LenPubkey :: nat where "LenPubkey \<equiv> 32"
abbreviation LenSpanID :: nat where "LenSpanID \<equiv> 16"
abbreviation LenTraceID :: nat where "LenTraceID \<equiv> 16"
abbreviation MaxResource :: nat where "MaxResource \<equiv> 256"
abbreviation LenOrigin :: nat where "LenOrigin \<equiv> 32"
abbreviation LenDigest :: nat where "LenDigest \<equiv> 32"
abbreviation LenSig :: nat where "LenSig \<equiv> 64"
abbreviation VolatilityVolatile :: byte where "VolatilityVolatile \<equiv> 1"
abbreviation VolatilityStable :: byte where "VolatilityStable \<equiv> 2"

record Span =
  span_Version :: byte
  span_SpanID :: bytes
  span_TraceID :: bytes
  span_ResourceID :: bytes
  span_MethodID :: byte
  span_Volatility :: byte
  span_Origin :: bytes
  span_ObservedAt :: uint64
  span_Digest :: bytes
  span_Executor :: bytes
  span_TBS :: bytes
  span_Sig :: bytes

text \<open>
  The array-typed fields of \<open>SpanFields\<close> have their length by type; \<open>span_arrays\<close>
  states it.
\<close>

record SpanFields =
  sf_Version :: byte
  sf_SpanID :: bytes
  sf_TraceID :: bytes
  sf_ResourceID :: bytes
  sf_MethodID :: byte
  sf_Volatility :: byte
  sf_Origin :: bytes
  sf_ObservedAt :: uint64
  sf_Digest :: bytes
  sf_Executor :: bytes

definition span_arrays :: "SpanFields \<Rightarrow> bool" where
  "span_arrays f \<longleftrightarrow>
     length (sf_SpanID f) = LenSpanID \<and> length (sf_TraceID f) = LenTraceID \<and>
     length (sf_Origin f) = LenOrigin \<and> length (sf_Digest f) = LenDigest \<and>
     length (sf_Executor f) = LenPubkey"

subsection \<open>Parsing\<close>

definition readSpan :: "cursor \<Rightarrow> (Span \<times> cursor) result" where
  "readSpan c =
     (let start = pos c in
      rbind (u8 c) (\<lambda>(version, c).
      rbind (take_c LenSpanID c) (\<lambda>(spanID, c).
      rbind (take_c LenTraceID c) (\<lambda>(traceID, c).
      rbind (field16 MaxResource c) (\<lambda>(resourceID, c).
      rbind (u8 c) (\<lambda>(methodID, c).
      rbind (u8 c) (\<lambda>(volatility, c).
      rbind (take_c LenOrigin c) (\<lambda>(origin, c).
      rbind (u64be c) (\<lambda>(observedAt, c).
      rbind (take_c LenDigest c) (\<lambda>(digest, c).
      rbind (take_c LenPubkey c) (\<lambda>(executor, c).
      rbind (go_slice (buf c) start (pos c)) (\<lambda>tbs.
      rbind (take_c LenSig c) (\<lambda>(sig, c).
      Inr (\<lparr>span_Version = version, span_SpanID = spanID, span_TraceID = traceID,
            span_ResourceID = resourceID, span_MethodID = methodID,
            span_Volatility = volatility, span_Origin = origin, span_ObservedAt = observedAt,
            span_Digest = digest, span_Executor = executor, span_TBS = tbs, span_Sig = sig\<rparr>,
           c))))))))))))))"

definition ParseSpan :: "bytes \<Rightarrow> Span result" where
  "ParseSpan b = rbind (readSpan (start_cursor b)) (\<lambda>(s, c).
     if pos c \<noteq> length b then Inl ErrTrailingBytes else Inr s)"

definition Span_VerifySig :: "crypto \<Rightarrow> Span \<Rightarrow> unit result" where
  "Span_VerifySig cr s = VerifySigned cr DomainSpan (span_TBS s) (span_Sig s) (span_Executor s)"

subsection \<open>Minting\<close>

definition EncodeSpanTBS :: "SpanFields \<Rightarrow> bytes result" where
  "EncodeSpanTBS f =
     (if length (sf_ResourceID f) > MaxResource then Inl ErrFieldBounds
      else Inr ([sf_Version f] @ sf_SpanID f @ sf_TraceID f
                @ be16 (of_nat (length (sf_ResourceID f))) @ sf_ResourceID f
                @ [sf_MethodID f, sf_Volatility f] @ sf_Origin f @ be64 (sf_ObservedAt f)
                @ sf_Digest f @ sf_Executor f))"

definition BuildSpan :: "crypto \<Rightarrow> SpanFields \<Rightarrow> bytes \<Rightarrow> bytes result" where
  "BuildSpan cr f priv =
     rbind (EncodeSpanTBS f) (\<lambda>tbs.
     rbind (SignTagged cr DomainSpan tbs priv) (\<lambda>sig. Inr (tbs @ sig)))"

subsection \<open>The layout a span is read from\<close>

definition span_fields :: "Span \<Rightarrow> SpanFields" where
  "span_fields s =
     \<lparr>sf_Version = span_Version s, sf_SpanID = span_SpanID s, sf_TraceID = span_TraceID s,
      sf_ResourceID = span_ResourceID s, sf_MethodID = span_MethodID s,
      sf_Volatility = span_Volatility s, sf_Origin = span_Origin s,
      sf_ObservedAt = span_ObservedAt s, sf_Digest = span_Digest s,
      sf_Executor = span_Executor s\<rparr>"

definition span_of :: "SpanFields \<Rightarrow> bytes \<Rightarrow> bytes \<Rightarrow> Span" where
  "span_of f tbs sig =
     \<lparr>span_Version = sf_Version f, span_SpanID = sf_SpanID f, span_TraceID = sf_TraceID f,
      span_ResourceID = sf_ResourceID f, span_MethodID = sf_MethodID f,
      span_Volatility = sf_Volatility f, span_Origin = sf_Origin f,
      span_ObservedAt = sf_ObservedAt f, span_Digest = sf_Digest f,
      span_Executor = sf_Executor f, span_TBS = tbs, span_Sig = sig\<rparr>"

definition span_layout :: "Span \<Rightarrow> bytes" where
  "span_layout s =
     [span_Version s] @ span_SpanID s @ span_TraceID s @ enc_field16 (span_ResourceID s)
     @ [span_MethodID s] @ [span_Volatility s] @ span_Origin s @ be64 (span_ObservedAt s)
     @ span_Digest s @ span_Executor s"

definition enc_span :: "Span \<Rightarrow> bytes" where
  "enc_span s = span_layout s @ span_Sig s"

definition span_ok :: "Span \<Rightarrow> bool" where
  "span_ok s \<longleftrightarrow>
     length (span_SpanID s) = LenSpanID \<and> length (span_TraceID s) = LenTraceID \<and>
     length (span_ResourceID s) \<le> MaxResource \<and> length (span_Origin s) = LenOrigin \<and>
     length (span_Digest s) = LenDigest \<and> length (span_Executor s) = LenPubkey \<and>
     span_TBS s = span_layout s \<and> length (span_Sig s) = LenSig"

subsection \<open>Parsing accepts exactly the layout\<close>

lemma readSpan_sound:
  assumes "readSpan (cur_at pre r) = Inr (s, c)"
  shows "span_ok s \<and> (\<exists>ys. r = enc_span s @ ys \<and> c = cur_at (pre @ enc_span s) ys)"
  using assms
  by (auto simp: readSpan_def Let_def rbind_eq_Inr cursor_iff span_ok_def enc_span_def
      span_layout_def subslice_def take_Cons')

lemma readSpan_complete:
  assumes "span_ok s"
  shows "readSpan (cur_at pre (enc_span s @ ys)) = Inr (s, cur_at (pre @ enc_span s) ys)"
  using assms
  by (simp add: readSpan_def Let_def cursor_enc span_ok_def enc_span_def span_layout_def subslice_def take_Cons')

lemma readSpan_trunc:
  assumes "span_ok s" and "strict_prefix r (enc_span s)"
  shows "readSpan (cur_at pre r) = Inl ErrTruncated"
  using assms unfolding readSpan_def Let_def enc_span_def span_layout_def append_assoc
  by (elim cursor_trunc) (auto simp: span_ok_def intro: takec.rd_trunc_last)

interpretation spanc: exact_codec readSpan enc_span span_ok ParseSpan
  by (rule exact_codecI, rule codecI)
    (simp_all add: readSpan_sound readSpan_complete readSpan_trunc ParseSpan_def parse_exact_def)

interpretation spans: safe_reader readSpan
proof
  show "no_panic (readSpan c)" for c
    unfolding readSpan_def Let_def by (intro safe_reads no_panic_if) (simp_all add: is_panic_def)
qed (auto simp: readSpan_def Let_def rbind_eq_Inr dest!: safe_advances split: if_splits)

lemma ParseSpan_no_panic [panic_free]: "no_panic (ParseSpan b)"
  using spans.parse_exact_no_panic [of b] by (simp add: ParseSpan_def parse_exact_def)

subsection \<open>Minting produces the layout\<close>

lemma EncodeSpanTBS_layout:
  "EncodeSpanTBS f = (if length (sf_ResourceID f) > MaxResource then Inl ErrFieldBounds
                      else Inr (span_layout (span_of f tbs sig)))"
  by (simp add: EncodeSpanTBS_def span_layout_def span_of_def enc_field16_def)

lemma span_of_fields: "span_of (span_fields s) (span_TBS s) (span_Sig s) = s"
  by (simp add: span_of_def span_fields_def)

lemma span_ok_span_of:
  assumes "span_arrays f" and "EncodeSpanTBS f = Inr tbs" and "length sig = LenSig"
  shows "span_ok (span_of f tbs sig) \<and> enc_span (span_of f tbs sig) = tbs @ sig"
  using assms EncodeSpanTBS_layout [of f tbs sig]
  by (auto simp: span_ok_def span_arrays_def enc_span_def span_of_def span_layout_def split: if_splits)

lemma BuildSpan_parses:
  assumes "ed25519_laws cr" and "span_arrays f" and "BuildSpan cr f priv = Inr w"
  shows "\<exists>tbs sig. EncodeSpanTBS f = Inr tbs \<and> SignTagged cr DomainSpan tbs priv = Inr sig \<and>
           w = tbs @ sig \<and> length sig = LenSig \<and> ParseSpan w = Inr (span_of f tbs sig)"
proof -
  from assms(3) obtain tbs sig where
    tbs: "EncodeSpanTBS f = Inr tbs" and sig: "SignTagged cr DomainSpan tbs priv = Inr sig"
    and w: "w = tbs @ sig"
    by (auto simp: BuildSpan_def rbind_eq_Inr)
  have len: "length sig = LenSig"
    using sig assms(1) by (auto simp: SignTagged_def ed25519_Sign_def ed25519_lawsD split: if_splits)
  show ?thesis
    using span_ok_span_of [OF assms(2) tbs len] tbs sig w len by (auto simp: spanc.parse_iff)
qed

lemma BuildSpan_verifies:
  assumes "ed25519_laws cr" and "span_arrays f" and "NewKeyFromSeed cr seed = Inr priv"
    and "sf_Executor f = PublicOf priv" and "BuildSpan cr f priv = Inr w"
  shows "\<exists>s. ParseSpan w = Inr s \<and> span_fields s = f \<and> Span_VerifySig cr s = Inr ()"
proof -
  have seed: "length seed = SeedSize" and priv: "priv = seed @ ed_pub cr seed"
    using assms(3) by (auto simp: NewKeyFromSeed_def split: if_splits)
  from BuildSpan_parses [OF assms(1,2,5)] obtain tbs sig where
    sig: "SignTagged cr DomainSpan tbs priv = Inr sig" and p: "ParseSpan w = Inr (span_of f tbs sig)" by blast
  have "VerifySigned cr DomainSpan tbs sig (ed_pub cr seed) = Inr ()"
    using SignTaggedSeed_verifies [OF assms(1) seed, of DomainSpan tbs] assms(3) sig
    by (auto simp: SignTaggedSeed_def)
  then show ?thesis
    using p assms(4) seed priv
    by (intro exI [of _ "span_of f tbs sig"]) (simp add: span_of_def span_fields_def Span_VerifySig_def PublicOf_def)
qed

subsection \<open>Properties\<close>

text \<open>
  C7: The span parser is the exact inverse of the span encoder. A byte string parses to a
  span exactly when it is the encoder's to-be-signed region of that span's fields
  followed by a 64-byte signature, and the span's TBS slice is that region. So no two
  byte strings parse to the same span, and nothing but an encoding parses.
\<close>

theorem ParseSpan_inverts_encoder:
  "ParseSpan b = Inr s \<longleftrightarrow>
     span_arrays (span_fields s) \<and> EncodeSpanTBS (span_fields s) = Inr (span_TBS s) \<and>
     length (span_Sig s) = LenSig \<and> b = span_TBS s @ span_Sig s"
  unfolding spanc.parse_iff EncodeSpanTBS_layout [of _ "span_TBS s" "span_Sig s"] span_of_fields
  by (auto simp: span_ok_def span_arrays_def enc_span_def span_fields_def)

text \<open>
  Every receipt the encoder signs is one the verifier accepts. With a key made from a
  32-byte seed, fields that name that key as the executor and a resource id of at most
  256 bytes, \<open>BuildSpan\<close> succeeds, its output parses back to exactly those fields, and
  the parsed span's signature verifies under its own executor key.
\<close>

lemma BuildSpan_roundtrip:
  assumes "ed25519_laws cr" and "span_arrays f" and "length (sf_ResourceID f) \<le> MaxResource"
    and "NewKeyFromSeed cr seed = Inr priv" and "sf_Executor f = PublicOf priv"
  shows "\<exists>w s. BuildSpan cr f priv = Inr w \<and> ParseSpan w = Inr s \<and> span_fields s = f \<and>
               Span_VerifySig cr s = Inr ()"
proof -
  have "length priv = PrivateKeySize"
    using assms(1,4) by (auto simp: NewKeyFromSeed_def ed25519_lawsD split: if_splits)
  then obtain w where w: "BuildSpan cr f priv = Inr w"
    using assms(3) by (simp add: BuildSpan_def EncodeSpanTBS_def SignTagged_def ed25519_Sign_def)
  from BuildSpan_verifies [OF assms(1,2,4,5) w] w show ?thesis by blast
qed

definition demo_span :: SpanFields where
  "demo_span =
     \<lparr>sf_Version = 1, sf_SpanID = replicate 16 1, sf_TraceID = replicate 16 2,
      sf_ResourceID = str_bytes ''bol:5d5d5d5d5d5d5d5d/job/42'', sf_MethodID = 1, sf_Volatility = 1,
      sf_Origin = key32 0, sf_ObservedAt = 1700000000000, sf_Digest = key32 3,
      sf_Executor = key32 0x5d\<rparr>"

definition demo_parsed_span :: Span where
  "demo_parsed_span =
     (let tbs = span_layout (span_of demo_span [] [])
      in span_of demo_span tbs (ed_sign ref_crypto (key32 7 @ key32 0x5d) (DomainSpan # tbs)))"

lemma demo_parsed_span_ok: "span_ok demo_parsed_span"
  by (simp add: demo_parsed_span_def demo_span_def span_ok_def span_of_def span_layout_def str_bytes_def
      Let_def ed25519_lawsD ref_laws)

end
