(* ===== verification/Wire_Envelope.thy ===== *)
theory Wire_Envelope
  imports Wire_Span
begin

text \<open>
  \<open>wire/envelope.go\<close>: the signed carrier of channel messages, the Intent body and the
  Refusal. Each parser is interpreted as an \<open>exact_codec\<close>; the builders
  \<open>BuildSignedEnvelope\<close> and \<open>EncodeIntentBody\<close> are shown to produce those layouts.
\<close>

subsection \<open>Constants\<close>

abbreviation LenChannelID :: nat where "LenChannelID \<equiv> 32"
abbreviation LenParent :: nat where "LenParent \<equiv> 32"
abbreviation LenIntentID :: nat where "LenIntentID \<equiv> 16"
abbreviation LenGrantID :: nat where "LenGrantID \<equiv> 16"
abbreviation MaxParents :: nat where "MaxParents \<equiv> 4"
abbreviation MaxAction :: nat where "MaxAction \<equiv> 262144"
abbreviation MaxRationale :: nat where "MaxRationale \<equiv> 4096"
abbreviation MaxNote :: nat where "MaxNote \<equiv> 1024"
abbreviation MaxBody :: nat where "MaxBody \<equiv> 1048576 - 512"

abbreviation BodyUtterance :: byte where "BodyUtterance \<equiv> 1"
abbreviation BodyIntent :: byte where "BodyIntent \<equiv> 2"
abbreviation BodyGrant :: byte where "BodyGrant \<equiv> 3"
abbreviation BodyEffect :: byte where "BodyEffect \<equiv> 4"
abbreviation BodyControl :: byte where "BodyControl \<equiv> 5"
abbreviation BodyRefusal :: byte where "BodyRefusal \<equiv> 6"

subsection \<open>The envelope\<close>

record Envelope =
  env_Version :: byte
  env_ChannelID :: bytes
  env_Sender :: bytes
  env_Seq :: uint64
  env_ParentCount :: byte
  env_Parents :: bytes
  env_Ts :: uint64
  env_BodyType :: byte
  env_Body :: bytes
  env_TBS :: bytes
  env_Sig :: bytes

definition readEnvelope :: "cursor \<Rightarrow> (Envelope \<times> cursor) result" where
  "readEnvelope c =
     (let start = pos c in
      rbind (u8 c) (\<lambda>(version, c).
      rbind (take_c LenChannelID c) (\<lambda>(channelID, c).
      rbind (take_c LenPubkey c) (\<lambda>(sender, c).
      rbind (u64be c) (\<lambda>(seq, c).
      rbind (u8 c) (\<lambda>(parentCount, c).
      if unat parentCount > MaxParents then Inl ErrOversize else
      rbind (take_c (unat parentCount * LenParent) c) (\<lambda>(parents, c).
      rbind (u64be c) (\<lambda>(ts, c).
      rbind (u8 c) (\<lambda>(bodyType, c).
      rbind (u32be c) (\<lambda>(bodyLen, c).
      if unat bodyLen > MaxBody then Inl ErrOversize else
      rbind (take_c (unat bodyLen) c) (\<lambda>(body, c).
      rbind (go_slice (buf c) start (pos c)) (\<lambda>tbs.
      rbind (take_c LenSig c) (\<lambda>(sig, c).
      Inr (\<lparr>env_Version = version, env_ChannelID = channelID, env_Sender = sender,
            env_Seq = seq, env_ParentCount = parentCount, env_Parents = parents, env_Ts = ts,
            env_BodyType = bodyType, env_Body = body, env_TBS = tbs, env_Sig = sig\<rparr>,
           c))))))))))))))"

definition ParseEnvelope :: "bytes \<Rightarrow> Envelope result" where
  "ParseEnvelope b = rbind (readEnvelope (start_cursor b)) (\<lambda>(e, c).
     if pos c \<noteq> length b then Inl ErrTrailingBytes else Inr e)"

definition Envelope_VerifySig :: "crypto \<Rightarrow> Envelope \<Rightarrow> unit result" where
  "Envelope_VerifySig cr e = VerifySigned cr DomainEnvelope (env_TBS e) (env_Sig e) (env_Sender e)"

definition BuildSignedEnvelope ::
    "crypto \<Rightarrow> byte \<Rightarrow> bytes \<Rightarrow> bytes \<Rightarrow> uint64 \<Rightarrow> bytes \<Rightarrow> byte \<Rightarrow> uint64 \<Rightarrow> byte \<Rightarrow> bytes
     \<Rightarrow> bytes \<Rightarrow> bytes result" where
  "BuildSignedEnvelope cr version channelID sender seq parents parentCount ts bodyType body sigSeed =
     (if length channelID \<noteq> LenChannelID \<or> length sender \<noteq> LenPubkey \<or>
         unat parentCount * LenParent \<noteq> length parents
      then Inl ErrFieldBounds
      else if length body > MaxBody then Inl ErrOversize
      else
        let out = [version] @ channelID @ sender @ be64 seq @ [parentCount] @ parents
                  @ be64 ts @ [bodyType] @ be32 (of_nat (length body)) @ body
        in rbind (SignTaggedSeed cr DomainEnvelope out sigSeed) (\<lambda>sig. Inr (out @ sig)))"

subsection \<open>The Intent body\<close>

record Intent =
  intent_IntentID :: bytes
  intent_ResourceID :: bytes
  intent_Action :: bytes
  intent_Rationale :: bytes

definition readIntent :: "cursor \<Rightarrow> (Intent \<times> cursor) result" where
  "readIntent c =
     rbind (take_c LenIntentID c) (\<lambda>(intentID, c).
     rbind (field16 MaxResource c) (\<lambda>(resourceID, c).
     rbind (field32 MaxAction c) (\<lambda>(action, c).
     rbind (field16 MaxRationale c) (\<lambda>(rationale, c).
     Inr (\<lparr>intent_IntentID = intentID, intent_ResourceID = resourceID,
           intent_Action = action, intent_Rationale = rationale\<rparr>, c)))))"

definition ParseIntent :: "bytes \<Rightarrow> Intent result" where
  "ParseIntent b = rbind (readIntent (start_cursor b)) (\<lambda>(it, c).
     if pos c \<noteq> length b then Inl ErrTrailingBytes else Inr it)"

definition EncodeIntentBody :: "Intent \<Rightarrow> bytes result" where
  "EncodeIntentBody it =
     (if length (intent_IntentID it) \<noteq> LenIntentID \<or> length (intent_ResourceID it) > MaxResource \<or>
         length (intent_Action it) > MaxAction \<or> length (intent_Rationale it) > MaxRationale
      then Inl ErrFieldBounds
      else Inr (intent_IntentID it
                @ be16 (of_nat (length (intent_ResourceID it))) @ intent_ResourceID it
                @ be32 (of_nat (length (intent_Action it))) @ intent_Action it
                @ be16 (of_nat (length (intent_Rationale it))) @ intent_Rationale it))"

subsection \<open>The Refusal\<close>

record Refusal =
  refusal_IntentID :: bytes
  refusal_Note :: bytes
  refusal_TBS :: bytes
  refusal_Sig :: bytes

definition readRefusal :: "cursor \<Rightarrow> (Refusal \<times> cursor) result" where
  "readRefusal c =
     (let start = pos c in
      rbind (take_c LenIntentID c) (\<lambda>(intentID, c).
      rbind (field16 MaxNote c) (\<lambda>(note, c).
      rbind (go_slice (buf c) start (pos c)) (\<lambda>tbs.
      rbind (take_c LenSig c) (\<lambda>(sig, c).
      Inr (\<lparr>refusal_IntentID = intentID, refusal_Note = note, refusal_TBS = tbs,
            refusal_Sig = sig\<rparr>, c))))))"

definition ParseRefusal :: "bytes \<Rightarrow> Refusal result" where
  "ParseRefusal b = rbind (readRefusal (start_cursor b)) (\<lambda>(rf, c).
     if pos c \<noteq> length b then Inl ErrTrailingBytes else Inr rf)"

definition VerifySigAgainst :: "crypto \<Rightarrow> Refusal \<Rightarrow> bytes \<Rightarrow> unit result" where
  "VerifySigAgainst cr rf sender =
     VerifySigned cr DomainRefusal (refusal_TBS rf) (refusal_Sig rf) sender"

subsection \<open>Layouts\<close>

definition env_layout :: "Envelope \<Rightarrow> bytes" where
  "env_layout e =
     [env_Version e] @ env_ChannelID e @ env_Sender e @ be64 (env_Seq e) @ [env_ParentCount e]
     @ env_Parents e @ be64 (env_Ts e) @ [env_BodyType e] @ be32 (of_nat (length (env_Body e)))
     @ env_Body e"

definition enc_env :: "Envelope \<Rightarrow> bytes" where
  "enc_env e = env_layout e @ env_Sig e"

definition env_ok :: "Envelope \<Rightarrow> bool" where
  "env_ok e \<longleftrightarrow>
     length (env_ChannelID e) = LenChannelID \<and> length (env_Sender e) = LenPubkey \<and>
     unat (env_ParentCount e) \<le> MaxParents \<and>
     length (env_Parents e) = unat (env_ParentCount e) * LenParent \<and>
     length (env_Body e) \<le> MaxBody \<and> env_TBS e = env_layout e \<and> length (env_Sig e) = LenSig"

definition enc_intent :: "Intent \<Rightarrow> bytes" where
  "enc_intent it =
     intent_IntentID it @ enc_field16 (intent_ResourceID it) @ enc_field32 (intent_Action it)
     @ enc_field16 (intent_Rationale it)"

definition intent_ok :: "Intent \<Rightarrow> bool" where
  "intent_ok it \<longleftrightarrow>
     length (intent_IntentID it) = LenIntentID \<and> length (intent_ResourceID it) \<le> MaxResource \<and>
     length (intent_Action it) \<le> MaxAction \<and> length (intent_Rationale it) \<le> MaxRationale"

definition enc_refusal :: "Refusal \<Rightarrow> bytes" where
  "enc_refusal rf = refusal_IntentID rf @ enc_field16 (refusal_Note rf) @ refusal_Sig rf"

definition refusal_ok :: "Refusal \<Rightarrow> bool" where
  "refusal_ok rf \<longleftrightarrow>
     length (refusal_IntentID rf) = LenIntentID \<and> length (refusal_Note rf) \<le> MaxNote \<and>
     refusal_TBS rf = refusal_IntentID rf @ enc_field16 (refusal_Note rf) \<and>
     length (refusal_Sig rf) = LenSig"

subsection \<open>Parsing accepts exactly the layouts\<close>

lemma readEnvelope_sound:
  assumes "readEnvelope (cur_at pre r) = Inr (e, c)"
  shows "env_ok e \<and> (\<exists>ys. r = enc_env e @ ys \<and> c = cur_at (pre @ enc_env e) ys)"
  using assms
  by (auto simp: readEnvelope_def Let_def rbind_eq_Inr cursor_iff env_ok_def enc_env_def
      env_layout_def subslice_def take_Cons' split: if_splits)

lemma readEnvelope_complete:
  assumes "env_ok e"
  shows "readEnvelope (cur_at pre (enc_env e @ ys)) = Inr (e, cur_at (pre @ enc_env e) ys)"
  using assms
  by (simp add: readEnvelope_def Let_def cursor_enc env_ok_def enc_env_def env_layout_def
      subslice_def take_Cons' unat_of_nat_lt32)

lemma readEnvelope_trunc:
  assumes e: "env_ok e" and r: "strict_prefix r (enc_env e)"
  shows "readEnvelope (cur_at pre r) = Inl ErrTruncated"
proof -
  have "strict_prefix r (enc_env e) \<Longrightarrow> readEnvelope (cur_at pre r) = Inl ErrTruncated"
    unfolding readEnvelope_def Let_def enc_env_def env_layout_def append_assoc
    by ((elim cursor_trunc | rule guard_trunc)+)
      (use e in \<open>auto simp: env_ok_def unat_of_nat_lt32 intro: takec.rd_trunc_last\<close>)
  with r show ?thesis by blast
qed

interpretation envs: safe_reader readEnvelope
proof
  show "no_panic (readEnvelope c)" for c
    unfolding readEnvelope_def Let_def by (intro safe_reads no_panic_if) (simp_all add: is_panic_def)
qed (auto simp: readEnvelope_def Let_def rbind_eq_Inr dest!: safe_advances split: if_splits)

lemma ParseEnvelope_no_panic [panic_free]: "no_panic (ParseEnvelope b)"
  using envs.parse_exact_no_panic [of b] by (simp add: ParseEnvelope_def parse_exact_def)

interpretation envc: exact_codec readEnvelope enc_env env_ok ParseEnvelope
  by (rule exact_codecI, rule codecI)
    (simp_all add: readEnvelope_sound readEnvelope_complete readEnvelope_trunc ParseEnvelope_def
      parse_exact_def)

lemma readIntent_sound:
  assumes "readIntent (cur_at pre r) = Inr (it, c)"
  shows "intent_ok it \<and> (\<exists>ys. r = enc_intent it @ ys \<and> c = cur_at (pre @ enc_intent it) ys)"
  using assms
  by (auto simp: readIntent_def rbind_eq_Inr cursor_iff intent_ok_def enc_intent_def)

lemma readIntent_complete:
  assumes "intent_ok it"
  shows "readIntent (cur_at pre (enc_intent it @ ys)) = Inr (it, cur_at (pre @ enc_intent it) ys)"
  using assms by (simp add: readIntent_def cursor_enc intent_ok_def enc_intent_def)

lemma readIntent_trunc:
  assumes "intent_ok it" and "strict_prefix r (enc_intent it)"
  shows "readIntent (cur_at pre r) = Inl ErrTruncated"
  using assms unfolding readIntent_def enc_intent_def
  by (elim cursor_trunc) (auto simp: intent_ok_def intro: field16c.rd_trunc_last)

interpretation intents: safe_reader readIntent
proof
  show "no_panic (readIntent c)" for c
    unfolding readIntent_def Let_def by (intro safe_reads no_panic_if) (simp_all add: is_panic_def)
qed (auto simp: readIntent_def Let_def rbind_eq_Inr dest!: safe_advances split: if_splits)

lemma ParseIntent_no_panic [panic_free]: "no_panic (ParseIntent b)"
  using intents.parse_exact_no_panic [of b] by (simp add: ParseIntent_def parse_exact_def)

interpretation intentc: exact_codec readIntent enc_intent intent_ok ParseIntent
  by (rule exact_codecI, rule codecI)
    (simp_all add: readIntent_sound readIntent_complete readIntent_trunc ParseIntent_def parse_exact_def)

lemma readRefusal_sound:
  assumes "readRefusal (cur_at pre r) = Inr (rf, c)"
  shows "refusal_ok rf \<and> (\<exists>ys. r = enc_refusal rf @ ys \<and> c = cur_at (pre @ enc_refusal rf) ys)"
  using assms
  by (auto simp: readRefusal_def Let_def rbind_eq_Inr cursor_iff refusal_ok_def enc_refusal_def subslice_def)

lemma readRefusal_complete:
  assumes "refusal_ok rf"
  shows "readRefusal (cur_at pre (enc_refusal rf @ ys)) = Inr (rf, cur_at (pre @ enc_refusal rf) ys)"
  using assms
  by (simp add: readRefusal_def Let_def cursor_enc refusal_ok_def enc_refusal_def subslice_def)

lemma readRefusal_trunc:
  assumes "refusal_ok rf" and "strict_prefix r (enc_refusal rf)"
  shows "readRefusal (cur_at pre r) = Inl ErrTruncated"
  using assms unfolding readRefusal_def Let_def enc_refusal_def
  by (elim cursor_trunc) (auto simp: refusal_ok_def intro: takec.rd_trunc_last)

interpretation refusals: safe_reader readRefusal
proof
  show "no_panic (readRefusal c)" for c
    unfolding readRefusal_def Let_def by (intro safe_reads no_panic_if) (simp_all add: is_panic_def)
qed (auto simp: readRefusal_def Let_def rbind_eq_Inr dest!: safe_advances split: if_splits)

lemma ParseRefusal_no_panic [panic_free]: "no_panic (ParseRefusal b)"
  using refusals.parse_exact_no_panic [of b] by (simp add: ParseRefusal_def parse_exact_def)

interpretation refusalc: exact_codec readRefusal enc_refusal refusal_ok ParseRefusal
  by (rule exact_codecI, rule codecI)
    (simp_all add: readRefusal_sound readRefusal_complete readRefusal_trunc ParseRefusal_def
      parse_exact_def)

subsection \<open>Building produces the layouts\<close>

lemma EncodeIntentBody_layout:
  "EncodeIntentBody it = (if intent_ok it then Inr (enc_intent it) else Inl ErrFieldBounds)"
  by (auto simp: EncodeIntentBody_def intent_ok_def enc_intent_def enc_field16_def enc_field32_def)

lemma intent_fits_body: "intent_ok it \<Longrightarrow> length (enc_intent it) \<le> MaxBody"
  by (simp add: intent_ok_def enc_intent_def enc_field16_def enc_field32_def)

definition env_of ::
    "byte \<Rightarrow> bytes \<Rightarrow> bytes \<Rightarrow> uint64 \<Rightarrow> bytes \<Rightarrow> byte \<Rightarrow> uint64 \<Rightarrow> byte \<Rightarrow> bytes \<Rightarrow> bytes \<Rightarrow> bytes
     \<Rightarrow> Envelope" where
  "env_of version channelID sender seq parents parentCount ts bodyType body tbs sig =
     \<lparr>env_Version = version, env_ChannelID = channelID, env_Sender = sender, env_Seq = seq,
      env_ParentCount = parentCount, env_Parents = parents, env_Ts = ts, env_BodyType = bodyType,
      env_Body = body, env_TBS = tbs, env_Sig = sig\<rparr>"

lemma BuildSignedEnvelope_split:
  assumes "ed25519_laws cr"
    and "BuildSignedEnvelope cr v ch sender seq parents n ts bt body seed = Inr w"
  obtains sig where "SignTaggedSeed cr DomainEnvelope
        (env_layout (env_of v ch sender seq parents n ts bt body [] [])) seed = Inr sig"
    and "length sig = LenSig"
    and "w = env_layout (env_of v ch sender seq parents n ts bt body [] []) @ sig"
    and "length ch = LenChannelID" "length sender = LenPubkey" "unat n * LenParent = length parents"
    and "length body \<le> MaxBody"
  using assms
  by (auto simp: BuildSignedEnvelope_def Let_def rbind_eq_Inr env_layout_def env_of_def
      SignTaggedSeed_def NewKeyFromSeed_def SignTagged_def ed25519_Sign_def ed25519_lawsD
      split: if_splits)

lemma env_of_ok:
  assumes "length ch = LenChannelID" "length sender = LenPubkey" "unat n * LenParent = length parents"
    and "length body \<le> MaxBody" "unat n \<le> MaxParents" "length sig = LenSig"
    and "tbs = env_layout (env_of v ch sender seq parents n ts bt body [] [])"
  shows "ParseEnvelope (tbs @ sig) = Inr (env_of v ch sender seq parents n ts bt body tbs sig)"
  using assms by (simp add: envc.parse_iff env_ok_def enc_env_def env_of_def env_layout_def)

lemma too_many_parents:
  assumes "length ch = LenChannelID" "length sender = LenPubkey" "\<not> unat n \<le> MaxParents"
  shows "ParseEnvelope (env_layout (env_of v ch sender seq parents n ts bt body [] []) @ sig) = Inl ErrOversize"
  using assms
  by (simp add: ParseEnvelope_def readEnvelope_def start_cursor_at env_layout_def env_of_def cursor_enc Let_def)

subsection \<open>Properties\<close>

text \<open>
  C31: Built envelopes parse back, except past the parent limit. Whatever
  \<open>BuildSignedEnvelope\<close> returns parses to the very fields it was given, with a signature
  that verifies when the sender is the key of the signing seed, provided it was given at
  most four parents. It does not check that bound: with more parents it returns bytes
  that \<open>ParseEnvelope\<close> refuses as oversize.
\<close>

theorem BuildSignedEnvelope_parses:
  assumes "ed25519_laws cr"
    and "BuildSignedEnvelope cr v ch sender seq parents n ts bt body seed = Inr w"
  shows "if unat n \<le> MaxParents
         then \<exists>tbs sig. ParseEnvelope w = Inr (env_of v ch sender seq parents n ts bt body tbs sig) \<and>
                (sender = ed_pub cr seed \<longrightarrow>
                 Envelope_VerifySig cr (env_of v ch sender seq parents n ts bt body tbs sig) = Inr ())
         else ParseEnvelope w = Inl ErrOversize"
proof -
  let ?tbs = "env_layout (env_of v ch sender seq parents n ts bt body [] [])"
  from BuildSignedEnvelope_split [OF assms] obtain sig where
    sig: "SignTaggedSeed cr DomainEnvelope ?tbs seed = Inr sig" "length sig = LenSig" and w: "w = ?tbs @ sig"
    and len: "length ch = LenChannelID" "length sender = LenPubkey" "unat n * LenParent = length parents"
      "length body \<le> MaxBody" .
  have seed: "length seed = SeedSize"
    using sig(1) by (auto simp: SignTaggedSeed_def NewKeyFromSeed_def rbind_eq_Inr split: if_splits)
  have "VerifySigned cr DomainEnvelope ?tbs sig (ed_pub cr seed) = Inr ()"
    using SignTaggedSeed_verifies [OF assms(1) seed, of DomainEnvelope ?tbs] sig(1) by auto
  then have "sender = ed_pub cr seed \<longrightarrow>
      Envelope_VerifySig cr (env_of v ch sender seq parents n ts bt body ?tbs sig) = Inr ()"
    by (auto simp: Envelope_VerifySig_def env_of_def)
  then show ?thesis
    using env_of_ok [OF len _ sig(2) refl, of v seq ts bt] too_many_parents [OF len(1,2)] w by auto
qed

theorem BuildSignedEnvelope_parses_witness:
  "(\<exists>w tbs sig. BuildSignedEnvelope ref_crypto 1 (key32 1) (key32 0x5d) 5 [] 0 9 BodyIntent [1, 2] (key32 7) = Inr w \<and>
     ParseEnvelope w = Inr (env_of 1 (key32 1) (key32 0x5d) 5 [] 0 9 BodyIntent [1, 2] tbs sig)) \<and>
   (\<exists>w. BuildSignedEnvelope ref_crypto 1 (key32 1) (key32 0x5d) 5 (replicate 160 0) 5 9 BodyIntent [1, 2] (key32 7) = Inr w \<and>
     ParseEnvelope w = Inl ErrOversize)"
proof -
  have b: "\<exists>w. BuildSignedEnvelope ref_crypto 1 (key32 1) (key32 0x5d) 5 (replicate (unat n * 32) 0) n 9 BodyIntent [1, 2] (key32 7)
             = Inr w" for n
    by (simp add: BuildSignedEnvelope_def Let_def SignTaggedSeed_def NewKeyFromSeed_def SignTagged_def ed25519_Sign_def)
  from b [of 0] b [of 5] show ?thesis using BuildSignedEnvelope_parses [OF ref_ed25519] by fastforce
qed

text \<open>
  The Intent encoder and parser are inverse to each other: a body parses to an intent
  exactly when encoding that intent succeeds with that body.
\<close>

lemma ParseIntent_inverts_encoder: "ParseIntent b = Inr it \<longleftrightarrow> EncodeIntentBody it = Inr b"
  by (auto simp: intentc.parse_iff EncodeIntentBody_layout)

text \<open>
  Every intent that can be encoded can be sent: its body always fits the envelope's
  body limit, so building the envelope around it succeeds, and the envelope's body parses
  back to the same intent, with the signing key as the sender.
\<close>

lemma intent_sent:
  assumes "ed25519_laws cr" and "length ch = LenChannelID" and "length seed = SeedSize"
    and "EncodeIntentBody it = Inr body"
  shows "\<exists>w e. BuildSignedEnvelope cr v ch (ed_pub cr seed) seq [] 0 ts BodyIntent body seed = Inr w \<and>
               ParseEnvelope w = Inr e \<and> Envelope_VerifySig cr e = Inr () \<and> env_BodyType e = BodyIntent \<and>
               env_Sender e = ed_pub cr seed \<and> ParseIntent (env_Body e) = Inr it"
proof -
  have it: "intent_ok it" "body = enc_intent it"
    using assms(4) by (auto simp: EncodeIntentBody_layout split: if_splits)
  let ?tbs = "env_layout (env_of v ch (ed_pub cr seed) seq [] 0 ts BodyIntent body [] [])"
  from SignTaggedSeed_verifies [OF assms(1,3)] obtain sig where
    sig: "SignTaggedSeed cr DomainEnvelope ?tbs seed = Inr sig"
      "VerifySigned cr DomainEnvelope ?tbs sig (ed_pub cr seed) = Inr ()" by blast
  have pub: "length (ed_pub cr seed) = LenPubkey" by (rule ed25519_lawsD(1) [OF assms(1,3)])
  have body: "length body \<le> MaxBody" using intent_fits_body it by simp
  have "BuildSignedEnvelope cr v ch (ed_pub cr seed) seq [] 0 ts BodyIntent body seed = Inr (?tbs @ sig)"
    using sig(1) assms(2) pub body by (simp add: BuildSignedEnvelope_def Let_def env_layout_def env_of_def)
  moreover have "length sig = LenSig" using sig(2) by (simp add: VerifySigned_ok_iff)
  then have "ParseEnvelope (?tbs @ sig) = Inr (env_of v ch (ed_pub cr seed) seq [] 0 ts BodyIntent body ?tbs sig)"
    using assms(2) pub body by (intro env_of_ok) simp_all
  ultimately show ?thesis
    using sig(2) it by (auto simp: env_of_def Envelope_VerifySig_def intentc.parse_iff)
qed

text \<open>
  The refusal parser accepts exactly the canonical layout, and a refusal checked
  against a sender is accepted exactly when its signature verifies in the refusal domain
  under that sender's 32-byte key.
\<close>

lemma ParseRefusal_iff:
  "(ParseRefusal b = Inr rf \<longleftrightarrow> refusal_ok rf \<and> b = enc_refusal rf) \<and>
   (ParseRefusal b = Inr rf \<longrightarrow>
      (VerifySigAgainst cr rf sender = Inr () \<longleftrightarrow>
       length sender = 32 \<and> ed_verify cr sender (DomainRefusal # refusal_TBS rf) (refusal_Sig rf)))"
  by (auto simp: refusalc.parse_iff VerifySigAgainst_def VerifySigned_ok_iff refusal_ok_def)

definition demo_refusal :: Refusal where
  "demo_refusal =
     \<lparr>refusal_IntentID = replicate 16 4, refusal_Note = [110, 111],
      refusal_TBS = replicate 16 4 @ enc_field16 [110, 111],
      refusal_Sig = ed_sign ref_crypto (key32 7 @ key32 0x5d)
        (DomainRefusal # replicate 16 4 @ enc_field16 [110, 111])\<rparr>"

end
