(* ===== verification/Wire_Grant.thy ===== *)
theory Wire_Grant
  imports Wire_Envelope
begin

text \<open>
  \<open>wire/grant.go\<close>: the grant, an approver's signed permission for one exact action.
  \<open>ParseGrant\<close> is interpreted as an \<open>exact_codec\<close> and \<open>EncodeGrantTBS\<close> shown to
  produce the region it reads.
\<close>

abbreviation LenActionDigest :: nat where "LenActionDigest \<equiv> 32"

record Grant =
  grant_Version :: byte
  grant_GrantID :: bytes
  grant_IntentID :: bytes
  grant_Approver :: bytes
  grant_Subject :: bytes
  grant_Executor :: bytes
  grant_ResourceID :: bytes
  grant_ActionDigest :: bytes
  grant_NotAfter :: uint64
  grant_TBS :: bytes
  grant_Sig :: bytes

definition readGrant :: "cursor \<Rightarrow> (Grant \<times> cursor) result" where
  "readGrant c =
     (let start = pos c in
      rbind (u8 c) (\<lambda>(version, c).
      rbind (take_c LenGrantID c) (\<lambda>(grantID, c).
      rbind (take_c LenIntentID c) (\<lambda>(intentID, c).
      rbind (take_c LenPubkey c) (\<lambda>(approver, c).
      rbind (take_c LenPubkey c) (\<lambda>(subject, c).
      rbind (take_c LenPubkey c) (\<lambda>(executor, c).
      rbind (field16 MaxResource c) (\<lambda>(resourceID, c).
      rbind (take_c LenActionDigest c) (\<lambda>(actionDigest, c).
      rbind (u64be c) (\<lambda>(notAfter, c).
      rbind (go_slice (buf c) start (pos c)) (\<lambda>tbs.
      rbind (take_c LenSig c) (\<lambda>(sig, c).
      Inr (\<lparr>grant_Version = version, grant_GrantID = grantID, grant_IntentID = intentID,
            grant_Approver = approver, grant_Subject = subject, grant_Executor = executor,
            grant_ResourceID = resourceID, grant_ActionDigest = actionDigest,
            grant_NotAfter = notAfter, grant_TBS = tbs, grant_Sig = sig\<rparr>,
           c)))))))))))))"

definition ParseGrant :: "bytes \<Rightarrow> Grant result" where
  "ParseGrant b = rbind (readGrant (start_cursor b)) (\<lambda>(g, c).
     if pos c \<noteq> length b then Inl ErrTrailingBytes else Inr g)"

record GrantFields =
  gf_Version :: byte
  gf_GrantID :: bytes
  gf_IntentID :: bytes
  gf_Approver :: bytes
  gf_Subject :: bytes
  gf_Executor :: bytes
  gf_ResourceID :: bytes
  gf_ActionDigest :: bytes
  gf_NotAfter :: uint64

definition grant_arrays :: "GrantFields \<Rightarrow> bool" where
  "grant_arrays f \<longleftrightarrow>
     length (gf_GrantID f) = LenGrantID \<and> length (gf_IntentID f) = LenIntentID \<and>
     length (gf_Approver f) = LenPubkey \<and> length (gf_Subject f) = LenPubkey \<and>
     length (gf_Executor f) = LenPubkey \<and> length (gf_ActionDigest f) = LenActionDigest"

definition EncodeGrantTBS :: "GrantFields \<Rightarrow> bytes result" where
  "EncodeGrantTBS f =
     (if length (gf_ResourceID f) > MaxResource then Inl ErrFieldBounds
      else Inr ([gf_Version f] @ gf_GrantID f @ gf_IntentID f @ gf_Approver f @ gf_Subject f
                @ gf_Executor f @ be16 (of_nat (length (gf_ResourceID f))) @ gf_ResourceID f
                @ gf_ActionDigest f @ be64 (gf_NotAfter f)))"

subsection \<open>The layout a grant is read from\<close>

definition grant_layout :: "Grant \<Rightarrow> bytes" where
  "grant_layout g =
     [grant_Version g] @ grant_GrantID g @ grant_IntentID g @ grant_Approver g @ grant_Subject g
     @ grant_Executor g @ enc_field16 (grant_ResourceID g) @ grant_ActionDigest g
     @ be64 (grant_NotAfter g)"

definition enc_grant :: "Grant \<Rightarrow> bytes" where
  "enc_grant g = grant_layout g @ grant_Sig g"

definition grant_ok :: "Grant \<Rightarrow> bool" where
  "grant_ok g \<longleftrightarrow>
     length (grant_GrantID g) = LenGrantID \<and> length (grant_IntentID g) = LenIntentID \<and>
     length (grant_Approver g) = LenPubkey \<and> length (grant_Subject g) = LenPubkey \<and>
     length (grant_Executor g) = LenPubkey \<and> length (grant_ResourceID g) \<le> MaxResource \<and>
     length (grant_ActionDigest g) = LenActionDigest \<and> grant_TBS g = grant_layout g \<and>
     length (grant_Sig g) = LenSig"

lemma readGrant_sound:
  assumes "readGrant (cur_at pre r) = Inr (g, c)"
  shows "grant_ok g \<and> (\<exists>ys. r = enc_grant g @ ys \<and> c = cur_at (pre @ enc_grant g) ys)"
  using assms
  by (auto simp: readGrant_def Let_def rbind_eq_Inr cursor_iff grant_ok_def enc_grant_def
      grant_layout_def subslice_def take_Cons')

lemma readGrant_complete:
  assumes "grant_ok g"
  shows "readGrant (cur_at pre (enc_grant g @ ys)) = Inr (g, cur_at (pre @ enc_grant g) ys)"
  using assms
  by (simp add: readGrant_def Let_def cursor_enc grant_ok_def enc_grant_def grant_layout_def
      subslice_def take_Cons')

lemma readGrant_trunc:
  assumes "grant_ok g" and "strict_prefix r (enc_grant g)"
  shows "readGrant (cur_at pre r) = Inl ErrTruncated"
  using assms unfolding readGrant_def Let_def enc_grant_def grant_layout_def append_assoc
  by (elim cursor_trunc) (auto simp: grant_ok_def intro: takec.rd_trunc_last)

interpretation grants: safe_reader readGrant
proof
  show "no_panic (readGrant c)" for c
    unfolding readGrant_def Let_def by (intro safe_reads no_panic_if) (simp_all add: is_panic_def)
qed (auto simp: readGrant_def Let_def rbind_eq_Inr dest!: safe_advances split: if_splits)

lemma ParseGrant_no_panic [panic_free]: "no_panic (ParseGrant b)"
  using grants.parse_exact_no_panic [of b] by (simp add: ParseGrant_def parse_exact_def)

interpretation grantc: exact_codec readGrant enc_grant grant_ok ParseGrant
  by (rule exact_codecI, rule codecI)
    (simp_all add: readGrant_sound readGrant_complete readGrant_trunc ParseGrant_def parse_exact_def)

definition grant_of :: "GrantFields \<Rightarrow> bytes \<Rightarrow> bytes \<Rightarrow> Grant" where
  "grant_of f tbs sig =
     \<lparr>grant_Version = gf_Version f, grant_GrantID = gf_GrantID f, grant_IntentID = gf_IntentID f,
      grant_Approver = gf_Approver f, grant_Subject = gf_Subject f, grant_Executor = gf_Executor f,
      grant_ResourceID = gf_ResourceID f, grant_ActionDigest = gf_ActionDigest f,
      grant_NotAfter = gf_NotAfter f, grant_TBS = tbs, grant_Sig = sig\<rparr>"

lemma grant_of_ok:
  assumes "grant_arrays f" and "EncodeGrantTBS f = Inr tbs" and "length sig = LenSig"
  shows "grant_ok (grant_of f tbs sig) \<and> enc_grant (grant_of f tbs sig) = tbs @ sig"
  using assms
  by (auto simp: grant_ok_def grant_arrays_def enc_grant_def grant_of_def grant_layout_def
      EncodeGrantTBS_def enc_field16_def split: if_splits)

definition grant_fields :: "Grant \<Rightarrow> GrantFields" where
  "grant_fields g =
     \<lparr>gf_Version = grant_Version g, gf_GrantID = grant_GrantID g, gf_IntentID = grant_IntentID g,
      gf_Approver = grant_Approver g, gf_Subject = grant_Subject g, gf_Executor = grant_Executor g,
      gf_ResourceID = grant_ResourceID g, gf_ActionDigest = grant_ActionDigest g,
      gf_NotAfter = grant_NotAfter g\<rparr>"

text \<open>
  C32: The grant parser is the exact inverse of the grant encoder: bytes parse to a grant
  exactly when they are the encoder's to-be-signed region of its fields followed by a
  64-byte signature.
\<close>

theorem ParseGrant_inverts_encoder:
  "ParseGrant b = Inr g \<longleftrightarrow>
     grant_arrays (grant_fields g) \<and> EncodeGrantTBS (grant_fields g) = Inr (grant_TBS g) \<and>
     length (grant_Sig g) = LenSig \<and> b = grant_TBS g @ grant_Sig g"
  by (auto simp: grantc.parse_iff grant_ok_def grant_arrays_def enc_grant_def grant_fields_def
      EncodeGrantTBS_def grant_layout_def enc_field16_def)

end
