(* ===== verification/Wire_Cert.thy ===== *)
theory Wire_Cert
  imports Wire_Span
begin

text \<open>
  \<open>wire/cert.go\<close> and the certificate half of \<open>wire/encode.go\<close>. \<open>ParseCert\<close> reads the
  to-be-signed region, then one to four CA entries whose keys must be strictly
  ascending; \<open>CAPairs\<close> splits the flat entries again; \<open>EncodeCertTBS\<close> and
  \<open>AppendCertSignatures\<close> mint a certificate.

  \<open>ParseCert\<close> is interpreted as an \<open>exact_codec\<close>. The lemmas on \<open>ca_loop\<close> show that
  exactly the lists of entries with strictly ascending keys are read, hence pairwise
  distinct keys, and that \<open>CAPairs\<close> never slices out of range on a parsed certificate.
\<close>

subsection \<open>Layout constants and roles\<close>

abbreviation LenKexPubkey :: nat where "LenKexPubkey \<equiv> 32"
abbreviation LenScopeID :: nat where "LenScopeID \<equiv> 8"
abbreviation MaxName :: nat where "MaxName \<equiv> 64"
abbreviation MaxScope :: nat where "MaxScope \<equiv> 8"
abbreviation MaxCASigs :: nat where "MaxCASigs \<equiv> 4"
abbreviation LenCAKey :: nat where "LenCAKey \<equiv> 32"
abbreviation LenCASig :: nat where "LenCASig \<equiv> 64"

abbreviation RoleParticipant :: byte where "RoleParticipant \<equiv> 0x01"
abbreviation RoleAgent :: byte where "RoleAgent \<equiv> 0x02"
abbreviation RoleExecutor :: byte where "RoleExecutor \<equiv> 0x04"
abbreviation RoleApprover :: byte where "RoleApprover \<equiv> 0x08"
abbreviation RoleLighthouse :: byte where "RoleLighthouse \<equiv> 0x10"
abbreviation RoleRelay :: byte where "RoleRelay \<equiv> 0x20"

record Cert =
  cert_Version :: byte
  cert_RoleBits :: byte
  cert_SigPubkey :: bytes
  cert_KexPubkey :: bytes
  cert_NotBefore :: uint64
  cert_NotAfter :: uint64
  cert_Name :: bytes
  cert_ScopeCount :: byte
  cert_ScopeIDs :: bytes
  cert_CASigCount :: byte
  cert_CASigs :: bytes
  cert_TBS :: bytes

record CAPair =
  ca_Key :: bytes
  ca_Sig :: bytes

text \<open>\<open>bytes.Compare\<close>; Go's string order \<open><=\<close> is the same lexicographic order.\<close>

fun bytes_Compare :: "bytes \<Rightarrow> bytes \<Rightarrow> int" where
  "bytes_Compare [] [] = 0"
| "bytes_Compare [] (b # bs) = -1"
| "bytes_Compare (a # as) [] = 1"
| "bytes_Compare (a # as) (b # bs) =
     (if a < b then -1 else if b < a then 1 else bytes_Compare as bs)"

subsection \<open>Parsing\<close>

text \<open>
  The loop over the CA entries: \<open>n\<close> entries are left, \<open>i\<close> have been read, \<open>prev\<close> is
  the key of the last one.
\<close>

fun ca_loop :: "nat \<Rightarrow> nat \<Rightarrow> bytes \<Rightarrow> cursor \<Rightarrow> cursor result" where
  "ca_loop 0 i prev c = Inr c"
| "ca_loop (Suc n) i prev c =
     rbind (take_c LenCAKey c) (\<lambda>(key, c).
       if i > 0 \<and> bytes_Compare key prev \<le> 0 then Inl ErrMalformed
       else rbind (take_c LenCASig c) (\<lambda>(_, c). ca_loop n (Suc i) key c))"

definition readCert :: "cursor \<Rightarrow> (Cert \<times> cursor) result" where
  "readCert c =
     (let start = pos c in
      rbind (u8 c) (\<lambda>(version, c).
      rbind (u8 c) (\<lambda>(roleBits, c).
      rbind (take_c LenPubkey c) (\<lambda>(sigPub, c).
      rbind (take_c LenKexPubkey c) (\<lambda>(kexPub, c).
      rbind (u64be c) (\<lambda>(notBefore, c).
      rbind (u64be c) (\<lambda>(notAfter, c).
      rbind (field16 MaxName c) (\<lambda>(name, c).
      rbind (u8 c) (\<lambda>(scopeCount, c).
      if unat scopeCount > MaxScope then Inl ErrOversize else
      rbind (take_c (unat scopeCount * LenScopeID) c) (\<lambda>(scopeIDs, c).
      rbind (go_slice (buf c) start (pos c)) (\<lambda>tbs.
      rbind (u8 c) (\<lambda>(caCount, c).
      if caCount = 0 \<or> unat caCount > MaxCASigs then Inl ErrMalformed else
      let caStart = pos c in
      rbind (ca_loop (unat caCount) 0 [] c) (\<lambda>c.
      rbind (go_slice (buf c) caStart (pos c)) (\<lambda>caSigs.
      Inr (\<lparr>cert_Version = version, cert_RoleBits = roleBits, cert_SigPubkey = sigPub,
            cert_KexPubkey = kexPub, cert_NotBefore = notBefore, cert_NotAfter = notAfter,
            cert_Name = name, cert_ScopeCount = scopeCount, cert_ScopeIDs = scopeIDs,
            cert_CASigCount = caCount, cert_CASigs = caSigs, cert_TBS = tbs\<rparr>,
           c)))))))))))))))"

definition ParseCert :: "bytes \<Rightarrow> Cert result" where
  "ParseCert b = rbind (readCert (start_cursor b)) (\<lambda>(ct, c).
     if pos c \<noteq> length b then Inl ErrTrailingBytes else Inr ct)"

subsection \<open>The CA entries of a certificate\<close>

fun capairs_loop :: "bytes \<Rightarrow> nat \<Rightarrow> nat \<Rightarrow> CAPair list result" where
  "capairs_loop sigs i 0 = Inr []"
| "capairs_loop sigs i (Suc n) =
     (let off = i * (LenCAKey + LenCASig) in
      rbind (go_slice sigs off (off + LenCAKey)) (\<lambda>key.
      rbind (go_slice sigs (off + LenCAKey) (off + (LenCAKey + LenCASig))) (\<lambda>sig.
      rbind (capairs_loop sigs (Suc i) n) (\<lambda>rest.
      Inr (\<lparr>ca_Key = key, ca_Sig = sig\<rparr> # rest)))))"

definition CAPairs :: "Cert \<Rightarrow> CAPair list result" where
  "CAPairs ct = capairs_loop (cert_CASigs ct) 0 (unat (cert_CASigCount ct))"

fun inSet :: "bytes \<Rightarrow> bytes list \<Rightarrow> bool" where
  "inSet key [] = False"
| "inSet key (k # ks) = (if k = key then True else inSet key ks)"

text \<open>\<open>trusted\<close> is \<open>None\<close> for Go's nil slice.\<close>

fun verify_ca_loop :: "crypto \<Rightarrow> bytes \<Rightarrow> bytes list option \<Rightarrow> CAPair list \<Rightarrow> unit result" where
  "verify_ca_loop cr tbs trusted [] = Inr ()"
| "verify_ca_loop cr tbs trusted (p # ps) =
     rbind (VerifySigned cr DomainCert tbs (ca_Sig p) (ca_Key p)) (\<lambda>_.
       if (case trusted of None \<Rightarrow> False | Some ts \<Rightarrow> \<not> inSet (ca_Key p) ts)
       then Inl ErrBadSignature else verify_ca_loop cr tbs trusted ps)"

definition VerifyCASignatures :: "crypto \<Rightarrow> Cert \<Rightarrow> bytes list option \<Rightarrow> unit result" where
  "VerifyCASignatures cr ct trusted =
     rbind (CAPairs ct) (\<lambda>ps. verify_ca_loop cr (cert_TBS ct) trusted ps)"

subsection \<open>Minting\<close>

record CertFields =
  cf_Version :: byte
  cf_RoleBits :: byte
  cf_SigPubkey :: bytes
  cf_KexPubkey :: bytes
  cf_NotBefore :: uint64
  cf_NotAfter :: uint64
  cf_Name :: bytes
  cf_ScopeIDs :: "bytes list"

definition cert_arrays :: "CertFields \<Rightarrow> bool" where
  "cert_arrays f \<longleftrightarrow>
     length (cf_SigPubkey f) = LenPubkey \<and> length (cf_KexPubkey f) = LenKexPubkey \<and>
     list_all (\<lambda>s. length s = LenScopeID) (cf_ScopeIDs f)"

definition EncodeCertTBS :: "CertFields \<Rightarrow> bytes result" where
  "EncodeCertTBS f =
     (if length (cf_Name f) > MaxName \<or> length (cf_ScopeIDs f) > MaxScope then Inl ErrFieldBounds
      else Inr ([cf_Version f, cf_RoleBits f] @ cf_SigPubkey f @ cf_KexPubkey f
                @ be64 (cf_NotBefore f) @ be64 (cf_NotAfter f)
                @ be16 (of_nat (length (cf_Name f))) @ cf_Name f
                @ [of_nat (length (cf_ScopeIDs f))] @ concat (cf_ScopeIDs f)))"

text \<open>The loop over the pairs: \<open>prev\<close> is the pair before, none at the first.\<close>

fun append_sigs_loop :: "CAPair option \<Rightarrow> CAPair list \<Rightarrow> bytes \<Rightarrow> bytes result" where
  "append_sigs_loop prev [] out = Inr out"
| "append_sigs_loop prev (p # ps) out =
     (if length (ca_Key p) \<noteq> LenCAKey \<or> length (ca_Sig p) \<noteq> LenCASig then Inl ErrFieldBounds
      else if (case prev of None \<Rightarrow> False | Some q \<Rightarrow> bytes_Compare (ca_Key p) (ca_Key q) \<le> 0)
      then Inl ErrMalformed
      else append_sigs_loop (Some p) ps (out @ ca_Key p @ ca_Sig p))"

definition AppendCertSignatures :: "bytes \<Rightarrow> CAPair list \<Rightarrow> bytes result" where
  "AppendCertSignatures tbs pairs =
     (if pairs = [] \<or> length pairs > MaxCASigs then Inl ErrFieldBounds
      else append_sigs_loop None pairs (tbs @ [of_nat (length pairs)]))"

subsection \<open>The layout a certificate is read from\<close>

definition ca_flat :: "CAPair list \<Rightarrow> bytes" where
  "ca_flat ps = concat (map (\<lambda>p. ca_Key p @ ca_Sig p) ps)"

fun ca_split :: "nat \<Rightarrow> bytes \<Rightarrow> CAPair list" where
  "ca_split 0 bs = []"
| "ca_split (Suc n) bs =
     \<lparr>ca_Key = take 32 bs, ca_Sig = take 64 (drop 32 bs)\<rparr> # ca_split n (drop 96 bs)"

definition ca_sized :: "CAPair \<Rightarrow> bool" where
  "ca_sized p \<longleftrightarrow> length (ca_Key p) = LenCAKey \<and> length (ca_Sig p) = LenCASig"

text \<open>Ascending keys, seen from the position of the loop (\<open>i\<close> entries read, the last with key \<open>prev\<close>).\<close>

fun ca_asc :: "nat \<Rightarrow> bytes \<Rightarrow> CAPair list \<Rightarrow> bool" where
  "ca_asc i prev [] = True"
| "ca_asc i prev (p # ps) =
     ((i = 0 \<or> bytes_Compare (ca_Key p) prev > 0) \<and> ca_asc (Suc i) (ca_Key p) ps)"

definition cert_layout :: "Cert \<Rightarrow> bytes" where
  "cert_layout ct =
     [cert_Version ct] @ [cert_RoleBits ct] @ cert_SigPubkey ct @ cert_KexPubkey ct
     @ be64 (cert_NotBefore ct) @ be64 (cert_NotAfter ct) @ enc_field16 (cert_Name ct)
     @ [cert_ScopeCount ct] @ cert_ScopeIDs ct"

definition enc_cert :: "Cert \<Rightarrow> bytes" where
  "enc_cert ct = cert_layout ct @ [cert_CASigCount ct] @ cert_CASigs ct"

definition cert_pairs :: "Cert \<Rightarrow> CAPair list" where
  "cert_pairs ct = ca_split (unat (cert_CASigCount ct)) (cert_CASigs ct)"

definition cert_ok :: "Cert \<Rightarrow> bool" where
  "cert_ok ct \<longleftrightarrow>
     length (cert_SigPubkey ct) = LenPubkey \<and> length (cert_KexPubkey ct) = LenKexPubkey \<and>
     length (cert_Name ct) \<le> MaxName \<and> unat (cert_ScopeCount ct) \<le> MaxScope \<and>
     length (cert_ScopeIDs ct) = unat (cert_ScopeCount ct) * LenScopeID \<and>
     0 < unat (cert_CASigCount ct) \<and> unat (cert_CASigCount ct) \<le> MaxCASigs \<and>
     length (cert_CASigs ct) = unat (cert_CASigCount ct) * (LenCAKey + LenCASig) \<and>
     ca_asc 0 [] (cert_pairs ct) \<and> cert_TBS ct = cert_layout ct"

subsection \<open>Splitting and joining the CA entries\<close>

lemma ca_sized_mk [simp]:
  "ca_sized \<lparr>ca_Key = k, ca_Sig = s\<rparr> \<longleftrightarrow> length k = LenCAKey \<and> length s = LenCASig"
  by (simp add: ca_sized_def)

lemma ca_flat_simps [simp]: "ca_flat [] = []" "ca_flat (p # ps) = ca_Key p @ ca_Sig p @ ca_flat ps"
  by (simp_all add: ca_flat_def)

lemma length_ca_flat: "list_all ca_sized ps \<Longrightarrow> length (ca_flat ps) = 96 * length ps"
  by (induction ps) (auto simp: ca_sized_def)

lemma ca_split_flat: "list_all ca_sized ps \<Longrightarrow> length ps = n \<Longrightarrow> ca_split n (ca_flat ps) = ps"
  by (induction ps arbitrary: n) (auto simp: ca_sized_def)

lemma ca_flat_split:
  "length bs = 96 * n \<Longrightarrow>
   ca_flat (ca_split n bs) = bs \<and> list_all ca_sized (ca_split n bs) \<and> length (ca_split n bs) = n"
proof (induction n arbitrary: bs)
  case 0
  then show ?case by simp
next
  case (Suc n)
  then have IH: "ca_flat (ca_split n (drop 96 bs)) = drop 96 bs"
    "list_all ca_sized (ca_split n (drop 96 bs))" "length (ca_split n (drop 96 bs)) = n"
    using Suc.IH [of "drop 96 bs"] by auto
  have "take 32 bs @ take 64 (drop 32 bs) @ drop 96 bs = bs"
    using append_take_drop_id [of 64 "drop 32 bs"] by (simp add: drop_drop)
  then show ?case using Suc.prems IH by simp
qed

lemma capairs_loop_split:
  "length sigs = (i + n) * 96 \<Longrightarrow> capairs_loop sigs i n = Inr (ca_split n (drop (i * 96) sigs))"
proof (induction n arbitrary: i)
  case 0
  then show ?case by simp
next
  case (Suc n)
  then have "capairs_loop sigs (Suc i) n = Inr (ca_split n (drop (Suc i * 96) sigs))"
    by simp
  then show ?case using Suc.prems
    by (simp add: Let_def subslice_def drop_drop add.commute)
qed

lemma CAPairs_ok: "cert_ok ct \<Longrightarrow> CAPairs ct = Inr (cert_pairs ct)"
  by (simp add: CAPairs_def cert_pairs_def cert_ok_def capairs_loop_split)

lemma cert_pairs_props:
  assumes "cert_ok ct"
  shows "ca_flat (cert_pairs ct) = cert_CASigs ct" and "list_all ca_sized (cert_pairs ct)"
    and "length (cert_pairs ct) = unat (cert_CASigCount ct)" and "ca_asc 0 [] (cert_pairs ct)"
  using assms ca_flat_split [of "cert_CASigs ct" "unat (cert_CASigCount ct)"]
  by (simp_all add: cert_ok_def cert_pairs_def)

lemma inSet_iff [simp]: "inSet k ks \<longleftrightarrow> k \<in> set ks"
  by (induction ks) auto

subsection \<open>The order of the CA keys\<close>

lemma bytes_Compare_neg: "bytes_Compare x y < 0 \<longleftrightarrow> 0 < bytes_Compare y x"
  by (induction x y rule: bytes_Compare.induct) auto

lemma bytes_Compare_zero: "bytes_Compare x y = 0 \<longleftrightarrow> x = y"
  by (induction x y rule: bytes_Compare.induct) auto

lemma bytes_Compare_trans: "0 < bytes_Compare y x \<Longrightarrow> 0 < bytes_Compare z y \<Longrightarrow> 0 < bytes_Compare z x"
proof (induction y x arbitrary: z rule: bytes_Compare.induct)
  case (3 a as)
  then show ?case by (cases z) auto
next
  case (4 a as b bs)
  then show ?case by (cases z) (auto split: if_splits)
qed auto

definition key_less :: "CAPair \<Rightarrow> CAPair \<Rightarrow> bool" where
  "key_less p q \<longleftrightarrow> bytes_Compare (ca_Key p) (ca_Key q) < 0"

lemma ca_asc_sorted: "ca_asc (Suc i) (ca_Key q) ps \<longleftrightarrow> sorted_wrt key_less (q # ps)"
proof (induction ps arbitrary: q i)
  case Nil
  then show ?case by simp
next
  case (Cons p ps)
  have "key_less q p \<Longrightarrow> key_less p r \<Longrightarrow> key_less q r" for r
    using bytes_Compare_trans [of "ca_Key p" "ca_Key q" "ca_Key r"]
    by (simp add: key_less_def bytes_Compare_neg)
  then show ?case using Cons.IH [of "Suc i" p] by (auto simp: key_less_def bytes_Compare_neg)
qed

lemma ca_asc_sorted_wrt: "ca_asc 0 [] ps \<longleftrightarrow> sorted_wrt key_less ps"
  by (cases ps) (simp_all add: ca_asc_sorted)

lemma sorted_keys_distinct: "sorted_wrt key_less ps \<Longrightarrow> distinct (map ca_Key ps)"
proof (induction ps)
  case (Cons p ps)
  have "key_less p q \<Longrightarrow> ca_Key p \<noteq> ca_Key q" for q
    using bytes_Compare_zero [of "ca_Key p" "ca_Key p"] by (auto simp: key_less_def)
  with Cons show ?case by fastforce
qed simp

subsection \<open>Parsing accepts exactly the layout\<close>

lemma ca_loop_sound:
  "ca_loop n i prev (cur_at pre r) = Inr c \<Longrightarrow>
   \<exists>ps ys. length ps = n \<and> list_all ca_sized ps \<and> ca_asc i prev ps \<and>
           r = ca_flat ps @ ys \<and> c = cur_at (pre @ ca_flat ps) ys"
proof (induction n arbitrary: i prev pre r)
  case 0
  then show ?case by auto
next
  case (Suc n)
  from Suc.prems obtain key sig r' where
    len: "length key = 32" "length sig = 64" and r: "r = key @ sig @ r'"
    and asc: "i = 0 \<or> 0 < bytes_Compare key prev"
    and rest: "ca_loop n (Suc i) key (cur_at (pre @ key @ sig) r') = Inr c"
    by (auto simp: rbind_eq_Inr takec.rd_iff split: if_splits)
  from Suc.IH [OF rest] obtain ps ys where ps: "length ps = n" "list_all ca_sized ps"
    "ca_asc (Suc i) key ps" "r' = ca_flat ps @ ys" "c = cur_at ((pre @ key @ sig) @ ca_flat ps) ys"
    by auto
  show ?case
    using len r asc ps
    by (intro exI [of _ "\<lparr>ca_Key = key, ca_Sig = sig\<rparr> # ps"] exI [of _ ys]) auto
qed

lemma ca_loop_complete:
  "list_all ca_sized ps \<Longrightarrow> ca_asc i prev ps \<Longrightarrow>
   ca_loop (length ps) i prev (cur_at pre (ca_flat ps @ ys)) = Inr (cur_at (pre @ ca_flat ps) ys)"
  by (induction ps arbitrary: i prev pre) (auto simp: ca_sized_def takec.rd_enc)

lemma ca_loop_trunc:
  "list_all ca_sized ps \<Longrightarrow> ca_asc i prev ps \<Longrightarrow> strict_prefix r (ca_flat ps) \<Longrightarrow>
   ca_loop (length ps) i prev (cur_at pre r) = Inl ErrTruncated"
proof (induction ps arbitrary: i prev pre r)
  case (Cons p ps)
  from Cons.prems(3) have "strict_prefix r (ca_Key p @ ca_Sig p @ ca_flat ps)" by simp
  then show ?case
    using Cons.prems(1,2) Cons.IH
    by (simp only: length_Cons ca_loop.simps, elim takec.rd_trunc_step)
      (auto simp: ca_sized_def elim: takec.rd_trunc_step)
qed simp

lemma byte_pos: "(v :: byte) = 0 \<longleftrightarrow> \<not> 0 < unat v"
  by (simp add: unat_eq_zero)

lemma readCert_sound:
  assumes "readCert (cur_at pre r) = Inr (ct, c)"
  shows "cert_ok ct \<and> (\<exists>ys. r = enc_cert ct @ ys \<and> c = cur_at (pre @ enc_cert ct) ys)"
  using assms
  by (auto simp: readCert_def Let_def rbind_eq_Inr cursor_iff cert_ok_def enc_cert_def
      cert_layout_def cert_pairs_def subslice_def take_Cons' drop_Cons' byte_pos ca_split_flat length_ca_flat
      split: if_splits dest!: ca_loop_sound)

lemma readCert_complete:
  assumes ct: "cert_ok ct"
  shows "readCert (cur_at pre (enc_cert ct @ ys)) = Inr (ct, cur_at (pre @ enc_cert ct) ys)"
proof -
  have flat: "cert_CASigs ct = ca_flat (cert_pairs ct)"
    and n: "unat (cert_CASigCount ct) = length (cert_pairs ct)"
    using cert_pairs_props [OF ct] by simp_all
  have "\<not> (cert_CASigCount ct = 0 \<or> unat (cert_CASigCount ct) > MaxCASigs)"
    using ct by (simp add: cert_ok_def byte_pos)
  then show ?thesis
    using ct cert_pairs_props(2,4) [OF ct]
    by (simp add: readCert_def Let_def cursor_enc cert_ok_def enc_cert_def cert_layout_def
        subslice_def take_Cons' drop_Cons' ca_loop_complete flat n)
qed

lemma readCert_trunc:
  assumes ct: "cert_ok ct" and r: "strict_prefix r (enc_cert ct)"
  shows "readCert (cur_at pre r) = Inl ErrTruncated"
proof -
  have flat: "cert_CASigs ct = ca_flat (cert_pairs ct)"
    and n: "unat (cert_CASigCount ct) = length (cert_pairs ct)"
    using cert_pairs_props [OF ct] by simp_all
  note facts = cert_pairs_props(2,4) [OF ct] ct [unfolded cert_ok_def]
  have "strict_prefix r (enc_cert ct) \<Longrightarrow> readCert (cur_at pre r) = Inl ErrTruncated"
    unfolding readCert_def Let_def enc_cert_def cert_layout_def append_assoc flat
    by ((elim cursor_trunc | rule guard_trunc slice_trunc)+) (use facts in \<open>auto simp: n byte_pos ca_loop_trunc\<close>)
  with r show ?thesis by blast
qed

lemma ca_loop_safe:
  "no_panic (ca_loop n i prev c) \<and>
   (ca_loop n i prev c = Inr c' \<longrightarrow> pos c \<le> length (buf c) \<longrightarrow>
    buf c' = buf c \<and> pos c \<le> pos c' \<and> pos c' \<le> length (buf c'))"
proof (induction n arbitrary: i prev c)
  case (Suc n)
  have "no_panic (ca_loop (Suc n) i prev c)"
    using Suc unfolding ca_loop.simps by (intro safe_reads no_panic_if) (simp_all add: is_panic_def)
  moreover have "ca_loop (Suc n) i prev c = Inr c' \<Longrightarrow> buf c' = buf c \<and> pos c \<le> pos c' \<and> pos c' \<le> length (buf c')"
    using Suc by (fastforce simp: rbind_eq_Inr dest!: safe_advances split: if_splits)
  ultimately show ?case by blast
qed simp

interpretation certs: safe_reader readCert
proof
  show "no_panic (readCert c)" for c
    unfolding readCert_def Let_def
    by (intro safe_reads no_panic_if no_panic_bind [OF conjunct1 [OF ca_loop_safe]])
      (auto simp: is_panic_def dest: ca_loop_safe [THEN conjunct2, rule_format] intro!: safe_reads)
qed (auto simp: readCert_def Let_def rbind_eq_Inr dest!: safe_advances ca_loop_safe [THEN conjunct2, rule_format]
    split: if_splits)

lemma ParseCert_no_panic [panic_free]: "no_panic (ParseCert b)"
  using certs.parse_exact_no_panic [of b] by (simp add: ParseCert_def parse_exact_def)

interpretation certc: exact_codec readCert enc_cert cert_ok ParseCert
  by (rule exact_codecI, rule codecI)
    (simp_all add: readCert_sound readCert_complete readCert_trunc ParseCert_def parse_exact_def)

lemma cert_length: "ParseCert cb = Inr ct \<Longrightarrow> length cb \<le> 598"
  by (auto simp: certc.parse_iff cert_ok_def enc_cert_def cert_layout_def enc_field16_def)

subsection \<open>Minting produces the layout\<close>

definition cert_of :: "CertFields \<Rightarrow> bytes \<Rightarrow> CAPair list \<Rightarrow> Cert" where
  "cert_of f tbs pairs =
     \<lparr>cert_Version = cf_Version f, cert_RoleBits = cf_RoleBits f, cert_SigPubkey = cf_SigPubkey f,
      cert_KexPubkey = cf_KexPubkey f, cert_NotBefore = cf_NotBefore f,
      cert_NotAfter = cf_NotAfter f, cert_Name = cf_Name f,
      cert_ScopeCount = of_nat (length (cf_ScopeIDs f)), cert_ScopeIDs = concat (cf_ScopeIDs f),
      cert_CASigCount = of_nat (length pairs), cert_CASigs = ca_flat pairs, cert_TBS = tbs\<rparr>"

lemma append_sigs_loop_iff:
  "append_sigs_loop prev pairs out = Inr w \<longleftrightarrow>
     list_all ca_sized pairs \<and> sorted_wrt key_less (case prev of None \<Rightarrow> pairs | Some q \<Rightarrow> q # pairs) \<and>
     w = out @ ca_flat pairs"
proof (induction prev pairs out rule: append_sigs_loop.induct)
  case (1 prev out)
  then show ?case by (auto split: option.splits)
next
  case (2 prev p ps out)
  have step: "key_less q p \<and> sorted_wrt key_less (p # ps) \<longleftrightarrow> sorted_wrt key_less (q # p # ps)" for q
    using ca_asc_sorted [of 0 q "p # ps"] ca_asc_sorted [of 1 p ps]
    by (simp add: key_less_def bytes_Compare_neg)
  show ?case
  proof (cases prev)
    case None
    then show ?thesis using 2 by (auto simp: ca_sized_def)
  next
    case (Some q)
    have "(bytes_Compare (ca_Key p) (ca_Key q) \<le> 0) = (\<not> key_less q p)"
      by (auto simp: key_less_def bytes_Compare_neg)
    then show ?thesis using 2 Some step [of q] by (auto simp: ca_sized_def)
  qed
qed

lemma AppendCertSignatures_iff:
  "AppendCertSignatures tbs pairs = Inr w \<longleftrightarrow>
     pairs \<noteq> [] \<and> length pairs \<le> MaxCASigs \<and> list_all ca_sized pairs \<and> sorted_wrt key_less pairs \<and>
     w = tbs @ [of_nat (length pairs)] @ ca_flat pairs"
  by (auto simp: AppendCertSignatures_def append_sigs_loop_iff)

lemma of_nat_byte: "n < 256 \<Longrightarrow> unat (of_nat n :: byte) = n"
  by (simp add: unsigned_of_nat take_bit_nat_eq_self)

lemma length_concat_const: "list_all (\<lambda>s. length s = k) ss \<Longrightarrow> length (concat ss) = length ss * k"
  by (induction ss) auto

lemma cert_of_ok:
  assumes "cert_arrays f" and "EncodeCertTBS f = Inr tbs" and "AppendCertSignatures tbs pairs = Inr w"
  shows "cert_ok (cert_of f tbs pairs) \<and> enc_cert (cert_of f tbs pairs) = w \<and>
         cert_pairs (cert_of f tbs pairs) = pairs"
proof -
  have p: "pairs \<noteq> []" "length pairs \<le> MaxCASigs" "list_all ca_sized pairs"
    "ca_asc 0 [] pairs" "w = tbs @ [of_nat (length pairs)] @ ca_flat pairs"
    using assms(3)
    by (simp_all add: AppendCertSignatures_iff ca_asc_sorted_wrt)
  have n: "unat (of_nat (length pairs) :: byte) = length pairs" using p(2) by (simp add: of_nat_byte)
  have sc: "length (cf_ScopeIDs f) \<le> MaxScope" using assms(2) by (simp add: EncodeCertTBS_def split: if_splits)
  then have m: "unat (of_nat (length (cf_ScopeIDs f)) :: byte) = length (cf_ScopeIDs f)"
    by (simp add: of_nat_byte)
  have pairs: "cert_pairs (cert_of f tbs pairs) = pairs"
    using p n by (simp add: cert_pairs_def cert_of_def ca_split_flat)
  have layout: "cert_layout (cert_of f tbs pairs) = tbs"
    using assms(2) by (auto simp: cert_layout_def cert_of_def EncodeCertTBS_def enc_field16_def split: if_splits)
  have "cert_ok (cert_of f tbs pairs)"
    unfolding cert_ok_def pairs layout using assms(1,2) p sc
    by (auto simp: cert_of_def n m cert_arrays_def EncodeCertTBS_def length_ca_flat length_concat_const
        split: if_splits)
  then show ?thesis using pairs layout p(5) by (simp add: enc_cert_def) (simp add: cert_of_def)
qed

text \<open>The fields a parsed certificate was minted from.\<close>

definition cert_fields :: "Cert \<Rightarrow> CertFields" where
  "cert_fields ct =
     \<lparr>cf_Version = cert_Version ct, cf_RoleBits = cert_RoleBits ct, cf_SigPubkey = cert_SigPubkey ct,
      cf_KexPubkey = cert_KexPubkey ct, cf_NotBefore = cert_NotBefore ct,
      cf_NotAfter = cert_NotAfter ct, cf_Name = cert_Name ct,
      cf_ScopeIDs = pieces LenScopeID (unat (cert_ScopeCount ct)) (cert_ScopeIDs ct)\<rparr>"

lemma cert_fields_ok:
  assumes "cert_ok ct"
  shows "cert_arrays (cert_fields ct) \<and> EncodeCertTBS (cert_fields ct) = Inr (cert_TBS ct) \<and>
         AppendCertSignatures (cert_TBS ct) (cert_pairs ct) = Inr (enc_cert ct) \<and>
         ct = cert_of (cert_fields ct) (cert_TBS ct) (cert_pairs ct)"
proof -
  have ids: "length (cert_ScopeIDs ct) = unat (cert_ScopeCount ct) * LenScopeID"
    using assms by (simp add: cert_ok_def)
  note props = cert_pairs_props [OF assms]
  have ne: "cert_pairs ct \<noteq> []" "length (cert_pairs ct) \<le> MaxCASigs"
    using assms props(3) by (auto simp: cert_ok_def)
  have "AppendCertSignatures (cert_TBS ct) (cert_pairs ct) = Inr (enc_cert ct)"
    using assms props ne
    by (simp add: AppendCertSignatures_iff ca_asc_sorted_wrt [symmetric] enc_cert_def cert_ok_def)
  moreover have "cert_arrays (cert_fields ct)" "EncodeCertTBS (cert_fields ct) = Inr (cert_TBS ct)"
    using assms length_pieces [OF ids] concat_pieces [OF ids]
    by (simp_all add: cert_arrays_def cert_fields_def cert_ok_def EncodeCertTBS_def cert_layout_def enc_field16_def)
  moreover have "ct = cert_of (cert_fields ct) (cert_TBS ct) (cert_pairs ct)"
    using length_pieces [OF ids] concat_pieces [OF ids] props
    by (simp add: cert_of_def cert_fields_def)
  ultimately show ?thesis by blast
qed

subsection \<open>Properties\<close>

text \<open>
  C6: The certificate parser accepts exactly what the minting functions produce. A byte
  string parses to a certificate if and only if \<open>EncodeCertTBS\<close> followed by
  \<open>AppendCertSignatures\<close> builds it from some fields and CA entries, and the parsed
  certificate is the one with those fields and entries: minting never produces a
  certificate the parser refuses, and the parser accepts nothing minting would refuse
  (entries out of order, duplicated, missing, too many, or of a wrong size).
\<close>

theorem ParseCert_inverts_minting:
  "ParseCert b = Inr ct \<longleftrightarrow>
     (\<exists>f tbs pairs. cert_arrays f \<and> EncodeCertTBS f = Inr tbs \<and>
        AppendCertSignatures tbs pairs = Inr b \<and> ct = cert_of f tbs pairs)"
  unfolding certc.parse_iff using cert_fields_ok cert_of_ok by blast

text \<open>
  The CA entries of a parsed certificate. Splitting them again never slices out of
  range; there are one to four, as many as the count byte says, each a 32-byte key with
  a 64-byte signature, and their keys are strictly ascending, hence pairwise distinct: no
  CA can fill two places of a quorum.
\<close>

lemma CAPairs_of_parsed:
  assumes "ParseCert b = Inr ct"
  shows "\<exists>ps. CAPairs ct = Inr ps \<and> length ps = unat (cert_CASigCount ct) \<and> length ps \<in> {1..4} \<and>
              list_all ca_sized ps \<and> sorted_wrt key_less ps \<and> distinct (map ca_Key ps)"
proof -
  have ct: "cert_ok ct" using assms by (simp add: certc.parse_iff)
  note props = cert_pairs_props [OF ct]
  have "sorted_wrt key_less (cert_pairs ct)" using props(4) by (simp add: ca_asc_sorted_wrt)
  then show ?thesis
    using CAPairs_ok [OF ct] props ct sorted_keys_distinct by (auto simp: cert_ok_def)
qed

text \<open>Two-signer certificates for a role byte and a key, as the minting functions give them.\<close>

definition demo_cert_fields :: "byte \<Rightarrow> bytes \<Rightarrow> CertFields" where
  "demo_cert_fields role pub =
     \<lparr>cf_Version = 2, cf_RoleBits = role, cf_SigPubkey = pub, cf_KexPubkey = key32 8,
      cf_NotBefore = 1000, cf_NotAfter = 2592001000, cf_Name = str_bytes ''demo'',
      cf_ScopeIDs = [replicate 8 1]\<rparr>"

definition mint_pair :: "crypto \<Rightarrow> bytes \<Rightarrow> bytes \<Rightarrow> CAPair" where
  "mint_pair cr tbs seed =
     \<lparr>ca_Key = ed_pub cr seed, ca_Sig = ed_sign cr (seed @ ed_pub cr seed) (DomainCert # tbs)\<rparr>"

definition demo_tbs :: "byte \<Rightarrow> bytes \<Rightarrow> bytes" where
  "demo_tbs role pub = cert_layout (cert_of (demo_cert_fields role pub) [] [])"

definition demo_pairs :: "bytes \<Rightarrow> CAPair list" where
  "demo_pairs tbs = map (mint_pair ref_crypto tbs) [key32 0x5b, key32 0x58]"

definition demo_cert :: "byte \<Rightarrow> bytes \<Rightarrow> Cert" where
  "demo_cert role pub =
     cert_of (demo_cert_fields role pub) (demo_tbs role pub) (demo_pairs (demo_tbs role pub))"

lemma demo_cert_fields_ok:
  "length pub = 32 \<Longrightarrow> cert_arrays (demo_cert_fields role pub) \<and>
     EncodeCertTBS (demo_cert_fields role pub) = Inr (demo_tbs role pub)"
  by (simp add: demo_tbs_def demo_cert_fields_def cert_arrays_def EncodeCertTBS_def cert_layout_def
      cert_of_def enc_field16_def str_bytes_def)

lemma demo_pairs_ok: "AppendCertSignatures tbs (demo_pairs tbs) = Inr (tbs @ [2] @ ca_flat (demo_pairs tbs))"
proof -
  have "bytes_Compare (key32 2) (key32 1) = 1" by (simp add: numeral_eq_Suc)
  then have "list_all ca_sized (demo_pairs tbs)" "sorted_wrt key_less (demo_pairs tbs)"
    using bytes_Compare_neg [of "key32 1" "key32 2"]
    by (simp_all add: demo_pairs_def mint_pair_def ref_ed25519 ed25519_lawsD key_less_def)
  moreover have "demo_pairs tbs \<noteq> []" "length (demo_pairs tbs) = 2" by (simp_all add: demo_pairs_def)
  ultimately show ?thesis by (simp only: AppendCertSignatures_iff) simp
qed

lemma demo_cert_ok:
  assumes "length pub = 32"
  shows "cert_ok (demo_cert role pub)" and "cert_pairs (demo_cert role pub) = demo_pairs (demo_tbs role pub)"
    and "ParseCert (enc_cert (demo_cert role pub)) = Inr (demo_cert role pub)"
  using cert_of_ok [OF conjunct1 conjunct2 demo_pairs_ok, OF demo_cert_fields_ok demo_cert_fields_ok, OF assms assms]
  by (simp_all add: demo_cert_def certc.parse_iff)

text \<open>The certificate of the executor that signs \<open>demo_span\<close>.\<close>

abbreviation exec_cert :: Cert where "exec_cert \<equiv> demo_cert RoleExecutor (key32 0x5d)"

lemmas exec_cert_ok = demo_cert_ok [OF length_replicate, of RoleExecutor "0x5d"]

lemma verify_ca_loop_iff:
  "list_all ca_sized ps \<Longrightarrow> verify_ca_loop cr tbs trusted ps = Inr () \<longleftrightarrow>
     (\<forall>p \<in> set ps. ed_verify cr (ca_Key p) (DomainCert # tbs) (ca_Sig p) \<and>
        (\<forall>ts. trusted = Some ts \<longrightarrow> ca_Key p \<in> set ts))"
  by (induction ps) (auto simp: rbind_eq_Inr VerifySigned_ok_iff ca_sized_def split: option.splits)

lemma verify_ca_loop_error:
  "verify_ca_loop cr tbs trusted ps = Inl e \<Longrightarrow> e \<in> {ErrMalformedKey, ErrBadSignature}"
  by (induction ps) (auto simp: rbind_eq_Inl dest: VerifySigned_error split: if_splits)

text \<open>
  \<open>VerifyCASignatures\<close> on a parsed certificate never panics and accepts exactly when
  every CA entry's signature over the tagged to-be-signed region verifies and, unless no
  trust set is given, every entry's key is trusted.
\<close>

lemma VerifyCASignatures_iff:
  assumes "ParseCert b = Inr ct"
  shows "(VerifyCASignatures cr ct trusted = Inr () \<longleftrightarrow>
     (\<forall>p \<in> set (cert_pairs ct). ed_verify cr (ca_Key p) (DomainCert # cert_TBS ct) (ca_Sig p) \<and>
        (\<forall>ts. trusted = Some ts \<longrightarrow> ca_Key p \<in> set ts))) \<and>
     (VerifyCASignatures cr ct trusted = Inl e \<longrightarrow> \<not> is_panic e)"
proof -
  have ct: "cert_ok ct" using assms by (simp add: certc.parse_iff)
  show ?thesis
    using cert_pairs_props(2) [OF ct]
    by (auto simp: VerifyCASignatures_def CAPairs_ok [OF ct] verify_ca_loop_iff is_panic_def
        dest: verify_ca_loop_error)
qed

end
