(* ===== verification/Go_Std.thy ===== *)
theory Go_Std
  imports Lastro_Prelude
begin

text \<open>
  The parts of Go's standard library the commands are written with, on byte strings:
  \<open>strings\<close> (\<open>HasPrefix\<close>, \<open>Contains\<close>, \<open>ReplaceAll\<close>, \<open>TrimSpace\<close>, \<open>ToLower\<close>, \<open>Split\<close>),
  \<open>hex.DecodeString\<close>, the \<open>%d\<close> of \<open>fmt\<close>, \<open>strconv.ParseInt\<close> with base 0 and \<open>ParseBool\<close> as the \<open>flag\<close>
  package calls it, \<open>filepath.Join\<close> and \<open>flag.FlagSet.Parse\<close>.
\<close>

subsection \<open>strings\<close>

definition HasPrefix :: "bytes \<Rightarrow> bytes \<Rightarrow> bool" where
  "HasPrefix s p \<longleftrightarrow> length p \<le> length s \<and> take (length p) s = p"

fun Contains :: "bytes \<Rightarrow> bytes \<Rightarrow> bool" where
  "Contains [] sub = (sub = [])"
| "Contains (c # s) sub = (HasPrefix (c # s) sub \<or> Contains s sub)"

text \<open>For a non-empty \<open>old\<close>: leftmost, not overlapping.\<close>

function ReplaceAll :: "bytes \<Rightarrow> bytes \<Rightarrow> bytes \<Rightarrow> bytes" where
  "ReplaceAll [] old new = []"
| "ReplaceAll (c # s) old new =
     (if old \<noteq> [] \<and> HasPrefix (c # s) old then new @ ReplaceAll (drop (length old) (c # s)) old new
      else c # ReplaceAll s old new)"
  by pat_completeness auto
termination by (relation "measure (\<lambda>(s, old, new). length s)") (auto simp: neq_Nil_conv)

text \<open>
  White space is the ASCII spaces and the Unicode ones in UTF-8; \<open>space_runes\<close> lists
  their encodings.
\<close>

definition space_runes :: "bytes list" where
  "space_runes =
     [[0x09], [0x0a], [0x0b], [0x0c], [0x0d], [0x20], [0xc2, 0x85], [0xc2, 0xa0], [0xe1, 0x9a, 0x80],
      [0xe2, 0x80, 0x80], [0xe2, 0x80, 0x81], [0xe2, 0x80, 0x82], [0xe2, 0x80, 0x83], [0xe2, 0x80, 0x84],
      [0xe2, 0x80, 0x85], [0xe2, 0x80, 0x86], [0xe2, 0x80, 0x87], [0xe2, 0x80, 0x88], [0xe2, 0x80, 0x89],
      [0xe2, 0x80, 0x8a], [0xe2, 0x80, 0xa8], [0xe2, 0x80, 0xa9], [0xe2, 0x80, 0xaf], [0xe2, 0x81, 0x9f],
      [0xe3, 0x80, 0x80]]"

text \<open>Drops the given non-empty strings from the front as long as one of them is there.\<close>

function trim_left :: "bytes list \<Rightarrow> bytes \<Rightarrow> bytes" where
  "trim_left ws s =
     (case filter (\<lambda>w. w \<noteq> [] \<and> HasPrefix s w) ws of [] \<Rightarrow> s | w # _ \<Rightarrow> trim_left ws (drop (length w) s))"
  by pat_completeness auto
termination
proof (relation "measure (\<lambda>(ws, s). length s)")
  fix ws :: "bytes list" and s w :: bytes and r
  assume "filter (\<lambda>w. w \<noteq> [] \<and> HasPrefix s w) ws = w # r"
  then have "w \<in> set (filter (\<lambda>w. w \<noteq> [] \<and> HasPrefix s w) ws)" by simp
  then have "w \<noteq> []" "length w \<le> length s" by (auto simp: HasPrefix_def)
  then show "((ws, drop (length w) s), ws, s) \<in> measure (\<lambda>(ws, s). length s)" by (cases w) auto
qed simp

declare trim_left.simps [simp del]

definition TrimSpace :: "bytes \<Rightarrow> bytes" where
  "TrimSpace s = rev (trim_left (map rev space_runes) (rev (trim_left space_runes s)))"

text \<open>
  \<open>ToLower\<close> on the ASCII letters. A letter outside ASCII is left alone here; none of
  those has a hexadecimal digit as its lower case.
\<close>

definition ascii_lower :: "byte \<Rightarrow> byte" where
  "ascii_lower c = (if 0x41 \<le> c \<and> c \<le> 0x5a then c + 0x20 else c)"

definition ToLower :: "bytes \<Rightarrow> bytes" where
  "ToLower s = map ascii_lower s"

text \<open>\<open>strings.Split(s, sep)\<close> for a one-byte separator: never empty.\<close>

fun Split :: "bytes \<Rightarrow> byte \<Rightarrow> bytes list" where
  "Split [] sep = [[]]"
| "Split (c # s) sep =
     (if c = sep then [] # Split s sep
      else case Split s sep of [] \<Rightarrow> [[c]] | seg # segs \<Rightarrow> (c # seg) # segs)"

subsection \<open>Numbers\<close>

fun digits :: "nat \<Rightarrow> bytes" where
  "digits n = (if n < 10 then [0x30 + of_nat n] else digits (n div 10) @ [0x30 + of_nat (n mod 10)])"

declare digits.simps [simp del]

definition Itoa :: "int \<Rightarrow> bytes" where
  "Itoa i = (if i < 0 then 0x2d # digits (nat (- i)) else digits (nat i))"

definition hex_value :: "byte \<Rightarrow> nat option" where
  "hex_value c =
     (if 0x30 \<le> c \<and> c \<le> 0x39 then Some (unat (c - 0x30))
      else if 0x61 \<le> c \<and> c \<le> 0x66 then Some (unat (c - 0x61) + 10)
      else if 0x41 \<le> c \<and> c \<le> 0x46 then Some (unat (c - 0x41) + 10) else None)"

fun DecodeString :: "bytes \<Rightarrow> bytes option" where
  "DecodeString [] = Some []"
| "DecodeString [c] = None"
| "DecodeString (a # b # s) =
     (case (hex_value a, hex_value b, DecodeString s) of
        (Some x, Some y, Some r) \<Rightarrow> Some (of_nat (16 * x + y) # r)
      | _ \<Rightarrow> None)"

text \<open>\<open>strconv.ParseUint\<close> with base 0: the base prefix, the digits, the placing of underscores.\<close>

definition lower_letter :: "byte \<Rightarrow> byte" where
  "lower_letter c = c OR 0x20"

definition uint_prefix :: "bytes \<Rightarrow> nat \<times> bytes" where
  "uint_prefix s =
     (if s = [] \<or> s ! 0 \<noteq> 0x30 then (10, s)
      else if length s \<ge> 3 \<and> lower_letter (s ! 1) = 0x62 then (2, drop 2 s)
      else if length s \<ge> 3 \<and> lower_letter (s ! 1) = 0x6f then (8, drop 2 s)
      else if length s \<ge> 3 \<and> lower_letter (s ! 1) = 0x78 then (16, drop 2 s)
      else (8, drop 1 s))"

definition digit_value :: "byte \<Rightarrow> nat option" where
  "digit_value c =
     (if 0x30 \<le> c \<and> c \<le> 0x39 then Some (unat (c - 0x30))
      else if 0x61 \<le> lower_letter c \<and> lower_letter c \<le> 0x7a then Some (unat (lower_letter c - 0x61) + 10)
      else None)"

fun uint_digits :: "nat \<Rightarrow> nat \<Rightarrow> bytes \<Rightarrow> nat option" where
  "uint_digits base n [] = Some n"
| "uint_digits base n (c # s) =
     (if c = 0x5f then uint_digits base n s
      else case digit_value c of
        None \<Rightarrow> None
      | Some d \<Rightarrow> if d \<ge> base \<or> n * base + d \<ge> 2 ^ 64 then None else uint_digits base (n * base + d) s)"

datatype seen = SeenStart | SeenDigit | SeenUnderscore | SeenOther

fun underscores_placed :: "bool \<Rightarrow> seen \<Rightarrow> bytes \<Rightarrow> bool" where
  "underscores_placed hex i [] = (i \<noteq> SeenUnderscore)"
| "underscores_placed hex i (c # s) =
     (if 0x30 \<le> c \<and> c \<le> 0x39 \<or> hex \<and> 0x61 \<le> lower_letter c \<and> lower_letter c \<le> 0x66
      then underscores_placed hex SeenDigit s
      else if c = 0x5f then i = SeenDigit \<and> underscores_placed hex SeenUnderscore s
      else i \<noteq> SeenUnderscore \<and> underscores_placed hex SeenOther s)"

definition underscoreOK :: "bytes \<Rightarrow> bool" where
  "underscoreOK s =
     (if length s \<ge> 2 \<and> s ! 0 = 0x30 \<and> lower_letter (s ! 1) \<in> {0x62, 0x6f, 0x78}
      then underscores_placed (lower_letter (s ! 1) = 0x78) SeenDigit (drop 2 s)
      else underscores_placed False SeenStart s)"

definition ParseUint :: "bytes \<Rightarrow> nat option" where
  "ParseUint s =
     (if s = [] then None
      else case uint_prefix s of (base, t) \<Rightarrow>
        (case uint_digits base 0 t of
           None \<Rightarrow> None
         | Some n \<Rightarrow> if 0x5f \<in> set t \<and> \<not> underscoreOK s then None else Some n))"

definition ParseInt :: "bytes \<Rightarrow> int option" where
  "ParseInt s =
     (if s = [] then None
      else let neg = (s ! 0 = 0x2d); t = (if s ! 0 = 0x2b \<or> neg then drop 1 s else s)
        in case ParseUint t of
             None \<Rightarrow> None
           | Some n \<Rightarrow>
               if \<not> neg \<and> n \<ge> 2 ^ 63 then None
               else if neg \<and> n > 2 ^ 63 then None
               else Some (if neg then - int n else int n))"

subsection \<open>filepath.Join\<close>

text \<open>
  \<open>Clean\<close> on the segments: empty and \<open>.\<close> segments go, \<open>..\<close> removes the segment before it,
  is dropped at the root and kept at the start of a relative path.
\<close>

fun clean_segs :: "bool \<Rightarrow> bytes list \<Rightarrow> bytes list \<Rightarrow> bytes list" where
  "clean_segs rooted out [] = rev out"
| "clean_segs rooted out (seg # segs) =
     (if seg = [] \<or> seg = [0x2e] then clean_segs rooted out segs
      else if seg = [0x2e, 0x2e] then
        (case out of
           o1 # os \<Rightarrow> if o1 = [0x2e, 0x2e] then clean_segs rooted (seg # out) segs else clean_segs rooted os segs
         | [] \<Rightarrow> if rooted then clean_segs rooted [] segs else clean_segs rooted [seg] segs)
      else clean_segs rooted (seg # out) segs)"

fun join_slash :: "bytes list \<Rightarrow> bytes" where
  "join_slash [] = []"
| "join_slash [s] = s"
| "join_slash (s # t # ss) = s @ [0x2f] @ join_slash (t # ss)"

definition Clean :: "bytes \<Rightarrow> bytes" where
  "Clean p =
     (if p = [] then [0x2e]
      else let rooted = (p ! 0 = 0x2f); out = join_slash (clean_segs rooted [] (Split p 0x2f))
        in if rooted then 0x2f # out else if out = [] then [0x2e] else out)"

definition Join :: "bytes \<Rightarrow> bytes \<Rightarrow> bytes" where
  "Join dir name =
     (if dir = [] \<and> name = [] then []
      else if dir = [] then Clean name else if name = [] then Clean dir
      else Clean (dir @ [0x2f] @ name))"

subsection \<open>flag\<close>

datatype flag_kind = FlagString | FlagInt | FlagBool | FlagVar

datatype flag_result =
    FlagsParsed "(bytes \<times> bytes) list" "bytes list" \<comment> \<open>the values set, in order; the arguments left\<close>
  | FlagsHelp
  | FlagsError

definition ParseBool :: "bytes \<Rightarrow> bool option" where
  "ParseBool s =
     (if s \<in> set (map str_bytes [''1'', ''t'', ''T'', ''true'', ''TRUE'', ''True'']) then Some True
      else if s \<in> set (map str_bytes [''0'', ''f'', ''F'', ''false'', ''FALSE'', ''False'']) then Some False
      else None)"

definition set_ok :: "flag_kind \<Rightarrow> bytes \<Rightarrow> bool" where
  "set_ok k v = (case k of FlagInt \<Rightarrow> ParseInt v \<noteq> None | FlagBool \<Rightarrow> ParseBool v \<noteq> None | _ \<Rightarrow> True)"

definition split_eq :: "bytes \<Rightarrow> bytes \<times> bytes option" where
  "split_eq n =
     (takeWhile (\<lambda>c. c \<noteq> 0x3d) n, case dropWhile (\<lambda>c. c \<noteq> 0x3d) n of [] \<Rightarrow> None | _ # v \<Rightarrow> Some v)"

text \<open>The undefined flags \<open>-help\<close> and \<open>-h\<close> ask for the usage text; the others are errors.\<close>

definition unknown_flag :: "bytes \<Rightarrow> flag_result" where
  "unknown_flag name =
     (if name = str_bytes ''help'' \<or> name = str_bytes ''h'' then FlagsHelp else FlagsError)"

text \<open>A boolean flag takes no separate value; every other flag without \<open>=\<close> takes the next argument.\<close>

fun flag_parse ::
    "(bytes \<Rightarrow> flag_kind option) \<Rightarrow> (bytes \<times> bytes) list \<Rightarrow> bytes list \<Rightarrow> flag_result" where
  "flag_parse formal vals [] = FlagsParsed vals []"
| "flag_parse formal vals (s # args) =
     (if length s < 2 \<or> s ! 0 \<noteq> 0x2d then FlagsParsed vals (s # args)
      else if s = [0x2d, 0x2d] then FlagsParsed vals args
      else
        let name = (if s ! 1 = 0x2d then drop 2 s else drop 1 s) in
        if name = [] \<or> hd name = 0x2d \<or> hd name = 0x3d then FlagsError
        else case split_eq name of (name, v) \<Rightarrow>
          (case formal name of
             None \<Rightarrow> unknown_flag name
           | Some k \<Rightarrow>
               (case v of
                  Some v \<Rightarrow> if set_ok k v then flag_parse formal (vals @ [(name, v)]) args else FlagsError
                | None \<Rightarrow>
                    if k = FlagBool then flag_parse formal (vals @ [(name, str_bytes ''true'')]) args
                    else
                    (case args of
                       [] \<Rightarrow> FlagsError
                     | v # args \<Rightarrow>
                         if set_ok k v then flag_parse formal (vals @ [(name, v)]) args else FlagsError))))"

text \<open>The values a flag was set to, and the final value of a flag that is not a list.\<close>

definition flag_values :: "(bytes \<times> bytes) list \<Rightarrow> bytes \<Rightarrow> bytes list" where
  "flag_values vals name = map snd (filter (\<lambda>(n, v). n = name) vals)"

definition flag_value :: "(bytes \<times> bytes) list \<Rightarrow> bytes \<Rightarrow> bytes \<Rightarrow> bytes" where
  "flag_value vals name dflt = (case flag_values vals name of [] \<Rightarrow> dflt | vs \<Rightarrow> last vs)"

definition flag_int :: "(bytes \<times> bytes) list \<Rightarrow> bytes \<Rightarrow> int \<Rightarrow> int" where
  "flag_int vals name dflt =
     (case flag_values vals name of
        [] \<Rightarrow> dflt
      | vs \<Rightarrow> (case ParseInt (last vs) of Some n \<Rightarrow> n | None \<Rightarrow> dflt))"

definition flag_bool :: "(bytes \<times> bytes) list \<Rightarrow> bytes \<Rightarrow> bool \<Rightarrow> bool" where
  "flag_bool vals name dflt =
     (case flag_values vals name of
        [] \<Rightarrow> dflt
      | vs \<Rightarrow> (case ParseBool (last vs) of Some b \<Rightarrow> b | None \<Rightarrow> dflt))"

subsection \<open>Lemmas\<close>

lemma HasPrefix_iff: "HasPrefix s p \<longleftrightarrow> (\<exists>t. s = p @ t)"
  by (auto simp: HasPrefix_def) (metis append_take_drop_id)

lemma Split_ne [simp]: "Split s sep \<noteq> []"
  by (induction s) (auto split: list.splits)

end
