(* ===== verification/Wire_Validate.thy ===== *)
theory Wire_Validate
  imports Wire_Cert Go_Std
begin

text \<open>
  \<open>wire/validate.go\<close>: the clock-free certificate checks and the verification of a
  detached receipt. The checks run in the code's order and return the first failure.
\<close>

abbreviation ApproverQuorum :: nat where "ApproverQuorum \<equiv> 2"
abbreviation MaxPrivilegedLifetimeMS :: uint64 where "MaxPrivilegedLifetimeMS \<equiv> 2592000000"

definition CheckRoleConstraints :: "byte \<Rightarrow> unit result" where
  "CheckRoleConstraints roleBits =
     (let agent = (roleBits AND RoleAgent \<noteq> 0);
          approver = (roleBits AND RoleApprover \<noteq> 0);
          executor = (roleBits AND RoleExecutor \<noteq> 0)
      in if (agent \<and> approver) \<or> (agent \<and> executor) \<or> (approver \<and> executor)
         then Inl ErrRolePairForbidden else Inr ())"

fun chain_loop :: "crypto \<Rightarrow> bytes \<Rightarrow> bytes list \<Rightarrow> CAPair list \<Rightarrow> unit result" where
  "chain_loop cr tbs trusted [] = Inr ()"
| "chain_loop cr tbs trusted (p # ps) =
     rbind (VerifySigned cr DomainCert tbs (ca_Sig p) (ca_Key p)) (\<lambda>_.
       if \<not> inSet (ca_Key p) trusted then Inl ErrUntrustedCA
       else chain_loop cr tbs trusted ps)"

definition ValidateCertChainNoClock :: "crypto \<Rightarrow> Cert \<Rightarrow> bytes list \<Rightarrow> unit result" where
  "ValidateCertChainNoClock cr cert trusted =
     rbind (CheckRoleConstraints (cert_RoleBits cert)) (\<lambda>_.
     if cert_RoleBits cert AND RoleApprover \<noteq> 0 \<and> unat (cert_CASigCount cert) < ApproverQuorum
     then Inl ErrApproverNoQuorum
     else if cert_RoleBits cert AND (RoleApprover OR RoleExecutor) \<noteq> 0 \<and>
             cert_NotAfter cert - cert_NotBefore cert > MaxPrivilegedLifetimeMS
     then Inl ErrCertTooLongLived
     else rbind (CAPairs cert) (\<lambda>ps. chain_loop cr (cert_TBS cert) trusted ps))"

definition VerifyReceipt :: "crypto \<Rightarrow> Span \<Rightarrow> Cert \<Rightarrow> bytes list \<Rightarrow> unit result" where
  "VerifyReceipt cr span cert trusted =
     rbind (Span_VerifySig cr span) (\<lambda>_.
     rbind (ValidateCertChainNoClock cr cert trusted) (\<lambda>_.
     if cert_RoleBits cert AND RoleExecutor = 0 then Inl ErrNoExecutorRole
     else if cert_SigPubkey cert \<noteq> span_Executor span then Inl ErrNotSpanSigner
     else
       let fp = Fingerprint cr (cert_SigPubkey cert);
           want = str_bytes ''bol:'' @ fp @ str_bytes ''/''
       in if \<not> HasPrefix (span_ResourceID span) want then Inl ErrResourceFingerprint
          else Inr ()))"

subsection \<open>What acceptance means\<close>

text \<open>The role bits are bits 1 (agent), 2 (executor) and 3 (approver) of the byte.\<close>

definition has_role :: "byte \<Rightarrow> byte \<Rightarrow> bool" where
  "has_role bits r \<longleftrightarrow> bits AND r \<noteq> 0"

definition roles_separated :: "byte \<Rightarrow> bool" where
  "roles_separated bits \<longleftrightarrow>
     length (filter (has_role bits) [RoleAgent, RoleExecutor, RoleApprover]) \<le> 1"

definition chain_accepts :: "crypto \<Rightarrow> Cert \<Rightarrow> bytes list \<Rightarrow> bool" where
  "chain_accepts cr ct trusted \<longleftrightarrow>
     roles_separated (cert_RoleBits ct) \<and>
     (has_role (cert_RoleBits ct) RoleApprover \<longrightarrow> length (cert_pairs ct) \<ge> ApproverQuorum) \<and>
     (has_role (cert_RoleBits ct) RoleApprover \<or> has_role (cert_RoleBits ct) RoleExecutor \<longrightarrow>
        unat (cert_NotAfter ct - cert_NotBefore ct) \<le> 2592000000) \<and>
     (\<forall>p \<in> set (cert_pairs ct). ca_Key p \<in> set trusted \<and>
        ed_verify cr (ca_Key p) (DomainCert # cert_TBS ct) (ca_Sig p))"

lemma CheckRoleConstraints_iff: "CheckRoleConstraints b = Inr () \<longleftrightarrow> roles_separated b"
  by (simp add: CheckRoleConstraints_def roles_separated_def has_role_def)

lemma chain_loop_iff:
  "list_all ca_sized ps \<Longrightarrow>
   chain_loop cr tbs trusted ps = Inr () \<longleftrightarrow>
     (\<forall>p \<in> set ps. ca_Key p \<in> set trusted \<and> ed_verify cr (ca_Key p) (DomainCert # tbs) (ca_Sig p))"
  by (induction ps) (auto simp: rbind_eq_Inr VerifySigned_ok_iff ca_sized_def)

lemma approver_or_executor:
  "b AND (RoleApprover OR RoleExecutor) \<noteq> 0 \<longleftrightarrow> has_role b RoleApprover \<or> has_role b RoleExecutor"
proof -
  have "b AND (RoleApprover OR RoleExecutor) = (b AND RoleApprover) OR (b AND RoleExecutor)"
    by (rule bit.conj_disj_distrib)
  then show ?thesis by (simp only: has_role_def or_eq_0_iff de_Morgan_conj)
qed

lemma chain_accepts_iff:
  assumes "cert_ok ct"
  shows "ValidateCertChainNoClock cr ct trusted = Inr () \<longleftrightarrow> chain_accepts cr ct trusted"
  unfolding ValidateCertChainNoClock_def chain_accepts_def approver_or_executor
  using cert_pairs_props [OF assms]
  by (auto simp: rbind_eq_Inr CheckRoleConstraints_iff CAPairs_ok [OF assms] chain_loop_iff has_role_def
      word_less_nat_alt split: if_splits)

lemma chain_loop_error:
  "chain_loop cr tbs ts ps = Inl e \<Longrightarrow> e \<in> {ErrMalformedKey, ErrBadSignature, ErrUntrustedCA}"
  by (induction ps) (auto simp: rbind_eq_Inl dest: VerifySigned_error split: if_splits)

lemma ValidateCertChainNoClock_no_panic:
  assumes "cert_ok ct" and "ValidateCertChainNoClock cr ct ts = Inl e"
  shows "\<not> is_panic e"
  using assms(2)
  by (auto simp: ValidateCertChainNoClock_def CheckRoleConstraints_def CAPairs_ok [OF assms(1)]
      rbind_eq_Inl Let_def is_panic_def dest: chain_loop_error split: if_splits)

lemma VerifyReceipt_no_panic:
  assumes "cert_ok ct"
  shows "no_panic (VerifyReceipt cr span ct ts)"
proof -
  have "no_panic (ValidateCertChainNoClock cr ct ts)"
    using ValidateCertChainNoClock_no_panic [OF assms] by (auto simp: no_panic_def)
  then show ?thesis
    unfolding VerifyReceipt_def Span_VerifySig_def Let_def by (intro panic_free) (simp_all add: is_panic_def)
qed

lemma ref_verify [simp]: "ed_verify ref_crypto p m (ed_sign ref_crypto (key32 x @ p) m)"
  by (simp add: ref_crypto_def)

lemma demo_cert_sel [simp]:
  "cert_RoleBits (demo_cert r k) = r" "cert_TBS (demo_cert r k) = demo_tbs r k"
  "cert_SigPubkey (demo_cert r k) = k" "cert_Version (demo_cert r k) = 2"
  "cert_NotBefore (demo_cert r k) = 1000" "cert_NotAfter (demo_cert r k) = 2592001000"
  by (simp_all add: demo_cert_def cert_of_def demo_cert_fields_def)

lemma demo_cert_accepted:
  assumes "length k = 32" and "roles_separated r"
  shows "chain_accepts ref_crypto (demo_cert r k) [key32 1, key32 2]"
    and "ValidateCertChainNoClock ref_crypto (demo_cert r k) [key32 1, key32 2] = Inr ()"
  using assms chain_accepts_iff [OF demo_cert_ok(1) [OF assms(1)]]
  by (simp_all add: chain_accepts_def demo_cert_ok(2) demo_pairs_def mint_pair_def)

lemma separated_roles [simp]:
  "roles_separated RoleAgent" "roles_separated RoleExecutor" "roles_separated RoleApprover"
  by (simp_all add: roles_separated_def has_role_def)

lemma VerifyReceipt_ok_iff:
  assumes s: "span_ok span" and ct: "cert_ok ct"
  shows "VerifyReceipt cr span ct trusted = Inr () \<longleftrightarrow>
     ed_verify cr (span_Executor span) (DomainSpan # span_TBS span) (span_Sig span) \<and>
     chain_accepts cr ct trusted \<and> has_role (cert_RoleBits ct) RoleExecutor \<and>
     cert_SigPubkey ct = span_Executor span \<and>
     (\<exists>rest. span_ResourceID span =
        str_bytes ''bol:'' @ Fingerprint cr (span_Executor span) @ str_bytes ''/'' @ rest)"
proof -
  have "length (span_Executor span) = PublicKeySize" "length (span_Sig span) = SignatureSize"
    using s by (simp_all add: span_ok_def)
  then show ?thesis
    by (auto simp: VerifyReceipt_def rbind_eq_Inr Span_VerifySig_def VerifySigned_ok_iff
        chain_accepts_iff [OF ct] has_role_def HasPrefix_iff Let_def)
qed

subsection \<open>Properties\<close>

text \<open>
  C3: What a verified receipt proves. For a span and a certificate that were parsed,
  \<open>VerifyReceipt\<close> accepts exactly when the span's signature verifies under its executor
  key in the span domain, the certificate is accepted clock-free against the trusted CAs,
  it carries the executor role, its key is the span's executor, and the resource id
  starts with \<open>bol:<fingerprint of that key>/\<close>.
\<close>

theorem VerifyReceipt_iff:
  assumes "ParseSpan sb = Inr span" and "ParseCert cb = Inr ct"
  shows "VerifyReceipt cr span ct trusted = Inr () \<longleftrightarrow>
     ed_verify cr (span_Executor span) (DomainSpan # span_TBS span) (span_Sig span) \<and>
     chain_accepts cr ct trusted \<and> has_role (cert_RoleBits ct) RoleExecutor \<and>
     cert_SigPubkey ct = span_Executor span \<and>
     (\<exists>rest. span_ResourceID span =
        str_bytes ''bol:'' @ Fingerprint cr (span_Executor span) @ str_bytes ''/'' @ rest)"
  using assms by (intro VerifyReceipt_ok_iff) (simp_all add: spanc.parse_iff certc.parse_iff)

lemma ref_Fingerprint: "Fingerprint ref_crypto (key32 0x5d) = str_bytes ''5d5d5d5d5d5d5d5d''"
  by code_simp

lemma demo_receipt_fields:
  "span_Executor demo_parsed_span = key32 0x5d"
  "span_ResourceID demo_parsed_span = str_bytes ''bol:'' @ Fingerprint ref_crypto (key32 0x5d) @
     str_bytes ''/'' @ str_bytes ''job/42''"
  "ed_verify ref_crypto (key32 0x5d) (DomainSpan # span_TBS demo_parsed_span) (span_Sig demo_parsed_span)"
  by (simp_all add: demo_parsed_span_def span_of_def demo_span_def ref_Fingerprint Let_def)
    (simp_all add: str_bytes_def)

lemma demo_receipt_accepted: "VerifyReceipt ref_crypto demo_parsed_span exec_cert [key32 1, key32 2] = Inr ()"
  using VerifyReceipt_ok_iff [OF demo_parsed_span_ok exec_cert_ok(1)] demo_receipt_fields
    demo_cert_accepted(1) [of "key32 0x5d" RoleExecutor]
  by (simp add: has_role_def)

theorem VerifyReceipt_iff_witness:
  "VerifyReceipt ref_crypto demo_parsed_span exec_cert [key32 1, key32 2] = Inr () \<and>
   VerifyReceipt ref_crypto demo_parsed_span exec_cert [key32 1] \<noteq> Inr ()"
proof -
  have "\<not> chain_accepts ref_crypto exec_cert [key32 1]"
    by (simp add: chain_accepts_def exec_cert_ok(2) demo_pairs_def mint_pair_def)
  then show ?thesis
    using VerifyReceipt_iff [OF spanc.parse_enc [OF demo_parsed_span_ok] exec_cert_ok(3), of ref_crypto]
      demo_cert_accepted(1) [of "key32 0x5d" RoleExecutor] demo_receipt_fields
    by (simp add: has_role_def)
qed

text \<open>
  C18: What the clock-free chain check admits. A parsed certificate passes exactly when at
  most one of the roles agent, executor and approver is set, an approver has at least
  two CA entries, the wrapping difference of a privileged certificate's window is at most
  thirty days, and every CA entry is by a trusted key and verifies over the certificate's
  to-be-signed bytes. It never panics.
\<close>

theorem ValidateCertChainNoClock_iff:
  assumes "ParseCert b = Inr ct"
  shows "(ValidateCertChainNoClock cr ct trusted = Inr () \<longleftrightarrow> chain_accepts cr ct trusted) \<and>
         (ValidateCertChainNoClock cr ct trusted = Inl e \<longrightarrow> \<not> is_panic e)"
proof -
  have ct: "cert_ok ct" using assms by (simp add: certc.parse_iff)
  show ?thesis using chain_accepts_iff [OF ct] ValidateCertChainNoClock_no_panic [OF ct] by blast
qed

theorem ValidateCertChainNoClock_iff_witness:
  "ValidateCertChainNoClock ref_crypto exec_cert [key32 1, key32 2] = Inr () \<and>
   ValidateCertChainNoClock ref_crypto exec_cert [key32 1] \<noteq> Inr ()"
proof -
  have "chain_accepts ref_crypto exec_cert ts \<longleftrightarrow> {key32 1, key32 2} \<subseteq> set ts" for ts
    by (simp add: chain_accepts_def exec_cert_ok(2) demo_pairs_def mint_pair_def)
  then show ?thesis using ValidateCertChainNoClock_iff [OF exec_cert_ok(3), of ref_crypto] by simp
qed

text \<open>
  C12: Two-person rule. An accepted approver certificate was signed, over its own
  to-be-signed bytes, by at least two different keys of the trusted set.
\<close>

theorem approver_quorum:
  assumes "ParseCert b = Inr ct" and "ValidateCertChainNoClock cr ct trusted = Inr ()"
    and "has_role (cert_RoleBits ct) RoleApprover"
  shows "\<exists>K. K \<subseteq> set trusted \<and> card K \<ge> 2 \<and>
             (\<forall>k \<in> K. \<exists>sig. VerifySigned cr DomainCert (cert_TBS ct) sig k = Inr ())"
proof -
  have ct: "cert_ok ct" using assms(1) by (simp add: certc.parse_iff)
  have acc: "chain_accepts cr ct trusted" using assms(2) chain_accepts_iff [OF ct] by blast
  let ?K = "ca_Key ` set (cert_pairs ct)"
  have "distinct (map ca_Key (cert_pairs ct))"
    using cert_pairs_props(4) [OF ct] by (simp add: ca_asc_sorted_wrt sorted_keys_distinct)
  then have "card ?K = length (cert_pairs ct)"
    using distinct_card [of "map ca_Key (cert_pairs ct)"] by simp
  then have "card ?K \<ge> 2" using acc assms(3) by (simp add: chain_accepts_def)
  moreover have "?K \<subseteq> set trusted" using acc by (auto simp: chain_accepts_def)
  moreover have "VerifySigned cr DomainCert (cert_TBS ct) (ca_Sig p) (ca_Key p) = Inr ()"
    if "p \<in> set (cert_pairs ct)" for p
    using that acc cert_pairs_props(2) [OF ct]
    by (auto simp: chain_accepts_def VerifySigned_ok_iff list_all_iff ca_sized_def)
  ultimately show ?thesis by (intro exI [of _ ?K]) blast
qed

theorem approver_quorum_witness:
  "\<exists>K. K \<subseteq> {key32 1, key32 2} \<and> card K \<ge> 2 \<and>
       (\<forall>k \<in> K. \<exists>sig. VerifySigned ref_crypto DomainCert (demo_tbs RoleApprover (key32 6)) sig k = Inr ())"
  using approver_quorum [OF demo_cert_ok(3) demo_cert_accepted(2), of "key32 6" RoleApprover]
  by (simp add: has_role_def)

lemma mint_pair_ok:
  assumes "ed25519_laws cr" and "length seed = SeedSize"
  shows "ca_sized (mint_pair cr tbs seed)"
    and "ed_verify cr (ca_Key (mint_pair cr tbs seed)) (DomainCert # tbs) (ca_Sig (mint_pair cr tbs seed))"
    and "ca_Key (mint_pair cr tbs seed) = ed_pub cr seed"
  using assms by (simp_all add: mint_pair_def ed25519_lawsD)

text \<open>
  C26: Minted certificates are accepted. When CAs with 32-byte seeds sign the
  to-be-signed bytes and the entries pass \<open>AppendCertSignatures\<close>, the certificate parses
  back to the fields and is accepted by a verifier that trusts those CAs, provided the
  fields separate the roles, an approver has two signers and a privileged window is at
  most thirty days.
\<close>

theorem minted_cert_accepted:
  assumes "ed25519_laws cr" and "cert_arrays f" and "EncodeCertTBS f = Inr tbs"
    and "list_all (\<lambda>s. length s = SeedSize) seeds"
    and "AppendCertSignatures tbs (map (mint_pair cr tbs) seeds) = Inr w"
    and "roles_separated (cf_RoleBits f)"
    and "has_role (cf_RoleBits f) RoleApprover \<longrightarrow> 2 \<le> length seeds"
    and "has_role (cf_RoleBits f) RoleApprover \<or> has_role (cf_RoleBits f) RoleExecutor \<longrightarrow>
         unat (cf_NotAfter f - cf_NotBefore f) \<le> 2592000000"
    and "set (map (ed_pub cr) seeds) \<subseteq> set trusted"
  shows "\<exists>ct. ParseCert w = Inr ct \<and> ct = cert_of f tbs (map (mint_pair cr tbs) seeds) \<and>
              ValidateCertChainNoClock cr ct trusted = Inr ()"
proof -
  let ?ct = "cert_of f tbs (map (mint_pair cr tbs) seeds)"
  have ct: "cert_ok ?ct" "enc_cert ?ct = w" "cert_pairs ?ct = map (mint_pair cr tbs) seeds"
    using cert_of_ok [OF assms(2,3,5)] by auto
  have "chain_accepts cr ?ct trusted"
    unfolding chain_accepts_def ct(3)
    using assms(4,6-9) mint_pair_ok [OF assms(1)] by (auto simp: cert_of_def list_all_iff)
  then show ?thesis using ct(1,2) chain_accepts_iff [OF ct(1)] by (auto simp: certc.parse_iff)
qed

theorem minted_cert_accepted_witness:
  "\<exists>ct. ParseCert (enc_cert exec_cert) = Inr ct \<and> ct = exec_cert \<and>
        ValidateCertChainNoClock ref_crypto ct [key32 1, key32 2] = Inr ()"
proof -
  let ?f = "demo_cert_fields RoleExecutor (key32 0x5d)" and ?tbs = "demo_tbs RoleExecutor (key32 0x5d)"
  have f: "cert_arrays ?f \<and> EncodeCertTBS ?f = Inr ?tbs" by (simp add: demo_cert_fields_ok)
  have w: "AppendCertSignatures ?tbs (demo_pairs ?tbs) = Inr (enc_cert exec_cert)"
    using cert_of_ok [OF conjunct1 [OF f] conjunct2 [OF f] demo_pairs_ok] demo_pairs_ok
    by (simp add: demo_cert_def)
  show ?thesis
    using minted_cert_accepted [OF ref_ed25519 conjunct1 [OF f] conjunct2 [OF f],
        of "[key32 0x5b, key32 0x58]" "enc_cert exec_cert" "[key32 1, key32 2]"] w
    by (simp add: demo_cert_def demo_pairs_def demo_cert_fields_def)
qed

end
