(* ===== verification/Wire_GrantChain.thy ===== *)
theory Wire_GrantChain
  imports Wire_Grant Wire_Validate
begin

text \<open>
  \<open>wire/grantchain.go\<close>: the authority decision. \<open>VerifyGrant\<close> runs the checks in the
  code's order. A nil certificate or pending intent dereferences nil (\<open>PanicNil\<close>); a
  panic inside a validation call is not turned into the check's error, an error is
  (\<open>refuse_with\<close>).

  The reference definition is \<open>grant_checks\<close>, the normative list of conditions with
  their errors; \<open>VerifyGrant\<close> is shown to return the error of the first condition that
  fails. The expiry test is computed on wrapping 64-bit integers and related to the
  conditions on the integers themselves; the scope walk is shown to test exactly the
  ancestors of the resource at \<open>/\<close> boundaries.
\<close>

record PendingIntent =
  pend_IntentID :: bytes
  pend_Sender :: bytes
  pend_ResourceID :: bytes
  pend_Action :: bytes

record GrantContext =
  ctx_EnvelopeBodyType :: byte
  ctx_EnvelopeSender :: bytes
  ctx_OwnPubkey :: bytes
  ctx_TrustedCAs :: "bytes list"
  ctx_ApproverCert :: "Cert option"
  ctx_SubjectCert :: "Cert option"
  ctx_Pending :: "PendingIntent option"
  ctx_NowMS :: uint64
  ctx_FirstReceipt :: uint64
  ctx_TMaxSeconds :: uint64
  ctx_TRecvSeconds :: uint64
  ctx_IsRevoked :: "(bytes \<Rightarrow> bool) option"

definition checkExpiry :: "uint64 \<Rightarrow> uint64 \<Rightarrow> uint64 \<Rightarrow> uint64 \<Rightarrow> uint64 \<Rightarrow> unit result" where
  "checkExpiry notAfter nowMS firstReceiptMS tMaxS tRecvS =
     (let tMaxMS = tMaxS * 1000; tRecvMS = tRecvS * 1000
      in if nowMS \<ge> notAfter then Inl ErrExpired
         else if notAfter > firstReceiptMS + tMaxMS then Inl ErrExpired
         else if nowMS > firstReceiptMS + tRecvMS then Inl ErrExpired
         else Inr ())"

definition ValidateCert :: "crypto \<Rightarrow> Cert \<Rightarrow> bytes list \<Rightarrow> uint64 \<Rightarrow> unit result" where
  "ValidateCert cr cert trusted nowMS =
     rbind (ValidateCertChainNoClock cr cert trusted) (\<lambda>_.
       if nowMS < cert_NotBefore cert \<or> nowMS \<ge> cert_NotAfter cert
       then Inl ErrOutsideValidity else Inr ())"

subsection \<open>Scopes\<close>

fun scope_ids_loop :: "bytes \<Rightarrow> bytes \<Rightarrow> nat \<Rightarrow> nat \<Rightarrow> bool result" where
  "scope_ids_loop ids scope i 0 = Inr False"
| "scope_ids_loop ids scope i (Suc n) =
     (let off = i * LenScopeID in
      rbind (go_slice ids off (off + LenScopeID)) (\<lambda>s.
        if s = scope then Inr True else scope_ids_loop ids scope (Suc i) n))"

definition certCarriesScope :: "Cert \<Rightarrow> bytes \<Rightarrow> bool result" where
  "certCarriesScope cert scope =
     scope_ids_loop (cert_ScopeIDs cert) scope 0 (unat (cert_ScopeCount cert))"

abbreviation slash :: byte where "slash \<equiv> 0x2f"

text \<open>The inner loop: the largest \<open>newEnd \<le> end\<close> that is 0 or has a slash just before it.\<close>

fun strip_segment :: "bytes \<Rightarrow> nat \<Rightarrow> nat" where
  "strip_segment r 0 = 0"
| "strip_segment r (Suc n) = (if r ! n \<noteq> slash then strip_segment r n else Suc n)"

lemma strip_segment_le: "strip_segment r n \<le> n"
  by (induction n) auto

function scope_walk :: "crypto \<Rightarrow> Cert \<Rightarrow> bytes \<Rightarrow> nat \<Rightarrow> bool result" where
  "scope_walk cr cert r en =
     (if en > 0 then
        rbind (certCarriesScope cert (take 8 (Blake2s256 cr (take en r)))) (\<lambda>b.
          if b then Inr True
          else let newEnd = strip_segment r en in
               if newEnd = 0 then Inr False else scope_walk cr cert r (newEnd - 1))
      else Inr False)"
  by pat_completeness auto
termination
proof (relation "measure (\<lambda>(cr, cert, r, en). en)")
  fix cr :: crypto and cert :: Cert and r :: bytes and en x newEnd :: nat
  assume "0 < en" and "newEnd = strip_segment r en" and "newEnd \<noteq> 0"
  then show "((cr, cert, r, newEnd - 1), cr, cert, r, en) \<in> measure (\<lambda>(cr, cert, r, en). en)"
    using strip_segment_le [of r en] by simp
qed simp

declare scope_walk.simps [simp del]

definition scopeCoversResource :: "crypto \<Rightarrow> Cert \<Rightarrow> bytes \<Rightarrow> bool result" where
  "scopeCoversResource cr cert resourceID = scope_walk cr cert resourceID (length resourceID)"

subsection \<open>The chain of checks\<close>

text \<open>\<open>if f() != nil { return e }\<close>\<close>

definition refuse_with :: "go_error \<Rightarrow> unit result \<Rightarrow> unit result" where
  "refuse_with e m = (case m of Inl x \<Rightarrow> Inl (if is_panic x then x else e) | Inr _ \<Rightarrow> Inr ())"

definition deref :: "'a option \<Rightarrow> 'a result" where
  "deref p = (case p of None \<Rightarrow> Inl PanicNil | Some x \<Rightarrow> Inr x)"

definition check :: "bool \<Rightarrow> go_error \<Rightarrow> unit result \<Rightarrow> unit result" where
  "check refuse e rest = (if refuse then Inl e else rest)"

definition revoked :: "GrantContext \<Rightarrow> bytes \<Rightarrow> bool" where
  "revoked ctx k = (case ctx_IsRevoked ctx of None \<Rightarrow> False | Some f \<Rightarrow> f k)"

text \<open>\<open>cert.Version >= 3 && !scopeCoversResource(cert, resource)\<close>\<close>

definition out_of_scope :: "crypto \<Rightarrow> Cert \<Rightarrow> bytes \<Rightarrow> bool result" where
  "out_of_scope cr cert resourceID =
     (if cert_Version cert \<ge> 3
      then rbind (scopeCoversResource cr cert resourceID) (\<lambda>b. Inr (\<not> b)) else Inr False)"

definition VerifyGrant :: "crypto \<Rightarrow> Grant \<Rightarrow> GrantContext \<Rightarrow> unit result" where
  "VerifyGrant cr g ctx =
     check (grant_Version g \<noteq> 2) ErrBadVersion (
     check (ctx_EnvelopeBodyType ctx \<noteq> BodyGrant \<or> ctx_EnvelopeSender ctx \<noteq> grant_Approver g)
       ErrBadEnvelopeBinding (
     rbind (refuse_with ErrGrantBadSignature
       (VerifySigned cr DomainGrant (grant_TBS g) (grant_Sig g) (grant_Approver g))) (\<lambda>_.
     rbind (deref (ctx_ApproverCert ctx)) (\<lambda>acert.
     rbind (refuse_with ErrBadApproverCert
       (ValidateCert cr acert (ctx_TrustedCAs ctx) (ctx_NowMS ctx))) (\<lambda>_.
     check (cert_RoleBits acert AND RoleApprover = 0) ErrBadApproverCert (
     check (cert_SigPubkey acert \<noteq> grant_Approver g) ErrBadApproverCert (
     check (revoked ctx (cert_SigPubkey acert)) ErrApproverRevoked (
     rbind (out_of_scope cr acert (grant_ResourceID g)) (\<lambda>out.
     check out ErrApproverOutOfScope (
     rbind (deref (ctx_SubjectCert ctx)) (\<lambda>scert.
     rbind (refuse_with ErrBadSubjectCert
       (ValidateCert cr scert (ctx_TrustedCAs ctx) (ctx_NowMS ctx))) (\<lambda>_.
     check (cert_RoleBits scert AND RoleAgent = 0) ErrBadSubjectCert (
     check (cert_SigPubkey scert \<noteq> grant_Subject g) ErrBadSubjectCert (
     check (revoked ctx (cert_SigPubkey scert)) ErrSubjectRevoked (
     rbind (out_of_scope cr scert (grant_ResourceID g)) (\<lambda>out.
     check out ErrSubjectOutOfScope (
     check (grant_Executor g \<noteq> ctx_OwnPubkey ctx) ErrWrongExecutor (
     rbind (deref (ctx_Pending ctx)) (\<lambda>pend.
     check (grant_Subject g \<noteq> pend_Sender pend) ErrWrongSubject (
     check (grant_IntentID g \<noteq> pend_IntentID pend) ErrNoMatchingIntent (
     check (grant_ResourceID g \<noteq> pend_ResourceID pend) ErrWrongResource (
     let d = Blake2s256 cr (pend_Action pend) in
     check (grant_ActionDigest g \<noteq> d) ErrActionDigestMismatch (
     rbind (checkExpiry (grant_NotAfter g) (ctx_NowMS ctx) (ctx_FirstReceipt ctx)
              (ctx_TMaxSeconds ctx) (ctx_TRecvSeconds ctx)) (\<lambda>_. Inr ()))))))))))))))))))))))))"

subsection \<open>Reference definitions\<close>

text \<open>The scope ids of a certificate, and the ancestors of a resource id at slash boundaries.\<close>

definition scope_ids :: "Cert \<Rightarrow> bytes list" where
  "scope_ids ct = pieces LenScopeID (unat (cert_ScopeCount ct)) (cert_ScopeIDs ct)"

definition ancestor_end :: "bytes \<Rightarrow> nat \<Rightarrow> bool" where
  "ancestor_end r e \<longleftrightarrow> 0 < e \<and> e \<le> length r \<and> (e < length r \<longrightarrow> r ! e = slash)"

definition ancestors :: "bytes \<Rightarrow> bytes list" where
  "ancestors r = map (\<lambda>e. take e r) (filter (ancestor_end r) [0..<Suc (length r)])"

definition in_scope :: "crypto \<Rightarrow> Cert \<Rightarrow> bytes \<Rightarrow> bool" where
  "in_scope cr ct r \<longleftrightarrow> list_ex (\<lambda>p. take 8 (blake2s_Sum256 cr p) \<in> set (scope_ids ct)) (ancestors r)"

definition valid_now :: "crypto \<Rightarrow> Cert \<Rightarrow> bytes list \<Rightarrow> uint64 \<Rightarrow> bool" where
  "valid_now cr ct trusted now \<longleftrightarrow>
     chain_accepts cr ct trusted \<and> cert_NotBefore ct \<le> now \<and> now < cert_NotAfter ct"

text \<open>The checks 0 to 10 in their normative order, each with the error that names it.\<close>

definition grant_checks ::
    "crypto \<Rightarrow> Grant \<Rightarrow> GrantContext \<Rightarrow> Cert \<Rightarrow> Cert \<Rightarrow> PendingIntent \<Rightarrow> (bool \<times> go_error) list" where
  "grant_checks cr g ctx acert scert pend =
     [(grant_Version g = 2, ErrBadVersion),
      (ctx_EnvelopeBodyType ctx = BodyGrant \<and> ctx_EnvelopeSender ctx = grant_Approver g,
       ErrBadEnvelopeBinding),
      (length (grant_Approver g) = 32 \<and> length (grant_Sig g) = 64 \<and>
       ed_verify cr (grant_Approver g) (DomainGrant # grant_TBS g) (grant_Sig g),
       ErrGrantBadSignature),
      (valid_now cr acert (ctx_TrustedCAs ctx) (ctx_NowMS ctx), ErrBadApproverCert),
      (has_role (cert_RoleBits acert) RoleApprover, ErrBadApproverCert),
      (cert_SigPubkey acert = grant_Approver g, ErrBadApproverCert),
      (\<not> revoked ctx (cert_SigPubkey acert), ErrApproverRevoked),
      (cert_Version acert < 3 \<or> in_scope cr acert (grant_ResourceID g), ErrApproverOutOfScope),
      (valid_now cr scert (ctx_TrustedCAs ctx) (ctx_NowMS ctx), ErrBadSubjectCert),
      (has_role (cert_RoleBits scert) RoleAgent, ErrBadSubjectCert),
      (cert_SigPubkey scert = grant_Subject g, ErrBadSubjectCert),
      (\<not> revoked ctx (cert_SigPubkey scert), ErrSubjectRevoked),
      (cert_Version scert < 3 \<or> in_scope cr scert (grant_ResourceID g), ErrSubjectOutOfScope),
      (grant_Executor g = ctx_OwnPubkey ctx, ErrWrongExecutor),
      (grant_Subject g = pend_Sender pend, ErrWrongSubject),
      (grant_IntentID g = pend_IntentID pend, ErrNoMatchingIntent),
      (grant_ResourceID g = pend_ResourceID pend, ErrWrongResource),
      (grant_ActionDigest g = blake2s_Sum256 cr (pend_Action pend), ErrActionDigestMismatch),
      (checkExpiry (grant_NotAfter g) (ctx_NowMS ctx) (ctx_FirstReceipt ctx)
         (ctx_TMaxSeconds ctx) (ctx_TRecvSeconds ctx) = Inr (), ErrExpired)]"

fun first_failure :: "(bool \<times> go_error) list \<Rightarrow> unit result" where
  "first_failure [] = Inr ()"
| "first_failure ((holds, e) # cs) = (if holds then first_failure cs else Inl e)"

lemma first_failure_ok_iff: "first_failure cs = Inr () \<longleftrightarrow> list_all fst cs"
  by (induction cs rule: first_failure.induct) auto

subsection \<open>The scope walk\<close>

lemma scope_ids_loop_iff:
  "length ids = (i + n) * 8 \<Longrightarrow>
   scope_ids_loop ids s i n = Inr (\<exists>j \<in> {i..<i + n}. take 8 (drop (j * 8) ids) = s)"
proof (induction n arbitrary: i)
  case 0
  then show ?case by simp
next
  case (Suc n)
  have split: "{i..<i + Suc n} = insert i {Suc i..<Suc i + n}" by auto
  have "scope_ids_loop ids s (Suc i) n = Inr (\<exists>j \<in> {Suc i..<Suc i + n}. take 8 (drop (j * 8) ids) = s)"
    using Suc by simp
  then show ?case using Suc.prems unfolding split by (simp add: Let_def subslice_def)
qed

lemma certCarriesScope_iff:
  "cert_ok ct \<Longrightarrow> certCarriesScope ct s = Inr (s \<in> set (scope_ids ct))"
  by (auto simp: certCarriesScope_def cert_ok_def scope_ids_loop_iff scope_ids_def pieces_def)

lemma strip_segment_spec:
  assumes "n \<le> length r"
  shows "(strip_segment r n = 0 \<longrightarrow> (\<forall>j < n. r ! j \<noteq> slash)) \<and>
         (strip_segment r n \<noteq> 0 \<longrightarrow> r ! (strip_segment r n - 1) = slash \<and>
            (\<forall>j < n. strip_segment r n \<le> j \<longrightarrow> r ! j \<noteq> slash))"
  using assms
proof (induction n)
  case (Suc n)
  then show ?case using less_Suc_eq by auto
qed simp

lemma scope_walk_iff:
  assumes "cert_ok ct"
  shows "en \<le> length r \<Longrightarrow> scope_walk cr ct r en =
    Inr (\<exists>e. 0 < e \<and> e \<le> en \<and> (e = en \<or> r ! e = slash) \<and>
             take 8 (blake2s_Sum256 cr (take e r)) \<in> set (scope_ids ct))"
proof (induction en rule: less_induct)
  case (less en)
  let ?hit = "\<lambda>e. take 8 (blake2s_Sum256 cr (take e r)) \<in> set (scope_ids ct)"
  let ?s = "strip_segment r en"
  note carries = certCarriesScope_iff [OF assms] Blake2s256_def
  have le: "?s \<le> en" by (rule strip_segment_le)
  consider "en = 0" | "en > 0" "?hit en" | "en > 0" "\<not> ?hit en" "?s = 0"
    | "en > 0" "\<not> ?hit en" "?s > 0" by blast
  then show ?case
  proof cases
    case 1
    then show ?thesis by (simp add: scope_walk.simps)
  next
    case 2
    then show ?thesis by (auto simp: scope_walk.simps [of cr ct r en] carries)
  next
    case 3
    then have "\<forall>j < en. r ! j \<noteq> slash" using strip_segment_spec [OF less.prems] by blast
    then show ?thesis using 3 by (auto simp: scope_walk.simps [of cr ct r en] carries le_less)
  next
    case 4
    have sl: "r ! (?s - 1) = slash" "\<And>j. j < en \<Longrightarrow> ?s \<le> j \<Longrightarrow> r ! j \<noteq> slash"
      using strip_segment_spec [OF less.prems] 4(3) by auto
    have "(\<exists>e. 0 < e \<and> e \<le> en \<and> (e = en \<or> r ! e = slash) \<and> ?hit e) \<longleftrightarrow>
          (\<exists>e. 0 < e \<and> e \<le> ?s - 1 \<and> (e = ?s - 1 \<or> r ! e = slash) \<and> ?hit e)" (is "?L = ?R")
    proof
      assume ?L
      then obtain e where e: "0 < e" "e \<le> en" "e = en \<or> r ! e = slash" "?hit e" by blast
      with 4(2) have "e \<noteq> en" by auto
      with e sl(2) [of e] have "e < ?s" by (metis le_neq_implies_less not_le)
      with e \<open>e \<noteq> en\<close> show ?R by (intro exI [of _ e]) auto
    next
      assume ?R
      then obtain e where e: "0 < e" "e \<le> ?s - 1" "e = ?s - 1 \<or> r ! e = slash" "?hit e" by blast
      then show ?L using sl(1) le by (intro exI [of _ e]) auto
    qed
    moreover have "scope_walk cr ct r en = scope_walk cr ct r (?s - 1)"
      using 4 by (simp add: scope_walk.simps [of cr ct r en] carries)
    moreover have "?s - 1 < en" "?s - 1 \<le> length r" using 4 le less.prems by auto
    ultimately show ?thesis using less.IH by simp
  qed
qed

lemma in_scope_iff:
  "in_scope cr ct r \<longleftrightarrow>
     (\<exists>e. 0 < e \<and> e \<le> length r \<and> (e = length r \<or> r ! e = slash) \<and>
          take 8 (blake2s_Sum256 cr (take e r)) \<in> set (scope_ids ct))"
proof -
  have "ancestor_end r e \<and> e < Suc (length r) \<longleftrightarrow> 0 < e \<and> e \<le> length r \<and> (e = length r \<or> r ! e = slash)"
    for e by (auto simp: ancestor_end_def)
  then show ?thesis by (auto simp: in_scope_def ancestors_def list_ex_iff simp del: upt_Suc)
qed

lemma scopeCoversResource_iff:
  assumes "cert_ok ct"
  shows "scopeCoversResource cr ct r = Inr (in_scope cr ct r)"
  unfolding scopeCoversResource_def scope_walk_iff [OF assms order_refl] in_scope_iff by (rule refl)

subsection \<open>The decision is the first failing check\<close>

lemma refuse_with_cases:
  assumes "\<And>x. m = Inl x \<Longrightarrow> \<not> is_panic x" and "m = Inr () \<longleftrightarrow> good"
  shows "refuse_with e m = (if good then Inr () else Inl e)"
  using assms by (cases m) (auto simp: refuse_with_def)

lemma refuse_with_VerifySigned:
  "refuse_with e (VerifySigned cr tag tbs sig pub) =
     (if length pub = PublicKeySize \<and> length sig = SignatureSize \<and> ed_verify cr pub (tag # tbs) sig
      then Inr () else Inl e)"
  by (rule refuse_with_cases [OF _ VerifySigned_ok_iff])
    (auto dest: VerifySigned_error simp: is_panic_def)

lemma ValidateCert_iff:
  "cert_ok ct \<Longrightarrow> ValidateCert cr ct ts now = Inr () \<longleftrightarrow> valid_now cr ct ts now"
  by (auto simp: ValidateCert_def rbind_eq_Inr chain_accepts_iff valid_now_def)

lemma refuse_with_ValidateCert:
  assumes "cert_ok ct"
  shows "refuse_with e (ValidateCert cr ct ts now) = (if valid_now cr ct ts now then Inr () else Inl e)"
  using ValidateCertChainNoClock_no_panic [OF assms]
  by (intro refuse_with_cases [OF _ ValidateCert_iff [OF assms]])
    (auto simp: ValidateCert_def rbind_eq_Inl is_panic_def split: if_splits)

lemma out_of_scope_iff:
  "cert_ok ct \<Longrightarrow> out_of_scope cr ct r = Inr (\<not> (cert_Version ct < 3 \<or> in_scope cr ct r))"
  by (simp add: out_of_scope_def scopeCoversResource_iff not_less)

lemma checkExpiry_cases:
  "checkExpiry a b c d e = Inr () \<or> checkExpiry a b c d e = Inl ErrExpired"
  by (simp add: checkExpiry_def Let_def)

lemma VerifyGrant_first_failure:
  assumes a: "ctx_ApproverCert ctx = Some acert" "cert_ok acert"
    and s: "ctx_SubjectCert ctx = Some scert" "cert_ok scert"
    and p: "ctx_Pending ctx = Some pend"
  shows "VerifyGrant cr g ctx = first_failure (grant_checks cr g ctx acert scert pend)"
  using checkExpiry_cases [of "grant_NotAfter g" "ctx_NowMS ctx" "ctx_FirstReceipt ctx"
      "ctx_TMaxSeconds ctx" "ctx_TRecvSeconds ctx"]
  unfolding VerifyGrant_def grant_checks_def check_def deref_def
  by (simp add: a s p refuse_with_VerifySigned refuse_with_ValidateCert out_of_scope_iff
      has_role_def Blake2s256_def) auto

lemma ancestor_prefix:
  "(\<exists>e. 0 < e \<and> e \<le> length r \<and> (e = length r \<or> r ! e = slash) \<and> P (take e r)) \<longleftrightarrow>
      (\<exists>p. p \<noteq> [] \<and> (r = p \<or> (\<exists>rest. r = p @ [slash] @ rest)) \<and> P p)" (is "?L \<longleftrightarrow> ?R")
proof
  assume ?L
  then obtain e where e: "0 < e" "e \<le> length r" "e = length r \<or> r ! e = slash" "P (take e r)" by blast
  have "e \<noteq> length r \<Longrightarrow> r = take e r @ [slash] @ drop (Suc e) r"
    using e id_take_nth_drop [of e r] by simp
  then show ?R using e by (cases "e = length r") (auto intro: exI [of _ "take e r"])
next
  assume ?R
  then obtain p where p: "p \<noteq> []" "r = p \<or> (\<exists>rest. r = p @ [slash] @ rest)" "P p" by blast
  then show ?L by (intro exI [of _ "length p"]) (auto simp: nth_append)
qed

subsection \<open>Expiry on the integers\<close>

lemma unat_mult_le: "unat (a * b) \<le> unat a * unat (b :: uint64)"
  by (simp add: unat_word_ariths)

lemma unat_plus_le: "unat (a + b) \<le> unat a + unat (b :: uint64)"
  by (simp add: unat_word_ariths)

text \<open>The condition the code means, on unbounded integers.\<close>

definition expiry_ok :: "nat \<Rightarrow> nat \<Rightarrow> nat \<Rightarrow> nat \<Rightarrow> nat \<Rightarrow> bool" where
  "expiry_ok notAfter now first tMaxS tRecvS \<longleftrightarrow>
     now < notAfter \<and> notAfter \<le> first + tMaxS * 1000 \<and> now \<le> first + tRecvS * 1000"

subsection \<open>Properties\<close>

text \<open>
  C4: The authority decision is the first failing normative check. With parsed
  certificates and a pending intent, \<open>VerifyGrant\<close> returns the error of the first of the
  nineteen conditions of \<open>grant_checks\<close> that does not hold, in that order, and accepts
  exactly when all of them hold; it never panics.
\<close>

theorem VerifyGrant_normative_order:
  assumes "ctx_ApproverCert ctx = Some acert" and "ParseCert ab = Inr acert"
    and "ctx_SubjectCert ctx = Some scert" and "ParseCert sb = Inr scert"
    and "ctx_Pending ctx = Some pend"
  shows "VerifyGrant cr g ctx = first_failure (grant_checks cr g ctx acert scert pend) \<and>
         (VerifyGrant cr g ctx = Inr () \<longleftrightarrow> list_all fst (grant_checks cr g ctx acert scert pend))"
proof -
  have "cert_ok acert" "cert_ok scert" using assms(2,4) by (simp_all add: certc.parse_iff)
  then show ?thesis
    using VerifyGrant_first_failure [OF assms(1) _ assms(3) _ assms(5)] first_failure_ok_iff by auto
qed

text \<open>
  C13: A grant authorises one action only. If the same grant is accepted in two contexts
  (at any times, with any trust sets), then both pending intents have the same sender, the
  same intent id, the same resource and an action with the same digest, and both
  executors have the key the grant names.
\<close>

theorem grant_binds_one_action:
  assumes "VerifyGrant cr g ctx = Inr ()" and "VerifyGrant cr g ctx' = Inr ()"
  shows "\<exists>p p'. ctx_Pending ctx = Some p \<and> ctx_Pending ctx' = Some p' \<and>
     pend_Sender p = pend_Sender p' \<and> pend_IntentID p = pend_IntentID p' \<and>
     pend_ResourceID p = pend_ResourceID p' \<and>
     blake2s_Sum256 cr (pend_Action p) = blake2s_Sum256 cr (pend_Action p') \<and>
     ctx_OwnPubkey ctx = ctx_OwnPubkey ctx'"
proof -
  have "\<exists>p. ctx_Pending c = Some p \<and> pend_Sender p = grant_Subject g \<and> pend_IntentID p = grant_IntentID g \<and>
      pend_ResourceID p = grant_ResourceID g \<and> blake2s_Sum256 cr (pend_Action p) = grant_ActionDigest g \<and>
      ctx_OwnPubkey c = grant_Executor g" if "VerifyGrant cr g c = Inr ()" for c
    using that
    by (auto simp: VerifyGrant_def check_def rbind_eq_Inr deref_def Let_def Blake2s256_def
        split: if_splits option.splits)
  from this [OF assms(1)] this [OF assms(2)] show ?thesis by auto
qed

text \<open>
  C23: The expiry test is safe against overflow. It is computed on wrapping 64-bit
  integers, but whenever it accepts, the three conditions hold of the true integer values;
  and whenever neither limit overflows, it accepts exactly when they hold.
\<close>

theorem checkExpiry_integers:
  "(checkExpiry notAfter now first tMaxS tRecvS = Inr () \<longrightarrow>
      expiry_ok (unat notAfter) (unat now) (unat first) (unat tMaxS) (unat tRecvS)) \<and>
   (unat first + unat tMaxS * 1000 < 2 ^ 64 \<longrightarrow> unat first + unat tRecvS * 1000 < 2 ^ 64 \<longrightarrow>
      checkExpiry notAfter now first tMaxS tRecvS =
        (if expiry_ok (unat notAfter) (unat now) (unat first) (unat tMaxS) (unat tRecvS)
         then Inr () else Inl ErrExpired))"
proof -
  have le: "unat (first + t * 1000) \<le> unat first + unat t * 1000" for t
    using unat_plus_le [of first "t * 1000"] unat_mult_le [of t 1000] by simp
  have eq: "unat (first + t * 1000) = unat first + unat t * 1000" if "unat first + unat t * 1000 < 2 ^ 64" for t
    using that by (simp add: unat_word_ariths)
  show ?thesis
    using le [of tMaxS] le [of tRecvS] eq [of tMaxS] eq [of tRecvS]
    by (auto simp: checkExpiry_def Let_def expiry_ok_def word_less_nat_alt word_le_nat_alt)
qed

text \<open>
  C24: Scope covers whole path segments only. For a parsed certificate the walk never
  panics and answers yes exactly when some ancestor of the resource id, the id itself or
  a non-empty part of it that ends just before a slash, hashes to one of the certificate's
  scope ids; a certificate without scope ids covers nothing.
\<close>

theorem scopeCoversResource_ancestors:
  assumes "ParseCert b = Inr ct"
  shows "scopeCoversResource cr ct r =
     Inr (\<exists>p. p \<noteq> [] \<and> (r = p \<or> (\<exists>rest. r = p @ [slash] @ rest)) \<and>
              take 8 (Blake2s256 cr p) \<in> set (scope_ids ct)) \<and>
     (cert_ScopeCount ct = 0 \<longrightarrow> scopeCoversResource cr ct r = Inr False)"
proof -
  have ct: "cert_ok ct" using assms by (simp add: certc.parse_iff)
  have "\<not> in_scope cr ct r" if "cert_ScopeCount ct = 0"
    using that by (simp add: in_scope_iff scope_ids_def pieces_def)
  then show ?thesis
    using ancestor_prefix [of r "\<lambda>p. take 8 (blake2s_Sum256 cr p) \<in> set (scope_ids ct)"]
    by (simp add: scopeCoversResource_iff [OF ct] in_scope_iff Blake2s256_def)
qed

text \<open>
  C30: The clocked check bounds the true lifetime. A parsed certificate that passes
  \<open>ValidateCert\<close> at some time is inside its window at that time, and if it carries a
  privileged role the window really is at most thirty days long: the wrapping subtraction
  of the clock-free check cannot be abused.
\<close>

theorem ValidateCert_window:
  assumes "ParseCert b = Inr ct" and "ValidateCert cr ct trusted now = Inr ()"
  shows "chain_accepts cr ct trusted \<and>
     unat (cert_NotBefore ct) \<le> unat now \<and> unat now < unat (cert_NotAfter ct) \<and>
     (has_role (cert_RoleBits ct) RoleApprover \<or> has_role (cert_RoleBits ct) RoleExecutor \<longrightarrow>
        unat (cert_NotAfter ct) - unat (cert_NotBefore ct) \<le> 30 * 24 * 60 * 60 * 1000)"
proof -
  have "cert_ok ct" using assms(1) by (simp add: certc.parse_iff)
  then have v: "valid_now cr ct trusted now" using ValidateCert_iff assms(2) by blast
  then have w: "unat (cert_NotBefore ct) \<le> unat now" "unat now < unat (cert_NotAfter ct)"
    by (simp_all add: valid_now_def word_le_nat_alt word_less_nat_alt)
  then have "unat (cert_NotAfter ct - cert_NotBefore ct) = unat (cert_NotAfter ct) - unat (cert_NotBefore ct)"
    by (intro unat_sub) (simp add: word_le_nat_alt)
  then show ?thesis using v w by (auto simp: valid_now_def chain_accepts_def)
qed

theorem ValidateCert_window_witness:
  "ValidateCert ref_crypto exec_cert [key32 1, key32 2] 5000 = Inr () \<and>
   unat (cert_NotAfter exec_cert) - unat (cert_NotBefore exec_cert) \<le> 30 * 24 * 60 * 60 * 1000"
proof -
  have v: "ValidateCert ref_crypto exec_cert [key32 1, key32 2] 5000 = Inr ()"
    by (simp add: ValidateCert_def demo_cert_accepted(2))
  show ?thesis using ValidateCert_window [OF exec_cert_ok(3) v] v by (simp add: has_role_def)
qed

theorem scopeCoversResource_ancestors_witness:
  "scopeCoversResource ref_crypto exec_cert (replicate 8 1 @ [slash, 65]) = Inr True"
proof -
  have ids: "scope_ids exec_cert = [replicate 8 1]"
    by (simp add: scope_ids_def pieces_def demo_cert_def cert_of_def demo_cert_fields_def)
  have "take 8 (Blake2s256 ref_crypto (replicate 8 1)) = replicate 8 1"
    by (simp add: Blake2s256_def ref_crypto_def ref_sum_def)
  then have "\<exists>p. p \<noteq> [] \<and> (replicate 8 1 @ [slash, 65] = p \<or> (\<exists>rest. replicate 8 1 @ [slash, 65] = p @ [slash] @ rest)) \<and>
      take 8 (Blake2s256 ref_crypto p) \<in> set (scope_ids exec_cert)"
    by (intro exI [of _ "replicate 8 1"]) (simp add: ids)
  then show ?thesis
    using scopeCoversResource_ancestors [OF exec_cert_ok(3), of ref_crypto "replicate 8 1 @ [slash, 65]"] by simp
qed

theorem checkExpiry_integers_witness:
  "checkExpiry 2000 1000 900 3600 300 = Inr () \<and> checkExpiry 5000000 1000 900 3600 300 = Inl ErrExpired"
  using checkExpiry_integers [of 2000 1000 900 3600 300] checkExpiry_integers [of 5000000 1000 900 3600 300]
  by (simp add: expiry_ok_def)

text \<open>A grant by the approver with key 6 for the agent with key 9, and a context that accepts it.\<close>

definition demo_grant_fields :: GrantFields where
  "demo_grant_fields =
     \<lparr>gf_Version = 2, gf_GrantID = replicate 16 1, gf_IntentID = replicate 16 4, gf_Approver = key32 6,
      gf_Subject = key32 9, gf_Executor = key32 0x5d, gf_ResourceID = [98, slash, 99],
      gf_ActionDigest = blake2s_Sum256 ref_crypto [7, 7], gf_NotAfter = 2000\<rparr>"

definition demo_grant :: Grant where
  "demo_grant =
     (let tbs = grant_layout (grant_of demo_grant_fields [] [])
      in grant_of demo_grant_fields tbs (ed_sign ref_crypto (key32 0x5c @ key32 6) (DomainGrant # tbs)))"

definition demo_pending :: PendingIntent where
  "demo_pending =
     \<lparr>pend_IntentID = replicate 16 4, pend_Sender = key32 9, pend_ResourceID = [98, slash, 99], pend_Action = [7, 7]\<rparr>"

definition demo_context :: GrantContext where
  "demo_context =
     \<lparr>ctx_EnvelopeBodyType = BodyGrant, ctx_EnvelopeSender = key32 6, ctx_OwnPubkey = key32 0x5d,
      ctx_TrustedCAs = [key32 1, key32 2], ctx_ApproverCert = Some (demo_cert RoleApprover (key32 6)),
      ctx_SubjectCert = Some (demo_cert RoleAgent (key32 9)), ctx_Pending = Some demo_pending,
      ctx_NowMS = 1500, ctx_FirstReceipt = 1400, ctx_TMaxSeconds = 3600, ctx_TRecvSeconds = 300,
      ctx_IsRevoked = None\<rparr>"

lemma demo_checks:
  "list_all fst (grant_checks ref_crypto demo_grant demo_context (demo_cert RoleApprover (key32 6))
     (demo_cert RoleAgent (key32 9)) demo_pending)"
  by (simp add: grant_checks_def demo_context_def demo_pending_def demo_grant_def grant_of_def Let_def
      demo_grant_fields_def valid_now_def demo_cert_accepted has_role_def revoked_def checkExpiry_def
      ed25519_lawsD ref_laws)

theorem VerifyGrant_normative_order_witness:
  "VerifyGrant ref_crypto demo_grant demo_context = Inr () \<and>
   VerifyGrant ref_crypto demo_grant (demo_context\<lparr>ctx_NowMS := 2000\<rparr>) = Inl ErrExpired"
proof -
  have ctx: "ctx_ApproverCert demo_context = Some (demo_cert RoleApprover (key32 6))"
    "ctx_SubjectCert demo_context = Some (demo_cert RoleAgent (key32 9))" "ctx_Pending demo_context = Some demo_pending"
    by (simp_all add: demo_context_def)
  have late: "first_failure (grant_checks ref_crypto demo_grant (demo_context\<lparr>ctx_NowMS := 2000\<rparr>)
      (demo_cert RoleApprover (key32 6)) (demo_cert RoleAgent (key32 9)) demo_pending) = Inl ErrExpired"
    by (simp add: grant_checks_def demo_context_def demo_pending_def demo_grant_def grant_of_def Let_def
        demo_grant_fields_def valid_now_def demo_cert_accepted has_role_def revoked_def checkExpiry_def
        ed25519_lawsD ref_laws)
  show ?thesis
    using VerifyGrant_normative_order [OF ctx(1) demo_cert_ok(3) ctx(2) demo_cert_ok(3) ctx(3), of ref_crypto demo_grant]
      VerifyGrant_normative_order [of "demo_context\<lparr>ctx_NowMS := 2000\<rparr>", OF _ demo_cert_ok(3) _ demo_cert_ok(3),
        of RoleApprover "key32 6" RoleAgent "key32 9" demo_pending ref_crypto demo_grant] demo_checks late
    by (auto simp: ctx first_failure_ok_iff)
qed

lemma demo_grant_accepted: "VerifyGrant ref_crypto demo_grant demo_context = Inr ()"
  using demo_checks VerifyGrant_first_failure [of demo_context "demo_cert RoleApprover (key32 6)" "demo_cert RoleAgent (key32 9)"
      demo_pending ref_crypto demo_grant] first_failure_ok_iff demo_cert_ok(1)
  by (simp add: demo_context_def)

theorem grant_binds_one_action_witness:
  "\<exists>p p'. ctx_Pending demo_context = Some p \<and> ctx_Pending demo_context = Some p' \<and>
     pend_Sender p = pend_Sender p' \<and> pend_IntentID p = pend_IntentID p' \<and>
     pend_ResourceID p = pend_ResourceID p' \<and>
     blake2s_Sum256 ref_crypto (pend_Action p) = blake2s_Sum256 ref_crypto (pend_Action p') \<and>
     ctx_OwnPubkey demo_context = ctx_OwnPubkey demo_context"
  by (rule grant_binds_one_action [OF demo_grant_accepted demo_grant_accepted])

end
