(* ===== verification/Scope_Loop.thy ===== *)
theory Scope_Loop
  imports Wire_GrantChain "HOL-Library.While_Combinator"
begin

text \<open>
  The two nested loops of \<open>scopeCoversResource\<close> in \<open>wire/grantchain.go\<close> as the code runs
  them: an iteration over a mutable state that is not known to stop, with a counter of the
  hashes it computes. Shown: both loops stop on every input, the outer one with the result
  the recursive definition gives, after at most one hash more than the resource id has
  slashes.
\<close>

definition strip_loop :: "bytes \<Rightarrow> nat \<Rightarrow> nat option" where
  "strip_loop r n = while_option (\<lambda>newEnd. newEnd > 0 \<and> r ! (newEnd - 1) \<noteq> slash) (\<lambda>newEnd. newEnd - 1) n"

record scope_state =
  sl_end :: nat
  sl_ret :: "bool result option" \<comment> \<open>set by \<open>return\<close> and \<open>break\<close>\<close>
  sl_hashes :: nat

text \<open>One iteration of the outer loop; \<open>None\<close> when the inner loop does not stop.\<close>

definition scope_iter :: "crypto \<Rightarrow> Cert \<Rightarrow> bytes \<Rightarrow> scope_state \<Rightarrow> scope_state option" where
  "scope_iter cr cert r s =
     (let h = Blake2s256 cr (take (sl_end s) r); s = s\<lparr>sl_hashes := sl_hashes s + 1\<rparr> in
      case certCarriesScope cert (take 8 h) of
        Inl e \<Rightarrow> Some (s\<lparr>sl_ret := Some (Inl e)\<rparr>)
      | Inr b \<Rightarrow>
          if b then Some (s\<lparr>sl_ret := Some (Inr True)\<rparr>)
          else case strip_loop r (sl_end s) of
            None \<Rightarrow> None
          | Some newEnd \<Rightarrow>
              if newEnd = 0 then Some (s\<lparr>sl_ret := Some (Inr False)\<rparr>)
              else Some (s\<lparr>sl_end := newEnd - 1\<rparr>))"

text \<open>The outer loop; an iteration that does not stop makes the loop not stop.\<close>

definition scope_loop :: "crypto \<Rightarrow> Cert \<Rightarrow> bytes \<Rightarrow> scope_state option" where
  "scope_loop cr cert r =
     (case while_option (\<lambda>s. \<exists>t. s = Some t \<and> sl_ret t = None \<and> sl_end t > 0)
             (\<lambda>s. Option.bind s (scope_iter cr cert r))
             (Some \<lparr>sl_end = length r, sl_ret = None, sl_hashes = 0\<rparr>) of
        None \<Rightarrow> None
      | Some s \<Rightarrow> s)"

subsection \<open>The inner loop stops\<close>

lemma strip_loop_stops: "strip_loop r n = Some (strip_segment r n)"
proof (induction n)
  case 0
  show ?case by (simp add: strip_loop_def while_option_unfold)
next
  case (Suc n)
  then show ?case by (simp add: strip_loop_def while_option_unfold [of _ _ "Suc n"])
qed

subsection \<open>The outer loop stops\<close>

definition slashes :: "bytes \<Rightarrow> nat" where
  "slashes r = count_list r slash"

text \<open>The result the loop will give from here, and the budget of hashes.\<close>

definition scope_inv :: "crypto \<Rightarrow> Cert \<Rightarrow> bytes \<Rightarrow> scope_state option \<Rightarrow> bool" where
  "scope_inv cr cert r s \<longleftrightarrow>
     (\<exists>t. s = Some t \<and> sl_end t \<le> length r \<and>
        (case sl_ret t of
           None \<Rightarrow> scope_walk cr cert r (sl_end t) = scopeCoversResource cr cert r \<and>
                   sl_hashes t + slashes (take (sl_end t) r) \<le> slashes r
         | Some v \<Rightarrow> v = scopeCoversResource cr cert r \<and> sl_hashes t \<le> slashes r + 1))"

lemma slashes_strip:
  assumes "n \<le> length r" and "strip_segment r n \<noteq> 0"
  shows "slashes (take (strip_segment r n - 1) r) < slashes (take n r)"
proof -
  let ?s = "strip_segment r n"
  have s: "?s \<le> n" "r ! (?s - 1) = slash"
    using strip_segment_le strip_segment_spec [OF assms(1)] assms(2) by auto
  have "take ?s r = take (?s - 1) r @ [slash]"
    using s assms take_Suc_conv_app_nth [of "?s - 1" r] by simp
  moreover have "take n r = take ?s r @ drop ?s (take n r)"
    using s(1) by (metis append_take_drop_id min.absorb1 take_take)
  ultimately have "take n r = take (?s - 1) r @ [slash] @ drop ?s (take n r)" by simp
  from arg_cong [OF this, of slashes] have "slashes (take n r) = slashes (take (?s - 1) r) + 1 + slashes (drop ?s (take n r))"
    by (simp only: slashes_def count_list_append) simp
  then show ?thesis by simp
qed

lemma scope_iter_inv:
  assumes "scope_inv cr cert r s" and "s = Some t" and "sl_ret t = None" and "sl_end t > 0"
  shows "scope_inv cr cert r (scope_iter cr cert r t) \<and>
    (\<forall>u. scope_iter cr cert r t = Some u \<longrightarrow> sl_ret u = None \<longrightarrow> sl_end u < sl_end t)"
proof -
  let ?n = "strip_segment r (sl_end t)"
  have t: "sl_end t \<le> length r" "scope_walk cr cert r (sl_end t) = scopeCoversResource cr cert r"
    "sl_hashes t + slashes (take (sl_end t) r) \<le> slashes r"
    using assms(1-3) by (auto simp: scope_inv_def)
  have le: "?n \<le> sl_end t" by (rule strip_segment_le)
  note w = scope_walk.simps [of cr cert r "sl_end t"] Let_def
  note i = scope_iter_def strip_loop_stops Let_def
  show ?thesis
  proof (cases "certCarriesScope cert (take 8 (Blake2s256 cr (take (sl_end t) r)))")
    case (Inl e)
    then have "scopeCoversResource cr cert r = Inl e" using assms(4) by (subst t(2) [symmetric]) (simp add: w)
    then show ?thesis using t(1,3) Inl by (simp add: i scope_inv_def)
  next
    case (Inr b)
    show ?thesis
    proof (cases "b \<or> ?n = 0")
      case True
      then have "scopeCoversResource cr cert r = Inr b" using assms(4) Inr by (subst t(2) [symmetric]) (auto simp: w)
      then show ?thesis using t(1,3) Inr True by (auto simp: i scope_inv_def)
    next
      case False
      then have "slashes (take (?n - 1) r) < slashes (take (sl_end t) r)"
        using slashes_strip [OF t(1)] by simp
      moreover have "scopeCoversResource cr cert r = scope_walk cr cert r (?n - 1)"
        using assms(4) Inr False by (subst t(2) [symmetric]) (auto simp: w)
      ultimately show ?thesis using t(1,3) assms(3,4) Inr False le by (auto simp: i scope_inv_def)
    qed
  qed
qed

text \<open>
  C25: The scope walk always terminates, and its cost is bounded by the resource id. The loop
  of the code, run as an iteration that could go on forever, stops for every certificate
  and every resource id, with the result of the recursive definition; it computes at most
  one hash more than the id has slashes.
\<close>

theorem scope_loop_terminates:
  "\<exists>s. scope_loop cr cert r = Some s \<and>
     (case sl_ret s of None \<Rightarrow> Inr False | Some v \<Rightarrow> v) = scopeCoversResource cr cert r \<and>
     sl_hashes s \<le> slashes r + 1"
proof -
  let ?b = "\<lambda>s. \<exists>t. s = Some t \<and> sl_ret t = None \<and> sl_end t > 0"
  let ?c = "\<lambda>s. Option.bind s (scope_iter cr cert r)"
  let ?s0 = "Some \<lparr>sl_end = length r, sl_ret = None, sl_hashes = 0\<rparr>"
  let ?f = "\<lambda>s. case s of None \<Rightarrow> 0 | Some t \<Rightarrow> if sl_ret t = None then sl_end t else 0"
  have init: "scope_inv cr cert r ?s0" by (simp add: scope_inv_def scopeCoversResource_def)
  have step: "scope_inv cr cert r (?c s) \<and> ?f (?c s) < ?f s" if "scope_inv cr cert r s" "?b s" for s
    using that scope_iter_inv [OF that(1)] by (fastforce simp: scope_inv_def)
  obtain s where s: "while_option ?b ?c ?s0 = Some s"
    using measure_while_option_Some [of "scope_inv cr cert r" ?b ?c ?f, OF step init] by blast
  have inv: "scope_inv cr cert r s" and stop: "\<not> ?b s"
    using while_option_rule [of "scope_inv cr cert r", OF _ s init] step while_option_stop [OF s] by blast+
  then show ?thesis
    using s by (auto simp: scope_loop_def scope_inv_def scope_walk.simps [of cr cert r 0] split: option.splits)
qed

end
