(* ===== verification/Wire_Noise.thy ===== *)
theory Wire_Noise
  imports Reference_Crypto
begin

text \<open>
  \<open>wire/noise.go\<close>: the Noise IK handshake. The symmetric state, the initiator and the
  responder are records; a method that changes its receiver returns the new record, with
  the changes it made before an error too. \<open>WriteInitiation\<close> and \<open>WriteResponse\<close> also
  return the caller's buffer they write into.

  The main result is agreement: with the documented behaviour of X25519, the AEAD and
  the hash, a responder reads every initiation an initiator wrote for it, recovers the
  initiator's static key, and after the response both hold the same transcript hash and
  crossed transport keys.
\<close>

subsection \<open>Sizes and offsets\<close>

abbreviation dhLen :: nat where "dhLen \<equiv> 32"
abbreviation hashLen :: nat where "hashLen \<equiv> 32"
abbreviation keyLen :: nat where "keyLen \<equiv> 32"
abbreviation tagLen :: nat where "tagLen \<equiv> 16"
abbreviation nonceLn :: nat where "nonceLn \<equiv> 12"
abbreviation Msg1Size :: nat where "Msg1Size \<equiv> 144"
abbreviation Msg2Size :: nat where "Msg2Size \<equiv> 92"
abbreviation msg1BeforeMac :: nat where "msg1BeforeMac \<equiv> 112"
abbreviation msg2BeforeMac :: nat where "msg2BeforeMac \<equiv> 60"
abbreviation off1SenderIndex :: nat where "off1SenderIndex \<equiv> 4"
abbreviation off1Ephemeral :: nat where "off1Ephemeral \<equiv> 8"
abbreviation off1EncStatic :: nat where "off1EncStatic \<equiv> 40"
abbreviation off1EncTime :: nat where "off1EncTime \<equiv> 88"
abbreviation off1Mac1 :: nat where "off1Mac1 \<equiv> 112"
abbreviation off1Mac2 :: nat where "off1Mac2 \<equiv> 128"
abbreviation off2SenderIndex :: nat where "off2SenderIndex \<equiv> 4"
abbreviation off2ReceiverIndex :: nat where "off2ReceiverIndex \<equiv> 8"
abbreviation off2Ephemeral :: nat where "off2Ephemeral \<equiv> 12"
abbreviation off2EncNothing :: nat where "off2EncNothing \<equiv> 44"
abbreviation off2Mac1 :: nat where "off2Mac1 \<equiv> 60"
abbreviation off2Mac2 :: nat where "off2Mac2 \<equiv> 76"

definition protocolName :: bytes where
  "protocolName = str_bytes ''Noise_IK_25519_ChaChaPoly_BLAKE2s''"

definition mac1Label :: bytes where
  "mac1Label = str_bytes ''bolina-mac1-v2''"

record HandshakeResult =
  hr_SendKey :: bytes
  hr_RecvKey :: bytes
  hr_H :: bytes

subsection \<open>Nonce, HMAC and HKDF\<close>

definition transportNonce :: "uint64 \<Rightarrow> bytes" where
  "transportNonce counter = copy_at 4 (be64 counter) (replicate nonceLn 0)"

definition blake2sSum :: "crypto \<Rightarrow> bytes \<Rightarrow> bytes" where
  "blake2sSum cr d = blake2s_Sum256 cr d"

definition hmacBlake2s :: "crypto \<Rightarrow> bytes \<Rightarrow> bytes \<Rightarrow> bytes" where
  "hmacBlake2s cr key d =
     (let k0 = replicate 64 0;
          k = (if length key > 64 then copy_at 0 (blake2sSum cr key) k0 else copy_at 0 key k0);
          ipad = map (\<lambda>b. b XOR 0x36) k;
          opad = map (\<lambda>b. b XOR 0x5c) k;
          inner = blake2sSum cr (ipad @ d)
      in blake2sSum cr (opad @ inner))"

definition hkdf2 :: "crypto \<Rightarrow> bytes \<Rightarrow> bytes \<Rightarrow> bytes \<times> bytes" where
  "hkdf2 cr ck ikm =
     (let temp = hmacBlake2s cr ck ikm;
          o1 = hmacBlake2s cr temp [1];
          o2 = hmacBlake2s cr temp (o1 @ [2])
      in (o1, o2))"

subsection \<open>The symmetric state\<close>

record symmetricState =
  sym_h :: bytes
  sym_ck :: bytes
  sym_k :: bytes
  sym_n :: uint64
  sym_hasKey :: bool

definition newSymmetricState :: "crypto \<Rightarrow> symmetricState" where
  "newSymmetricState cr =
     (let h = blake2sSum cr protocolName
      in \<lparr>sym_h = h, sym_ck = h, sym_k = replicate keyLen 0, sym_n = 0, sym_hasKey = False\<rparr>)"

definition mixHash :: "crypto \<Rightarrow> bytes \<Rightarrow> symmetricState \<Rightarrow> symmetricState" where
  "mixHash cr d s = s\<lparr>sym_h := blake2sSum cr (sym_h s @ d)\<rparr>"

definition mixKey :: "crypto \<Rightarrow> bytes \<Rightarrow> symmetricState \<Rightarrow> symmetricState" where
  "mixKey cr ikm s =
     (let (o1, o2) = hkdf2 cr (sym_ck s) ikm
      in s\<lparr>sym_ck := o1, sym_k := o2, sym_n := 0, sym_hasKey := True\<rparr>)"

text \<open>\<open>chacha20poly1305.New\<close> refuses a key of the wrong length.\<close>

definition aead_New :: "bytes \<Rightarrow> bytes result" where
  "aead_New key = (if length key \<noteq> keyLen then Inl ErrCipherKey else Inr key)"

definition encryptAndHash ::
    "crypto \<Rightarrow> bytes \<Rightarrow> symmetricState \<Rightarrow> bytes result \<times> symmetricState" where
  "encryptAndHash cr plaintext s =
     (if \<not> sym_hasKey s then (Inr plaintext, mixHash cr plaintext s)
      else case aead_New (sym_k s) of
        Inl e \<Rightarrow> (Inl e, s)
      | Inr key \<Rightarrow>
          let nonce = transportNonce (sym_n s);
              ct = aead_Seal cr key nonce plaintext (sym_h s);
              s = s\<lparr>sym_n := sym_n s + 1\<rparr>
          in (Inr ct, mixHash cr ct s))"

definition decryptAndHash ::
    "crypto \<Rightarrow> bytes \<Rightarrow> symmetricState \<Rightarrow> bytes result \<times> symmetricState" where
  "decryptAndHash cr ct s =
     (if \<not> sym_hasKey s then (Inr ct, mixHash cr ct s)
      else case aead_New (sym_k s) of
        Inl e \<Rightarrow> (Inl e, s)
      | Inr key \<Rightarrow>
          let nonce = transportNonce (sym_n s) in
          (case aead_Open cr key nonce ct (sym_h s) of
             None \<Rightarrow> (Inl ErrDecryptFailed, s)
           | Some pt \<Rightarrow> let s = s\<lparr>sym_n := sym_n s + 1\<rparr> in (Inr pt, mixHash cr ct s)))"

definition split_keys :: "crypto \<Rightarrow> symmetricState \<Rightarrow> bytes \<times> bytes" where
  "split_keys cr s = hkdf2 cr (sym_ck s) []"

definition dh :: "crypto \<Rightarrow> bytes \<Rightarrow> bytes \<Rightarrow> bytes result" where
  "dh cr localSecret remotePub =
     (case X25519 cr localSecret remotePub of
        None \<Rightarrow> Inl ErrIdentityPoint
      | Some out \<Rightarrow> Inr (copy_at 0 out (replicate dhLen 0)))"

definition mac1Key :: "crypto \<Rightarrow> bytes \<Rightarrow> bytes" where
  "mac1Key cr responderSigPub = blake2sSum cr (mac1Label @ responderSigPub)"

definition computeMac1 :: "crypto \<Rightarrow> bytes \<Rightarrow> bytes \<Rightarrow> bytes" where
  "computeMac1 cr responderSigPub preceding =
     (let key = mac1Key cr responderSigPub
      in copy_at 0 (blake2s_mac128 cr key preceding) (replicate 16 0))"

subsection \<open>The initiator\<close>

record Initiator =
  in_sym :: symmetricState
  in_staticSecret :: bytes
  in_staticPublic :: bytes
  in_ephSecret :: bytes
  in_ephPublic :: bytes
  in_responderStatic :: bytes
  in_re :: bytes

definition NewInitiator :: "crypto \<Rightarrow> bytes \<Rightarrow> bytes \<Rightarrow> bytes \<Rightarrow> Initiator" where
  "NewInitiator cr staticSecret staticPublic responderStatic =
     \<lparr>in_sym = mixHash cr responderStatic (newSymmetricState cr),
      in_staticSecret = staticSecret, in_staticPublic = staticPublic,
      in_ephSecret = replicate dhLen 0, in_ephPublic = replicate dhLen 0,
      in_responderStatic = responderStatic, in_re = replicate dhLen 0\<rparr>"

text \<open>The framing bytes both writers set: the type and three reserved zeros.\<close>

definition put_type :: "byte \<Rightarrow> bytes \<Rightarrow> bytes" where
  "put_type t out = out[0 := t, 1 := 0, 2 := 0, 3 := 0]"

definition WriteInitiation ::
    "crypto \<Rightarrow> Initiator \<Rightarrow> bytes \<Rightarrow> uint32 \<Rightarrow> uint64 \<Rightarrow> bytes \<Rightarrow> bytes \<Rightarrow> bytes
     \<Rightarrow> unit result \<times> Initiator \<times> bytes" where
  "WriteInitiation cr i out senderIndex timestampMS ephSecret responderSigPub mac2Cookie =
     (if length out < Msg1Size then (Inl ErrBufferTooSmall, i, out) else
      let i = i\<lparr>in_ephSecret := ephSecret\<rparr> in
      case X25519 cr ephSecret (Basepoint cr) of None \<Rightarrow> (Inl ErrIdentityPoint, i, out) | Some pub \<Rightarrow>
      let i = i\<lparr>in_ephPublic := copy_at 0 pub (in_ephPublic i)\<rparr>;
          out = copy_at off1Ephemeral (in_ephPublic i) out;
          i = i\<lparr>in_sym := mixHash cr (in_ephPublic i) (in_sym i)\<rparr> in
      case dh cr (in_ephSecret i) (in_responderStatic i) of Inl e \<Rightarrow> (Inl e, i, out) | Inr es \<Rightarrow>
      let i = i\<lparr>in_sym := mixKey cr es (in_sym i)\<rparr> in
      case encryptAndHash cr (in_staticPublic i) (in_sym i) of
        (Inl e, s) \<Rightarrow> (Inl e, i\<lparr>in_sym := s\<rparr>, out)
      | (Inr encS, s) \<Rightarrow>
      let i = i\<lparr>in_sym := s\<rparr>;
          out = copy_at off1EncStatic encS out in
      case dh cr (in_staticSecret i) (in_responderStatic i) of Inl e \<Rightarrow> (Inl e, i, out) | Inr ss \<Rightarrow>
      let i = i\<lparr>in_sym := mixKey cr ss (in_sym i)\<rparr> in
      case encryptAndHash cr (be64 timestampMS) (in_sym i) of
        (Inl e, s) \<Rightarrow> (Inl e, i\<lparr>in_sym := s\<rparr>, out)
      | (Inr encTs, s) \<Rightarrow>
      let i = i\<lparr>in_sym := s\<rparr>;
          out = copy_at off1EncTime encTs out;
          out = put_type 1 out;
          out = copy_at off1SenderIndex (be32 senderIndex) out;
          m1 = computeMac1 cr responderSigPub (subslice out 0 msg1BeforeMac);
          out = copy_at off1Mac1 m1 out;
          out = copy_at off1Mac2 mac2Cookie out
      in (Inr (), i, out))"

definition ReadResponse :: "crypto \<Rightarrow> Initiator \<Rightarrow> bytes \<Rightarrow> bytes \<Rightarrow> unit result \<times> Initiator" where
  "ReadResponse cr i msg2 responderSigPub =
     (if length msg2 < Msg2Size then (Inl ErrBufferTooSmall, i) else
      let m1in = take 16 (drop off2Mac1 msg2) in
      if computeMac1 cr responderSigPub (subslice msg2 0 msg2BeforeMac) \<noteq> m1in
      then (Inl ErrMac1Failed, i) else
      let i = i\<lparr>in_re := copy_at 0 (subslice msg2 off2Ephemeral (off2Ephemeral + dhLen)) (in_re i)\<rparr>;
          i = i\<lparr>in_sym := mixHash cr (in_re i) (in_sym i)\<rparr> in
      case dh cr (in_ephSecret i) (in_re i) of Inl e \<Rightarrow> (Inl e, i) | Inr ee \<Rightarrow>
      let i = i\<lparr>in_sym := mixKey cr ee (in_sym i)\<rparr> in
      case dh cr (in_staticSecret i) (in_re i) of Inl e \<Rightarrow> (Inl e, i) | Inr se \<Rightarrow>
      let i = i\<lparr>in_sym := mixKey cr se (in_sym i)\<rparr> in
      case decryptAndHash cr (subslice msg2 off2EncNothing (off2EncNothing + tagLen)) (in_sym i) of
        (Inl e, s) \<Rightarrow> (Inl e, i\<lparr>in_sym := s\<rparr>)
      | (Inr _, s) \<Rightarrow> (Inr (), i\<lparr>in_sym := s\<rparr>))"

definition Initiator_Finalize :: "crypto \<Rightarrow> Initiator \<Rightarrow> HandshakeResult" where
  "Initiator_Finalize cr i =
     (let (c1, c2) = split_keys cr (in_sym i)
      in \<lparr>hr_SendKey = c1, hr_RecvKey = c2, hr_H = sym_h (in_sym i)\<rparr>)"

subsection \<open>The responder\<close>

record Responder =
  re_sym :: symmetricState
  re_staticSecret :: bytes
  re_staticPublic :: bytes
  re_ephSecret :: bytes
  re_ephPublic :: bytes
  re_re :: bytes
  re_RemoteStaticPub :: bytes

definition NewResponder :: "crypto \<Rightarrow> bytes \<Rightarrow> bytes \<Rightarrow> Responder" where
  "NewResponder cr staticSecret staticPublic =
     \<lparr>re_sym = mixHash cr staticPublic (newSymmetricState cr),
      re_staticSecret = staticSecret, re_staticPublic = staticPublic,
      re_ephSecret = replicate dhLen 0, re_ephPublic = replicate dhLen 0,
      re_re = replicate dhLen 0, re_RemoteStaticPub = replicate dhLen 0\<rparr>"

definition ReadInitiation :: "crypto \<Rightarrow> Responder \<Rightarrow> bytes \<Rightarrow> bytes \<Rightarrow> unit result \<times> Responder" where
  "ReadInitiation cr re msg1 responderSigPub =
     (if length msg1 < Msg1Size then (Inl ErrBufferTooSmall, re) else
      let m1in = take 16 (drop off1Mac1 msg1) in
      if computeMac1 cr responderSigPub (subslice msg1 0 msg1BeforeMac) \<noteq> m1in
      then (Inl ErrMac1Failed, re) else
      let re = re\<lparr>re_re := copy_at 0 (subslice msg1 off1Ephemeral (off1Ephemeral + dhLen)) (re_re re)\<rparr>;
          re = re\<lparr>re_sym := mixHash cr (re_re re) (re_sym re)\<rparr> in
      case dh cr (re_staticSecret re) (re_re re) of Inl e \<Rightarrow> (Inl e, re) | Inr es \<Rightarrow>
      let re = re\<lparr>re_sym := mixKey cr es (re_sym re)\<rparr> in
      case decryptAndHash cr (subslice msg1 off1EncStatic (off1EncStatic + dhLen + tagLen)) (re_sym re) of
        (Inl e, s) \<Rightarrow> (Inl e, re\<lparr>re_sym := s\<rparr>)
      | (Inr staticI, s) \<Rightarrow>
      let re = re\<lparr>re_sym := s\<rparr>;
          re = re\<lparr>re_RemoteStaticPub := copy_at 0 staticI (re_RemoteStaticPub re)\<rparr> in
      case dh cr (re_staticSecret re) (re_RemoteStaticPub re) of Inl e \<Rightarrow> (Inl e, re) | Inr ss \<Rightarrow>
      let re = re\<lparr>re_sym := mixKey cr ss (re_sym re)\<rparr> in
      case decryptAndHash cr (subslice msg1 off1EncTime (off1EncTime + 8 + tagLen)) (re_sym re) of
        (Inl e, s) \<Rightarrow> (Inl e, re\<lparr>re_sym := s\<rparr>)
      | (Inr _, s) \<Rightarrow> (Inr (), re\<lparr>re_sym := s\<rparr>))"

definition WriteResponse ::
    "crypto \<Rightarrow> Responder \<Rightarrow> bytes \<Rightarrow> uint32 \<Rightarrow> uint32 \<Rightarrow> bytes \<Rightarrow> bytes \<Rightarrow> bytes
     \<Rightarrow> unit result \<times> Responder \<times> bytes" where
  "WriteResponse cr re out senderIndex receiverIndex ephSecret responderSigPub mac2Cookie =
     (if length out < Msg2Size then (Inl ErrBufferTooSmall, re, out) else
      let re = re\<lparr>re_ephSecret := ephSecret\<rparr> in
      case X25519 cr ephSecret (Basepoint cr) of None \<Rightarrow> (Inl ErrIdentityPoint, re, out) | Some pub \<Rightarrow>
      let re = re\<lparr>re_ephPublic := copy_at 0 pub (re_ephPublic re)\<rparr>;
          out = put_type 2 out;
          out = copy_at off2SenderIndex (be32 senderIndex) out;
          out = copy_at off2ReceiverIndex (be32 receiverIndex) out;
          out = copy_at off2Ephemeral (re_ephPublic re) out;
          re = re\<lparr>re_sym := mixHash cr (re_ephPublic re) (re_sym re)\<rparr> in
      case dh cr (re_ephSecret re) (re_re re) of Inl e \<Rightarrow> (Inl e, re, out) | Inr ee \<Rightarrow>
      let re = re\<lparr>re_sym := mixKey cr ee (re_sym re)\<rparr> in
      case dh cr (re_ephSecret re) (re_RemoteStaticPub re) of Inl e \<Rightarrow> (Inl e, re, out) | Inr se \<Rightarrow>
      let re = re\<lparr>re_sym := mixKey cr se (re_sym re)\<rparr> in
      case encryptAndHash cr [] (re_sym re) of
        (Inl e, s) \<Rightarrow> (Inl e, re\<lparr>re_sym := s\<rparr>, out)
      | (Inr encNothing, s) \<Rightarrow>
      let re = re\<lparr>re_sym := s\<rparr>;
          out = copy_at off2EncNothing encNothing out;
          m1 = computeMac1 cr responderSigPub (subslice out 0 msg2BeforeMac);
          out = copy_at off2Mac1 m1 out;
          out = copy_at off2Mac2 mac2Cookie out
      in (Inr (), re, out))"

definition Responder_Finalize :: "crypto \<Rightarrow> Responder \<Rightarrow> HandshakeResult" where
  "Responder_Finalize cr re =
     (let (c1, c2) = split_keys cr (re_sym re)
      in \<lparr>hr_SendKey = c2, hr_RecvKey = c1, hr_H = sym_h (re_sym re)\<rparr>)"

subsection \<open>The key schedule\<close>

lemma length_hkdf2: "blake2s_laws cr \<Longrightarrow> hkdf2 cr ck ikm = (o1, o2) \<Longrightarrow> length o1 = 32 \<and> length o2 = 32"
  by (auto simp: hkdf2_def hmacBlake2s_def Let_def blake2sSum_def blake2s_lawsD)

lemma mixKey_keyed:
  assumes "blake2s_laws cr"
  shows "sym_hasKey (mixKey cr ikm s) \<and> length (sym_k (mixKey cr ikm s)) = keyLen"
  using length_hkdf2 [OF assms, of "sym_ck s" ikm]
  by (cases "hkdf2 cr (sym_ck s) ikm") (simp add: mixKey_def)

lemma length_transportNonce [simp]: "length (transportNonce n) = nonceLn"
  by (simp add: transportNonce_def)

lemma encrypt_keyed:
  assumes "sym_hasKey s" and "length (sym_k s) = keyLen"
  shows "encryptAndHash cr pt s =
    (let ct = aead_Seal cr (sym_k s) (transportNonce (sym_n s)) pt (sym_h s)
     in (Inr ct, mixHash cr ct (s\<lparr>sym_n := sym_n s + 1\<rparr>)))"
  using assms by (simp add: encryptAndHash_def aead_New_def Let_def)

lemma decrypt_inverts_encrypt:
  assumes "aead_laws cr" and "sym_hasKey s" and "length (sym_k s) = keyLen"
    and "encryptAndHash cr pt s = (Inr ct, s')"
  shows "decryptAndHash cr ct s = (Inr pt, s') \<and> length ct = length pt + tagLen"
  using assms
  by (auto simp: encrypt_keyed decryptAndHash_def aead_New_def Let_def aead_laws_def)

lemma dh_agree:
  assumes "x25519_laws cr" and "X25519 cr a (Basepoint cr) = Some A" and "X25519 cr b (Basepoint cr) = Some B"
  shows "dh cr a B = dh cr b A"
proof -
  have "X25519 cr a B = X25519 cr b A" using assms unfolding x25519_laws_def by blast
  then show ?thesis by (simp add: dh_def)
qed

lemma x25519_len: "x25519_laws cr \<Longrightarrow> X25519 cr a p = Some q \<Longrightarrow> length q = 32"
  unfolding x25519_laws_def by blast

lemma length_computeMac1 [simp]: "length (computeMac1 cr k d) = 16"
  by (simp add: computeMac1_def Let_def)

lemma put_type_simps [simp]:
  "length (put_type t out) = length out" "3 < i \<Longrightarrow> subslice (put_type t out) i j = subslice out i j"
  by (simp_all add: put_type_def)

subsection \<open>The layouts of the two messages\<close>

definition msg1_frame :: "bytes \<Rightarrow> bytes \<Rightarrow> bytes \<Rightarrow> bytes \<Rightarrow> bytes \<Rightarrow> bytes" where
  "msg1_frame out e encS encTs idx =
     copy_at off1SenderIndex idx (put_type 1
       (copy_at off1EncTime encTs (copy_at off1EncStatic encS (copy_at off1Ephemeral e out))))"

definition msg1_seal :: "bytes \<Rightarrow> bytes \<Rightarrow> bytes \<Rightarrow> bytes" where
  "msg1_seal m1 cookie f = copy_at off1Mac2 cookie (copy_at off1Mac1 m1 f)"

lemma msg1_slices:
  assumes "Msg1Size \<le> length out" "length e = 32" "length encS = 48" "length encTs = 24"
    "length idx = 4" "length m1 = 16" "length cookie = 16"
  defines "f \<equiv> msg1_frame out e encS encTs idx"
  defines "m \<equiv> msg1_seal m1 cookie f"
  shows "length m = length out" "subslice m 8 40 = e" "subslice m 40 88 = encS"
    "subslice m 88 112 = encTs" "take 16 (drop 112 m) = m1" "subslice m 0 112 = subslice f 0 112"
proof -
  have lf: "length f = length out" using assms by (simp add: f_def msg1_frame_def)
  then show "length m = length out" using assms by (simp add: m_def msg1_seal_def)
  have m: "subslice m i j = subslice f i j" if "j \<le> 112" for i j
    using that assms lf by (simp add: m_def msg1_seal_def subslice_copy_at_before)
  then show "subslice m 0 112 = subslice f 0 112" by simp
  show "subslice m 8 40 = e" "subslice m 40 88 = encS" "subslice m 88 112 = encTs"
    using assms(1-5) by (simp_all add: m f_def msg1_frame_def subslice_copy_at)
  have "take 16 (drop 112 m) = subslice m 112 128" by (simp add: subslice_def)
  also have "\<dots> = m1" using assms lf by (simp add: m_def msg1_seal_def subslice_copy_at)
  finally show "take 16 (drop 112 m) = m1" .
qed

definition msg2_frame :: "bytes \<Rightarrow> bytes \<Rightarrow> bytes \<Rightarrow> bytes \<Rightarrow> bytes \<Rightarrow> bytes" where
  "msg2_frame out sidx ridx e encN =
     copy_at off2EncNothing encN (copy_at off2Ephemeral e (copy_at off2ReceiverIndex ridx
       (copy_at off2SenderIndex sidx (put_type 2 out))))"

definition msg2_seal :: "bytes \<Rightarrow> bytes \<Rightarrow> bytes \<Rightarrow> bytes" where
  "msg2_seal m1 cookie f = copy_at off2Mac2 cookie (copy_at off2Mac1 m1 f)"

lemma msg2_slices:
  assumes "Msg2Size \<le> length out" "length e = 32" "length encN = 16"
    "length sidx = 4" "length ridx = 4" "length m1 = 16" "length cookie = 16"
  defines "f \<equiv> msg2_frame out sidx ridx e encN"
  defines "m \<equiv> msg2_seal m1 cookie f"
  shows "length m = length out" "subslice m 4 8 = sidx" "subslice m 8 12 = ridx" "subslice m 12 44 = e"
    "subslice m 44 60 = encN" "take 16 (drop 60 m) = m1" "subslice m 0 60 = subslice f 0 60"
proof -
  have lf: "length f = length out" using assms by (simp add: f_def msg2_frame_def)
  then show "length m = length out" using assms by (simp add: m_def msg2_seal_def)
  have m: "subslice m i j = subslice f i j" if "j \<le> 60" for i j
    using that assms lf by (simp add: m_def msg2_seal_def subslice_copy_at_before)
  then show "subslice m 0 60 = subslice f 0 60" by simp
  show "subslice m 4 8 = sidx" "subslice m 8 12 = ridx" "subslice m 12 44 = e" "subslice m 44 60 = encN"
    using assms(1-5) by (simp_all add: m f_def msg2_frame_def subslice_copy_at)
  have "take 16 (drop 60 m) = subslice m 60 76" by (simp add: subslice_def)
  also have "\<dots> = m1" using assms lf by (simp add: m_def msg2_seal_def subslice_copy_at)
  finally show "take 16 (drop 60 m) = m1" .
qed

lemma take_put_type:
  assumes "4 \<le> length out"
  shows "take 4 (put_type t out) = [t, 0, 0, 0]"
proof -
  obtain a b c d rest where "out = a # b # c # d # rest"
    using assms by (auto simp: numeral_eq_Suc Suc_le_length_iff)
  then show ?thesis by (simp add: put_type_def numeral_eq_Suc)
qed

lemma msg1_type:
  assumes "Msg1Size \<le> length out"
  shows "take 4 (msg1_seal m1 cookie (msg1_frame out e encS encTs idx)) = [1, 0, 0, 0]"
  using assms by (simp add: msg1_seal_def msg1_frame_def take_copy_at take_put_type)

lemma take_msg2_type:
  assumes "Msg2Size \<le> length out"
  shows "take 4 (msg2_seal m1 cookie (msg2_frame out sidx ridx e encN)) = [2, 0, 0, 0]"
  using assms by (simp add: msg2_seal_def msg2_frame_def take_copy_at take_put_type)

subsection \<open>Agreement\<close>

text \<open>What a successful \<open>WriteInitiation\<close> did.\<close>

lemma WriteInitiation_steps:
  assumes w: "WriteInitiation cr i out idx ts eI sigR cookie = (Inr (), i', m)"
    and "length (in_ephPublic i) = 32" and "x25519_laws cr"
  obtains EI es encS s1 ss encTs s2 where
    "Msg1Size \<le> length out" "X25519 cr eI (Basepoint cr) = Some EI" "length EI = 32"
    "dh cr eI (in_responderStatic i) = Inr es"
    "encryptAndHash cr (in_staticPublic i) (mixKey cr es (mixHash cr EI (in_sym i))) = (Inr encS, s1)"
    "dh cr (in_staticSecret i) (in_responderStatic i) = Inr ss"
    "encryptAndHash cr (be64 ts) (mixKey cr ss s1) = (Inr encTs, s2)"
    "i' = i\<lparr>in_ephSecret := eI, in_ephPublic := EI, in_sym := s2\<rparr>"
    "m = msg1_seal (computeMac1 cr sigR (subslice (msg1_frame out EI encS encTs (be32 idx)) 0 112)) cookie
           (msg1_frame out EI encS encTs (be32 idx))"
proof -
  have len: "Msg1Size \<le> length out" using w by (rule_tac ccontr) (simp add: WriteInitiation_def)
  obtain EI where EI: "X25519 cr eI (Basepoint cr) = Some EI"
    using w len by (cases "X25519 cr eI (Basepoint cr)") (simp_all add: WriteInitiation_def)
  have EIl: "length EI = 32" by (rule x25519_len [OF assms(3) EI])
  have eph: "copy_at 0 EI (in_ephPublic i) = EI" using assms(2) EIl by (simp add: copy_at_whole)
  note st = WriteInitiation_def Let_def len EI eph
  obtain es where es: "dh cr eI (in_responderStatic i) = Inr es"
    using w len by (cases "dh cr eI (in_responderStatic i)") (simp_all add: st)
  obtain s1 rS where rS: "encryptAndHash cr (in_staticPublic i) (mixKey cr es (mixHash cr EI (in_sym i))) = (rS, s1)"
    by fastforce
  obtain encS where encS: "rS = Inr encS" using w len by (cases rS) (simp_all add: st es rS)
  obtain ss where ss: "dh cr (in_staticSecret i) (in_responderStatic i) = Inr ss"
    using w len by (cases "dh cr (in_staticSecret i) (in_responderStatic i)") (simp_all add: st es rS encS)
  obtain s2 rT where rT: "encryptAndHash cr (be64 ts) (mixKey cr ss s1) = (rT, s2)" by fastforce
  obtain encTs where encTs: "rT = Inr encTs" using w len by (cases rT) (simp_all add: st es rS encS ss rT)
  show thesis
    using w len rS rT
    by (intro that [OF len EI EIl es _ ss]) (auto simp: st es encS ss encTs msg1_seal_def msg1_frame_def)
qed

text \<open>The two ends after the initiation: the same symmetric state, and each holds the
  public keys of the secrets the other one holds.\<close>

definition hs_linked :: "crypto \<Rightarrow> Initiator \<Rightarrow> Responder \<Rightarrow> bool" where
  "hs_linked cr i r \<longleftrightarrow>
     re_sym r = in_sym i \<and> X25519 cr (in_ephSecret i) (Basepoint cr) = Some (re_re r) \<and>
     X25519 cr (in_staticSecret i) (Basepoint cr) = Some (re_RemoteStaticPub r) \<and>
     length (re_ephPublic r) = 32 \<and> length (in_re i) = 32"

lemma initiation_read:
  assumes laws: "x25519_laws cr" "aead_laws cr" "blake2s_laws cr"
    and SI: "X25519 cr sI (Basepoint cr) = Some SI" and SR: "X25519 cr sR (Basepoint cr) = Some SR"
    and cookie: "length cookie = 16"
    and w: "WriteInitiation cr (NewInitiator cr sI SI SR) out idx ts eI sigR cookie = (Inr (), i, m)"
  shows "\<exists>r. ReadInitiation cr (NewResponder cr sR SR) m sigR = (Inr (), r) \<and>
             re_RemoteStaticPub r = SI \<and> hs_linked cr i r"
proof -
  let ?i0 = "NewInitiator cr sI SI SR"
  define sym0 where "sym0 = in_sym ?i0"
  have i0: "length (in_ephPublic ?i0) = 32" "in_responderStatic ?i0 = SR" "in_staticPublic ?i0 = SI"
    "in_staticSecret ?i0 = sI" "length (in_re ?i0) = 32" by (simp_all add: NewInitiator_def)
  from WriteInitiation_steps [OF w i0(1) laws(1), unfolded i0 sym0_def [symmetric]]
  obtain EI es encS s1 ss encTs s2 where
    len: "Msg1Size \<le> length out" and EI: "X25519 cr eI (Basepoint cr) = Some EI" "length EI = 32"
    and es: "dh cr eI SR = Inr es"
    and encS: "encryptAndHash cr SI (mixKey cr es (mixHash cr EI sym0)) = (Inr encS, s1)"
    and ss: "dh cr sI SR = Inr ss"
    and encTs: "encryptAndHash cr (be64 ts) (mixKey cr ss s1) = (Inr encTs, s2)"
    and i: "i = ?i0\<lparr>in_ephSecret := eI, in_ephPublic := EI, in_sym := s2\<rparr>"
    and m: "m = msg1_seal (computeMac1 cr sigR (subslice (msg1_frame out EI encS encTs (be32 idx)) 0 112))
              cookie (msg1_frame out EI encS encTs (be32 idx))" .
  have SIl: "length SI = 32" by (rule x25519_len [OF laws(1) SI])
  have decS: "decryptAndHash cr encS (mixKey cr es (mixHash cr EI sym0)) = (Inr SI, s1)" "length encS = 48"
    using decrypt_inverts_encrypt [OF laws(2) _ _ encS] mixKey_keyed [OF laws(3)] SIl by simp_all
  have decTs: "decryptAndHash cr encTs (mixKey cr ss s1) = (Inr (be64 ts), s2)" "length encTs = 24"
    using decrypt_inverts_encrypt [OF laws(2) _ _ encTs] mixKey_keyed [OF laws(3)] by simp_all
  note slices = msg1_slices [OF len EI(2) decS(2) decTs(2) length_be(2) [of idx] length_computeMac1 cookie,
      of cr sigR "subslice (msg1_frame out EI encS encTs (be32 idx)) 0 112", folded m]
  have es': "dh cr sR EI = Inr es" using es dh_agree [OF laws(1) SR EI(1)] by simp
  have ss': "dh cr sR SI = Inr ss" using ss dh_agree [OF laws(1) SR SI] by simp
  have sym0: "mixHash cr SR (newSymmetricState cr) = sym0" by (simp add: sym0_def NewInitiator_def)
  have "ReadInitiation cr (NewResponder cr sR SR) m sigR =
      (Inr (), (NewResponder cr sR SR)\<lparr>re_sym := s2, re_re := EI, re_RemoteStaticPub := SI\<rparr>)"
    using len by (simp add: ReadInitiation_def NewResponder_def sym0 copy_at_whole slices EI(2) SIl es' ss' decS(1) decTs(1))
  then show ?thesis using EI(1) SI i0 by (simp add: hs_linked_def i NewResponder_def)
qed

text \<open>What a successful \<open>WriteResponse\<close> did.\<close>

lemma WriteResponse_steps:
  assumes w: "WriteResponse cr r out sidx ridx eR sigR cookie = (Inr (), r', m)"
    and "length (re_ephPublic r) = 32" and "x25519_laws cr"
  obtains ER ee se encN s1 where
    "Msg2Size \<le> length out" "X25519 cr eR (Basepoint cr) = Some ER" "length ER = 32"
    "dh cr eR (re_re r) = Inr ee" "dh cr eR (re_RemoteStaticPub r) = Inr se"
    "encryptAndHash cr [] (mixKey cr se (mixKey cr ee (mixHash cr ER (re_sym r)))) = (Inr encN, s1)"
    "r' = r\<lparr>re_ephSecret := eR, re_ephPublic := ER, re_sym := s1\<rparr>"
    "m = msg2_seal (computeMac1 cr sigR (subslice (msg2_frame out (be32 sidx) (be32 ridx) ER encN) 0 60))
           cookie (msg2_frame out (be32 sidx) (be32 ridx) ER encN)"
proof -
  have len: "Msg2Size \<le> length out" using w by (rule_tac ccontr) (simp add: WriteResponse_def)
  obtain ER where ER: "X25519 cr eR (Basepoint cr) = Some ER"
    using w len by (cases "X25519 cr eR (Basepoint cr)") (simp_all add: WriteResponse_def)
  have ERl: "length ER = 32" by (rule x25519_len [OF assms(3) ER])
  have eph: "copy_at 0 ER (re_ephPublic r) = ER" using assms(2) ERl by (simp add: copy_at_whole)
  note st = WriteResponse_def Let_def len ER eph
  obtain ee where ee: "dh cr eR (re_re r) = Inr ee"
    using w len by (cases "dh cr eR (re_re r)") (simp_all add: st)
  obtain se where se: "dh cr eR (re_RemoteStaticPub r) = Inr se"
    using w len by (cases "dh cr eR (re_RemoteStaticPub r)") (simp_all add: st ee)
  obtain s1 rN where
    rN: "encryptAndHash cr [] (mixKey cr se (mixKey cr ee (mixHash cr ER (re_sym r)))) = (rN, s1)" by fastforce
  obtain encN where encN: "rN = Inr encN" using w len by (cases rN) (simp_all add: st ee se rN)
  show thesis
    using w len rN
    by (intro that [OF len ER ERl ee se]) (auto simp: st ee se encN msg2_seal_def msg2_frame_def)
qed

lemma response_frame:
  assumes "x25519_laws cr" and "aead_laws cr" and "blake2s_laws cr" and "length (re_ephPublic r) = 32" and "length cookie = 16"
    and w: "WriteResponse cr r (replicate Msg2Size 0) sidx ridx eR sig cookie = (Inr (), r', m2)"
  shows "length m2 = Msg2Size" "m2 ! 0 = 2" "be_word (subslice m2 4 8) = sidx"
proof -
  from WriteResponse_steps [OF w assms(4,1)] obtain ER ee se encN s1 where
    ER: "length ER = 32"
    and encN: "encryptAndHash cr [] (mixKey cr se (mixKey cr ee (mixHash cr ER (re_sym r)))) = (Inr encN, s1)"
    and m: "m2 = msg2_seal (computeMac1 cr sig (subslice (msg2_frame (replicate Msg2Size 0) (be32 sidx) (be32 ridx) ER encN) 0 60))
           cookie (msg2_frame (replicate Msg2Size 0) (be32 sidx) (be32 ridx) ER encN)" by metis
  have e: "length encN = 16"
    using decrypt_inverts_encrypt [OF assms(2) _ _ encN] mixKey_keyed [OF assms(3)] by simp
  note sl = msg2_slices [OF _ ER e length_be(2) [of sidx] length_be(2) [of ridx] length_computeMac1 assms(5), of "replicate Msg2Size 0"]
  show len: "length m2 = Msg2Size" using sl(1) by (simp add: m)
  have "take 4 m2 = [2, 0, 0, 0]" by (simp add: m take_msg2_type)
  from arg_cong [OF this, of hd] show "m2 ! 0 = 2" using len by (cases m2) auto
  have "subslice m2 4 8 = be32 sidx" using sl(2) by (simp add: m)
  then show "be_word (subslice m2 4 8) = sidx" by (simp add: be_word_be32)
qed

lemma response_read:
  assumes laws: "x25519_laws cr" "aead_laws cr" "blake2s_laws cr"
    and link: "hs_linked cr i r" and cookie: "length cookie = 16"
    and w: "WriteResponse cr r out sidx ridx eR sigR cookie = (Inr (), r', m)"
  shows "\<exists>i'. ReadResponse cr i m sigR = (Inr (), i') \<and> in_sym i' = re_sym r'"
proof -
  have l: "re_sym r = in_sym i" "X25519 cr (in_ephSecret i) (Basepoint cr) = Some (re_re r)"
    "X25519 cr (in_staticSecret i) (Basepoint cr) = Some (re_RemoteStaticPub r)"
    "length (re_ephPublic r) = 32" "length (in_re i) = 32"
    using link by (simp_all add: hs_linked_def)
  from WriteResponse_steps [OF w l(4) laws(1)]
  obtain ER ee se encN s1 where
    len: "Msg2Size \<le> length out" and ER: "X25519 cr eR (Basepoint cr) = Some ER" "length ER = 32"
    and ee: "dh cr eR (re_re r) = Inr ee" and se: "dh cr eR (re_RemoteStaticPub r) = Inr se"
    and encN: "encryptAndHash cr [] (mixKey cr se (mixKey cr ee (mixHash cr ER (re_sym r)))) = (Inr encN, s1)"
    and r': "r' = r\<lparr>re_ephSecret := eR, re_ephPublic := ER, re_sym := s1\<rparr>"
    and m: "m = msg2_seal (computeMac1 cr sigR (subslice (msg2_frame out (be32 sidx) (be32 ridx) ER encN) 0 60))
           cookie (msg2_frame out (be32 sidx) (be32 ridx) ER encN)" .
  have decN: "decryptAndHash cr encN (mixKey cr se (mixKey cr ee (mixHash cr ER (re_sym r)))) = (Inr [], s1)"
    "length encN = 16"
    using decrypt_inverts_encrypt [OF laws(2) _ _ encN] mixKey_keyed [OF laws(3)] by simp_all
  note slices = msg2_slices [OF len ER(2) decN(2) length_be(2) [of sidx] length_be(2) [of ridx]
      length_computeMac1 cookie,
      of cr sigR "subslice (msg2_frame out (be32 sidx) (be32 ridx) ER encN) 0 60", folded m]
  have ee': "dh cr (in_ephSecret i) ER = Inr ee" using ee dh_agree [OF laws(1) ER(1) l(2)] by simp
  have se': "dh cr (in_staticSecret i) ER = Inr se" using se dh_agree [OF laws(1) ER(1) l(3)] by simp
  have "ReadResponse cr i m sigR = (Inr (), i\<lparr>in_re := ER, in_sym := s1\<rparr>)"
    using len decN(1) l(1)
    by (simp add: ReadResponse_def copy_at_whole slices ER(2) l(5) ee' se')
  then show ?thesis by (simp add: r')
qed

lemma handshake_agrees:
  assumes "x25519_laws cr" and "aead_laws cr" and "blake2s_laws cr"
    and "X25519 cr sI (Basepoint cr) = Some SI" and "X25519 cr sR (Basepoint cr) = Some SR"
    and "length cookie1 = 16" and "length cookie2 = 16"
    and "WriteInitiation cr (NewInitiator cr sI SI SR) out1 idx1 ts eI sigR cookie1 = (Inr (), i, m1)"
    and "WriteResponse cr (snd (ReadInitiation cr (NewResponder cr sR SR) m1 sigR))
           out2 idx2 ridx eR sigR cookie2 = (Inr (), r, m2)"
  shows "fst (ReadInitiation cr (NewResponder cr sR SR) m1 sigR) = Inr () \<and>
         fst (ReadResponse cr i m2 sigR) = Inr () \<and> re_RemoteStaticPub r = SI \<and>
         (let ri = Initiator_Finalize cr (snd (ReadResponse cr i m2 sigR)); rr = Responder_Finalize cr r
          in hr_SendKey ri = hr_RecvKey rr \<and> hr_RecvKey ri = hr_SendKey rr \<and> hr_H ri = hr_H rr)"
proof -
  from initiation_read [OF assms(1-6,8)] obtain r0 where
    r0: "ReadInitiation cr (NewResponder cr sR SR) m1 sigR = (Inr (), r0)" "re_RemoteStaticPub r0 = SI"
      "hs_linked cr i r0" by blast
  have w: "WriteResponse cr r0 out2 idx2 ridx eR sigR cookie2 = (Inr (), r, m2)" using assms(9) r0 by simp
  have len: "length (re_ephPublic r0) = 32" using r0(3) by (simp add: hs_linked_def)
  have "re_RemoteStaticPub r = re_RemoteStaticPub r0"
    by (rule WriteResponse_steps [OF w len assms(1)]) simp
  moreover from response_read [OF assms(1-3) r0(3) assms(7) w] obtain i' where
    "ReadResponse cr i m2 sigR = (Inr (), i')" "in_sym i' = re_sym r" by blast
  ultimately show ?thesis
    using r0 by (simp add: Initiator_Finalize_def Responder_Finalize_def split: prod.splits)
qed

lemma Finalize_lengths:
  assumes "blake2s_laws cr"
  shows "length (hr_SendKey (Initiator_Finalize cr i)) = keyLen" "length (hr_RecvKey (Initiator_Finalize cr i)) = keyLen"
  using length_hkdf2 [OF assms, of "sym_ck (in_sym i)" "[]"]
  by (cases "hkdf2 cr (sym_ck (in_sym i)) []"; simp add: Initiator_Finalize_def split_keys_def)+

text \<open>C5: Handshake agreement. When an initiator that knows the responder's static key
  writes an initiation and the responder, having read it, writes a response, then both
  messages are accepted, the responder has learnt the initiator's static public key, both
  ends hold the same transcript hash, and each end's send key is the other's receive
  key.\<close>

theorem handshake_agreement:
  assumes "x25519_laws cr" and "aead_laws cr" and "blake2s_laws cr"
    and "X25519 cr sI (Basepoint cr) = Some SI" and "X25519 cr sR (Basepoint cr) = Some SR"
    and "length cookie1 = 16" and "length cookie2 = 16"
    and "WriteInitiation cr (NewInitiator cr sI SI SR) out1 idx1 ts eI sigR cookie1 = (Inr (), i, m1)"
    and "WriteResponse cr (snd (ReadInitiation cr (NewResponder cr sR SR) m1 sigR))
           out2 idx2 ridx eR sigR cookie2 = (Inr (), r, m2)"
  shows "fst (ReadInitiation cr (NewResponder cr sR SR) m1 sigR) = Inr () \<and>
         fst (ReadResponse cr i m2 sigR) = Inr () \<and> re_RemoteStaticPub r = SI \<and>
         (let ri = Initiator_Finalize cr (snd (ReadResponse cr i m2 sigR)); rr = Responder_Finalize cr r
          in hr_SendKey ri = hr_RecvKey rr \<and> hr_RecvKey ri = hr_SendKey rr \<and> hr_H ri = hr_H rr)"
  by (rule handshake_agrees [OF assms])

text \<open>A complete run on concrete keys.\<close>

definition demo_init :: "unit result \<times> Initiator \<times> bytes" where
  "demo_init =
     WriteInitiation ref_crypto (NewInitiator ref_crypto (key32 1) (8 # replicate 31 1) (11 # replicate 31 2))
       (replicate 144 0) 1 99 (key32 3) (key32 4) (replicate 16 0)"

definition demo_read :: "unit result \<times> Responder" where
  "demo_read = ReadInitiation ref_crypto (NewResponder ref_crypto (key32 2) (11 # replicate 31 2))
     (snd (snd demo_init)) (key32 4)"

definition demo_resp :: "unit result \<times> Responder \<times> bytes" where
  "demo_resp = WriteResponse ref_crypto (snd demo_read) (replicate 92 0) 5 1 (key32 7) (key32 4) (replicate 16 0)"

lemma demo_points:
  "X25519 ref_crypto (key32 1) (Basepoint ref_crypto) = Some (8 # replicate 31 1)"
  "X25519 ref_crypto (key32 2) (Basepoint ref_crypto) = Some (11 # replicate 31 2)"
  by code_simp+

lemma demo_init_ok: "fst demo_init = Inr ()"
  by code_simp

lemma demo_resp_ok: "fst demo_resp = Inr ()"
  by code_simp

theorem handshake_agreement_witness:
  "fst demo_read = Inr () \<and>
   (let ri = Initiator_Finalize ref_crypto (snd (ReadResponse ref_crypto (fst (snd demo_init)) (snd (snd demo_resp)) (key32 4)));
        rr = Responder_Finalize ref_crypto (fst (snd demo_resp))
    in hr_SendKey ri = hr_RecvKey rr \<and> hr_RecvKey ri = hr_SendKey rr \<and> hr_H ri = hr_H rr)"
proof -
  have i: "demo_init = (Inr (), fst (snd demo_init), snd (snd demo_init))"
    using demo_init_ok by (metis prod.collapse)
  have r: "demo_resp = (Inr (), fst (snd demo_resp), snd (snd demo_resp))"
    using demo_resp_ok by (metis prod.collapse)
  show ?thesis
    using handshake_agreement [OF ref_x25519 ref_aead ref_blake2s demo_points length_replicate length_replicate
        i [unfolded demo_init_def] r [unfolded demo_resp_def demo_read_def, unfolded demo_init_def]]
    by (simp add: demo_read_def demo_resp_def demo_init_def Let_def)
qed

text \<open>The mac1 gate. A message of sufficient size whose mac1 does not match is refused
  with \<open>ErrMac1Failed\<close> by either end, whatever the Diffie-Hellman and AEAD primitives
  would answer, and the handshake state is left exactly as it was.\<close>

lemma mac1_gate:
  "(Msg1Size \<le> length m \<longrightarrow> computeMac1 cr sigR (take 112 m) \<noteq> take 16 (drop 112 m) \<longrightarrow>
      ReadInitiation cr r m sigR = (Inl ErrMac1Failed, r)) \<and>
   (Msg2Size \<le> length m \<longrightarrow> computeMac1 cr sigR (take 60 m) \<noteq> take 16 (drop 60 m) \<longrightarrow>
      ReadResponse cr i m sigR = (Inl ErrMac1Failed, i))"
  by (simp add: ReadInitiation_def ReadResponse_def subslice_def)

end
