(* ===== verification/Wire_Transport.thy ===== *)
theory Wire_Transport
  imports Wire_Noise Wire_Validate
begin

text \<open>
  \<open>wire/transport.go\<close>: the transport packet sealed under a handshake key, and the
  binding frame that ties a certificate to a session's transcript hash.

  Shown: opening inverts sealing and nothing but a sealed payload opens; a binding frame
  splits back into its parts exactly when the certificate fits the 16-bit length field,
  and acceptance of a frame is the conjunction of the checks the profile names.
\<close>

abbreviation transportType :: byte where "transportType \<equiv> 4"
abbreviation transportHdrLen :: nat where "transportHdrLen \<equiv> 16"

definition SealTransport :: "crypto \<Rightarrow> bytes \<Rightarrow> uint32 \<Rightarrow> uint64 \<Rightarrow> bytes \<Rightarrow> bytes result" where
  "SealTransport cr key receiverIndex counter plaintext =
     rbind (aead_New key) (\<lambda>aead.
     let hdr = replicate transportHdrLen 0;
         hdr = hdr[0 := transportType];
         hdr = copy_at 4 (be32 receiverIndex) hdr;
         hdr = copy_at 8 (be64 counter) hdr;
         nonce = transportNonce counter;
         ct = aead_Seal cr aead nonce plaintext hdr
     in Inr (hdr @ ct))"

definition OpenTransport :: "crypto \<Rightarrow> bytes \<Rightarrow> bytes \<Rightarrow> (bytes \<times> uint64) result" where
  "OpenTransport cr key packet =
     (if length packet < transportHdrLen + tagLen then Inl ErrPacketTooShort
      else rbind (go_index packet 0) (\<lambda>t.
      if t \<noteq> transportType then Inl ErrNotTransport
      else rbind (go_slice packet 8 16) (\<lambda>ctr.
        let counter = be_word ctr in
        rbind (aead_New key) (\<lambda>aead.
        let nonce = transportNonce counter in
        rbind (go_slice packet transportHdrLen (length packet)) (\<lambda>ct.
        rbind (go_slice packet 0 transportHdrLen) (\<lambda>hdr.
        case aead_Open cr aead nonce ct hdr of
          None \<Rightarrow> Inl ErrDecryptFailed
        | Some pt \<Rightarrow> Inr (pt, counter)))))))"

definition BuildBindingFrame :: "crypto \<Rightarrow> bytes \<Rightarrow> bytes \<Rightarrow> bytes \<Rightarrow> bytes result" where
  "BuildBindingFrame cr cert sigSeed h =
     rbind (NewKeyFromSeed cr sigSeed) (\<lambda>priv.
     let msg = DomainBinding # h in
     rbind (ed25519_Sign cr priv msg) (\<lambda>sig.
     let out = replicate (2 + length cert + length sig) 0;
         out = copy_at 0 (be16 (of_nat (length cert))) out;
         out = copy_at 2 cert out;
         out = copy_at (2 + length cert) sig out
     in Inr out))"

definition ParseBindingFrame :: "bytes \<Rightarrow> (bytes \<times> bytes) result" where
  "ParseBindingFrame frame =
     (if length frame < 2 then Inl ErrTruncated
      else rbind (go_slice frame 0 2) (\<lambda>pre.
        let certLen = unat (be_word pre :: uint16) in
        if length frame \<noteq> 2 + certLen + LenSig then Inl ErrBindingLength
        else rbind (go_slice frame 2 (2 + certLen)) (\<lambda>cert.
             rbind (go_slice frame (2 + certLen) (length frame)) (\<lambda>sig. Inr (cert, sig)))))"

definition VerifyBindingFrame :: "crypto \<Rightarrow> bytes \<Rightarrow> bytes \<Rightarrow> bytes list \<Rightarrow> Cert result" where
  "VerifyBindingFrame cr frame h trusted =
     rbind (ParseBindingFrame frame) (\<lambda>(certBytes, sig).
     rbind (ParseCert certBytes) (\<lambda>cert.
     rbind (ValidateCertChainNoClock cr cert trusted) (\<lambda>_.
     if VerifySigned cr DomainBinding h sig (cert_SigPubkey cert) \<noteq> Inr ()
     then Inl ErrBindingSignature
     else Inr cert)))"

subsection \<open>No access is out of range\<close>

lemma OpenTransport_eq:
  "OpenTransport cr key packet =
     (if length packet < transportHdrLen + tagLen then Inl ErrPacketTooShort
      else if packet ! 0 \<noteq> transportType then Inl ErrNotTransport
      else
        let counter = be_word (subslice packet 8 16) in
        rbind (aead_New key) (\<lambda>aead.
        case aead_Open cr aead (transportNonce counter) (drop transportHdrLen packet) (take transportHdrLen packet) of
          None \<Rightarrow> Inl ErrDecryptFailed
        | Some pt \<Rightarrow> Inr (pt, counter)))"
proof (cases "length packet < transportHdrLen + tagLen")
  case False
  then have "packet \<noteq> []" "16 \<le> length packet" by auto
  with False show ?thesis unfolding OpenTransport_def Let_def by (simp add: subslice_ends)
qed (simp add: OpenTransport_def)

lemma ParseBindingFrame_eq:
  "ParseBindingFrame frame =
     (if length frame < 2 then Inl ErrTruncated
      else
        let certLen = unat (be_word (take 2 frame) :: uint16) in
        if length frame \<noteq> 2 + certLen + LenSig then Inl ErrBindingLength
        else Inr (subslice frame 2 (2 + certLen), drop (2 + certLen) frame))"
proof (cases "length frame < 2")
  case False
  define n where "n = unat (be_word (take 2 frame) :: uint16)"
  have "go_slice frame 0 2 = Inr (take 2 frame)" using False by (simp add: subslice_ends)
  then show ?thesis
    using False unfolding ParseBindingFrame_def Let_def by (simp add: n_def [symmetric] subslice_def)
qed (simp add: ParseBindingFrame_def)

lemma aead_New_no_panic [panic_free]: "no_panic (aead_New key)"
  by (simp add: aead_New_def is_panic_def)

lemma OpenTransport_no_panic [panic_free]: "no_panic (OpenTransport cr key p)"
  unfolding OpenTransport_eq Let_def
  by (intro panic_free) (simp_all add: is_panic_def split: option.split)

lemma ParseBindingFrame_no_panic [panic_free]: "no_panic (ParseBindingFrame frame)"
  unfolding ParseBindingFrame_eq Let_def by (intro panic_free; simp (no_asm) add: is_panic_def)

lemma VerifyBindingFrame_no_panic [panic_free]: "no_panic (VerifyBindingFrame cr frame h trusted)"
proof -
  have chain: "no_panic (ValidateCertChainNoClock cr ct trusted)" if "ParseCert cb = Inr ct" for cb ct
    using that ValidateCertChainNoClock_no_panic [of ct cr trusted] by (auto simp: no_panic_def certc.parse_iff)
  show ?thesis
    unfolding VerifyBindingFrame_def
    by (intro panic_free chain; (assumption | simp add: is_panic_def))
qed

subsection \<open>Transport packets\<close>

text \<open>The sixteen header bytes.\<close>

definition transport_hdr :: "uint32 \<Rightarrow> uint64 \<Rightarrow> bytes" where
  "transport_hdr idx counter = [4, 0, 0, 0] @ be32 idx @ be64 counter"

lemma hdr_layout:
  "copy_at 8 (be64 n) (copy_at 4 (be32 i) ((replicate 16 0)[0 := 4])) = transport_hdr i n"
  by (simp add: transport_hdr_def copy_at_def numeral_eq_Suc)

lemma SealTransport_layout:
  "length key = keyLen \<Longrightarrow> SealTransport cr key i n pt =
     Inr (transport_hdr i n @ aead_Seal cr key (transportNonce n) pt (transport_hdr i n))"
  by (simp only: SealTransport_def Let_def hdr_layout) (simp add: aead_New_def)

lemma length_transport_hdr [simp]: "length (transport_hdr i n) = 16"
  by (simp add: transport_hdr_def)

lemma transport_hdr_fields:
  "(transport_hdr i n @ ct) ! 0 = 4" "subslice (transport_hdr i n @ ct) 8 16 = be64 n"
  by (simp_all add: transport_hdr_def subslice_def be32_def)

lemma be_word_be64 [simp]: "be_word (be64 n) = n"
  using be64_read [of "be64 n" n] by simp

lemma transportNonce_inject: "transportNonce a = transportNonce b \<longleftrightarrow> a = b"
proof
  assume "transportNonce a = transportNonce b"
  then have "be64 a = be64 b" by (simp add: transportNonce_def copy_at_def)
  then show "a = b" by (metis be_word_be64)
qed simp

subsection \<open>Binding frames\<close>

lemma BuildBindingFrame_layout:
  assumes "ed25519_laws cr" and "length seed = SeedSize"
  shows "BuildBindingFrame cr cert seed h =
     Inr (be16 (of_nat (length cert)) @ cert @ ed_sign cr (seed @ ed_pub cr seed) (DomainBinding # h))"
  using assms
  by (simp add: BuildBindingFrame_def NewKeyFromSeed_def ed25519_Sign_def ed25519_lawsD Let_def copy_at_def)

lemma be_word_be16: "be_word (be16 v) = v"
  using be16_read [of "ucast (drop_bit 8 v)" "ucast v" v] by (simp add: be16_def)

lemma ParseBindingFrame_iff:
  "ParseBindingFrame frame = Inr (cert, sig) \<longleftrightarrow>
     frame = enc_field16 cert @ sig \<and> length cert < 65536 \<and> length sig = LenSig" (is "?P \<longleftrightarrow> ?R")
proof
  assume ?P
  then have len: "2 \<le> length frame" by (auto simp: ParseBindingFrame_eq split: if_splits)
  then obtain x y rest where f: "frame = x # y # rest" by (auto simp: numeral_eq_Suc Suc_le_length_iff)
  let ?n = "be_word [x, y] :: uint16"
  have "length rest = unat ?n + LenSig" "cert = take (unat ?n) rest" "sig = drop (unat ?n) rest"
    using \<open>?P\<close> f by (auto simp: ParseBindingFrame_eq Let_def subslice_def split: if_splits)
  moreover from this have "of_nat (length cert) = ?n" by simp
  moreover have "be16 ?n = [x, y]" using be16_read by blast
  ultimately show ?R using f unat_lt16 [of ?n] by (simp add: enc_field16_def)
next
  assume ?R
  then show ?P by (simp add: ParseBindingFrame_eq enc_field16_def Let_def be_word_be16 unat_of_nat_lt16 subslice_def)
qed

lemma binding_checks_iff:
  "rbind (ParseCert cb) (\<lambda>cert. rbind (ValidateCertChainNoClock cr cert trusted) (\<lambda>_.
     if VerifySigned cr DomainBinding h sig (cert_SigPubkey cert) \<noteq> Inr () then Inl ErrBindingSignature
     else Inr cert)) = Inr ct \<longleftrightarrow>
   ParseCert cb = Inr ct \<and> chain_accepts cr ct trusted \<and> length sig = LenSig \<and>
   ed_verify cr (cert_SigPubkey ct) (DomainBinding # h) sig"
proof (cases "ParseCert cb")
  case (Inr c)
  then have c: "cert_ok c" by (simp add: certc.parse_iff)
  then have "length (cert_SigPubkey c) = PublicKeySize" by (simp add: cert_ok_def)
  then show ?thesis using Inr chain_accepts_iff [OF c]
    by (auto simp: rbind_eq_Inr VerifySigned_ok_iff)
qed simp

lemma VerifyBindingFrame_ok_iff:
  "VerifyBindingFrame cr frame h trusted = Inr ct \<longleftrightarrow>
     (\<exists>cb sig. ParseBindingFrame frame = Inr (cb, sig) \<and> ParseCert cb = Inr ct \<and> chain_accepts cr ct trusted \<and>
        length sig = LenSig \<and> ed_verify cr (cert_SigPubkey ct) (DomainBinding # h) sig)"
proof (cases "ParseBindingFrame frame")
  case (Inr f)
  then show ?thesis
    unfolding VerifyBindingFrame_def by (cases f) (simp only: rbind_Inr prod.case binding_checks_iff, auto)
qed (simp add: VerifyBindingFrame_def)

subsection \<open>Properties\<close>

text \<open>Opening inverts sealing.\<close>

lemma seal_then_open:
  assumes "aead_laws cr" and "length key = keyLen"
  shows "\<exists>p. SealTransport cr key idx counter pt = Inr p \<and> take 4 p = [transportType, 0, 0, 0] \<and>
             length p = transportHdrLen + length pt + tagLen \<and> OpenTransport cr key p = Inr (pt, counter)"
proof -
  let ?h = "transport_hdr idx counter"
  let ?ct = "aead_Seal cr key (transportNonce counter) pt ?h"
  have law: "aead_Open cr key (transportNonce counter) ?ct ?h = Some pt" "length ?ct = length pt + 16"
    using assms by (simp_all add: aead_laws_def)
  then have "OpenTransport cr key (?h @ ?ct) = Inr (pt, counter)"
    using assms(2) by (simp add: OpenTransport_eq transport_hdr_fields Let_def aead_New_def)
  then show ?thesis
    using law(2) by (simp add: SealTransport_layout [OF assms(2)]) (simp add: transport_hdr_def)
qed

text \<open>
  C29: Only sealed packets open. A packet opens to a plaintext and a counter exactly when it
  is a 16-byte header of type 4 that carries that counter, followed by the sealing of that
  plaintext with that whole header as associated data: no header bit is unprotected.
\<close>

theorem OpenTransport_iff:
  assumes "aead_laws cr" and "aead_exact cr" and "length key = keyLen"
  shows "OpenTransport cr key p = Inr (pt, counter) \<longleftrightarrow>
     (\<exists>hdr. length hdr = transportHdrLen \<and> hdr ! 0 = transportType \<and> drop 8 hdr = be64 counter \<and>
            p = hdr @ aead_Seal cr key (transportNonce counter) pt hdr)" (is "?O \<longleftrightarrow> ?S")
proof
  assume ?O
  let ?h = "take 16 p"
  have p: "32 \<le> length p" "p ! 0 = 4" "be_word (subslice p 8 16) = counter"
    and op: "aead_Open cr key (transportNonce counter) (drop 16 p) ?h = Some pt"
    using \<open>?O\<close> assms(3)
    by (auto simp: OpenTransport_eq Let_def aead_New_def split: if_splits option.splits)
  have "drop 16 p = aead_Seal cr key (transportNonce counter) pt ?h"
    using op assms(2,3) by (simp add: aead_exact_def)
  moreover have "drop 8 ?h = be64 counter"
    using p(1,3) be64_read [of "subslice p 8 16" counter] by (simp add: subslice_def drop_take)
  ultimately show ?S using p(1,2) by (intro exI [of _ ?h]) (simp, metis append_take_drop_id)
next
  assume ?S
  then obtain hdr where h: "length hdr = 16" "hdr ! 0 = 4" "drop 8 hdr = be64 counter"
    "p = hdr @ aead_Seal cr key (transportNonce counter) pt hdr" by blast
  have "subslice p 8 16 = be64 counter" using h by (simp add: subslice_def)
  then show ?O using h assms by (simp add: OpenTransport_eq Let_def aead_New_def aead_laws_def nth_append)
qed

text \<open>
  C28: A binding frame is accepted exactly when it is a length-prefixed certificate followed
  by a 64-byte signature, the certificate parses and is accepted clock-free against the
  trusted CAs, and the signature verifies over the session's transcript hash in the
  binding domain under the certificate's own key.
\<close>

theorem VerifyBindingFrame_iff:
  "VerifyBindingFrame cr frame h trusted = Inr ct \<longleftrightarrow>
     (\<exists>cb sig. frame = enc_field16 cb @ sig \<and> length cb < 65536 \<and> length sig = LenSig \<and>
        ParseCert cb = Inr ct \<and> chain_accepts cr ct trusted \<and>
        ed_verify cr (cert_SigPubkey ct) (DomainBinding # h) sig)"
  unfolding VerifyBindingFrame_ok_iff ParseBindingFrame_iff by blast

lemma binding_frame_accepted:
  assumes "ed25519_laws cr" and "length seed = SeedSize" and "ParseCert cb = Inr ct" and "chain_accepts cr ct trusted"
    and "cert_SigPubkey ct = ed_pub cr seed"
  shows "\<exists>frame. BuildBindingFrame cr cb seed h = Inr frame \<and> VerifyBindingFrame cr frame h trusted = Inr ct"
proof -
  have "length cb < 65536"
    using assms(3) by (auto simp: certc.parse_iff cert_ok_def enc_cert_def cert_layout_def enc_field16_def)
  then have "ParseBindingFrame (be16 (of_nat (length cb)) @ cb @ ed_sign cr (seed @ ed_pub cr seed) (DomainBinding # h)) =
      Inr (cb, ed_sign cr (seed @ ed_pub cr seed) (DomainBinding # h))"
    using assms(1) by (simp add: ParseBindingFrame_iff enc_field16_def ed25519_lawsD)
  then show ?thesis
    using assms by (simp add: BuildBindingFrame_layout VerifyBindingFrame_ok_iff ed25519_lawsD)
qed

text \<open>
  The honest peer is admitted, and a certificate too long for the length field fails
  closed. A frame built from a certificate's bytes splits back into them exactly when the
  certificate is shorter than 65536 bytes, and is refused for its length otherwise; and
  when the certificate is accepted and names the signing seed's key, the frame is
  accepted for the transcript hash it was made for.
\<close>

lemma BuildBindingFrame_accepted:
  assumes "ed25519_laws cr" and "length seed = SeedSize"
  shows "\<exists>frame. BuildBindingFrame cr cb seed h = Inr frame \<and>
     (if length cb < 65536 then \<exists>sig. ParseBindingFrame frame = Inr (cb, sig)
      else ParseBindingFrame frame = Inl ErrBindingLength) \<and>
     (ParseCert cb = Inr ct \<longrightarrow> chain_accepts cr ct trusted \<longrightarrow> cert_SigPubkey ct = ed_pub cr seed \<longrightarrow>
      VerifyBindingFrame cr frame h trusted = Inr ct)"
proof -
  let ?sig = "ed_sign cr (seed @ ed_pub cr seed) (DomainBinding # h)"
  let ?frame = "enc_field16 cb @ ?sig"
  have b: "BuildBindingFrame cr cb seed h = Inr ?frame"
    by (simp add: BuildBindingFrame_layout [OF assms] enc_field16_def)
  have sig: "length ?sig = LenSig" "ed_verify cr (ed_pub cr seed) (DomainBinding # h) ?sig"
    using assms by (simp_all add: ed25519_lawsD)
  have short: "length cb < 65536 \<Longrightarrow> ParseBindingFrame ?frame = Inr (cb, ?sig)"
    using sig(1) by (simp add: ParseBindingFrame_iff)
  have long: "ParseBindingFrame ?frame = Inl ErrBindingLength" if "\<not> length cb < 65536"
    using that sig(1) unat_lt16 [of "of_nat (length cb)"]
    by (simp add: ParseBindingFrame_eq enc_field16_def be_word_be16 Let_def)
  have "VerifyBindingFrame cr ?frame h trusted = Inr ct"
    if "ParseCert cb = Inr ct" "chain_accepts cr ct trusted" "cert_SigPubkey ct = ed_pub cr seed"
    using binding_frame_accepted [OF assms that, of h] b by simp
  then show ?thesis using b short long by auto
qed

theorem OpenTransport_iff_witness:
  "OpenTransport ref_crypto (key32 1) (transport_hdr 7 9 @ aead_Seal ref_crypto (key32 1) (transportNonce 9) [5] (transport_hdr 7 9))
     = Inr ([5], 9)"
proof -
  have "(transport_hdr 7 9) ! 0 = 4" "drop 8 (transport_hdr 7 9) = be64 9" by (simp_all add: transport_hdr_def)
  then show ?thesis
    by (subst OpenTransport_iff [OF ref_aead ref_aead_exact], simp) (intro exI [of _ "transport_hdr 7 9"], simp)
qed

end
