(* ===== verification/Noise_State.thy ===== *)
theory Noise_State
  imports Wire_Transport
begin

text \<open>
  The handshake objects of \<open>wire/noise.go\<close> as state machines. An \<open>Initiator\<close> and a
  \<open>Responder\<close> are reached from their constructors by any sequence of calls of their
  methods, with any messages and in any order, also after errors. In every reachable
  state the byte lists that stand for Go arrays have the arrays' sizes, the cipher's nonce
  counter is 0 or 1, and each method ends without the errors that a broken state would
  cause.
\<close>

subsection \<open>The symmetric state\<close>

definition sym_ok :: "symmetricState \<Rightarrow> bool" where
  "sym_ok s \<longleftrightarrow> length (sym_h s) = hashLen \<and> length (sym_ck s) = hashLen \<and> length (sym_k s) = keyLen \<and> sym_n s \<le> 1"

text \<open>The state right after \<open>mixKey\<close>: a key that has not been used yet.\<close>

definition sym_fresh :: "symmetricState \<Rightarrow> bool" where
  "sym_fresh s \<longleftrightarrow> sym_ok s \<and> sym_hasKey s \<and> sym_n s = 0"

lemma newSymmetricState_ok: "blake2s_laws cr \<Longrightarrow> sym_ok (newSymmetricState cr)"
  by (simp add: sym_ok_def newSymmetricState_def Let_def blake2sSum_def blake2s_lawsD)

lemma mixHash_ok: "blake2s_laws cr \<Longrightarrow> sym_ok s \<Longrightarrow> sym_ok (mixHash cr d s)"
  by (simp add: sym_ok_def mixHash_def blake2sSum_def blake2s_lawsD)

lemma mixKey_fresh:
  assumes "blake2s_laws cr" and "sym_ok s"
  shows "sym_fresh (mixKey cr ikm s)"
  using assms(2) length_hkdf2 [OF assms(1), of "sym_ck s" ikm]
  by (cases "hkdf2 cr (sym_ck s) ikm") (simp add: sym_fresh_def sym_ok_def mixKey_def)

lemma encrypt_fresh:
  assumes "blake2s_laws cr" and "sym_fresh s" and "encryptAndHash cr pt s = (r, s')"
  shows "sym_ok s' \<and> (\<exists>ct. r = Inr ct)"
proof -
  have s: "sym_hasKey s" "length (sym_k s) = keyLen" "sym_ok (s\<lparr>sym_n := sym_n s + 1\<rparr>)"
    using assms(2) by (simp_all add: sym_fresh_def sym_ok_def)
  show ?thesis
    using assms(3) mixHash_ok [OF assms(1) s(3)] by (auto simp: encrypt_keyed [OF s(1,2)] Let_def)
qed

lemma decrypt_fresh:
  assumes "blake2s_laws cr" and "sym_fresh s" and "decryptAndHash cr ct s = (r, s')"
  shows "sym_ok s' \<and> (\<forall>e. r = Inl e \<longrightarrow> e = ErrDecryptFailed)"
proof -
  have s: "sym_hasKey s" "length (sym_k s) = keyLen" "sym_ok s" "sym_ok (s\<lparr>sym_n := sym_n s + 1\<rparr>)"
    using assms(2) by (simp_all add: sym_fresh_def sym_ok_def)
  show ?thesis
    using assms(3) mixHash_ok [OF assms(1) s(4)] s
    by (auto simp: decryptAndHash_def aead_New_def Let_def split: option.splits)
qed

lemma dh_ok: "dh cr a p = Inr x \<Longrightarrow> length x = dhLen" "dh cr a p = Inl e \<Longrightarrow> e = ErrIdentityPoint"
  by (auto simp: dh_def split: option.splits)

text \<open>Each use of the cipher comes right after \<open>mixKey\<close>.\<close>

lemma encrypt_after_mixKey:
  "encryptAndHash cr pt (mixKey cr k s) = (r, s') \<Longrightarrow> blake2s_laws cr \<Longrightarrow> sym_ok s \<Longrightarrow> sym_ok s' \<and> (\<exists>ct. r = Inr ct)"
  by (rule encrypt_fresh [OF _ mixKey_fresh])

lemma decrypt_after_mixKey:
  "decryptAndHash cr ct (mixKey cr k s) = (r, s') \<Longrightarrow> blake2s_laws cr \<Longrightarrow> sym_ok s \<Longrightarrow>
   sym_ok s'"
  "decryptAndHash cr ct (mixKey cr k s) = (Inl e, s') \<Longrightarrow> blake2s_laws cr \<Longrightarrow> sym_ok s \<Longrightarrow> e = ErrDecryptFailed"
  using decrypt_fresh [OF _ mixKey_fresh] by blast+

lemma fresh_ok: "sym_fresh s \<Longrightarrow> sym_ok s"
  by (simp add: sym_fresh_def)

lemmas sym_steps = mixHash_ok fresh_ok [OF mixKey_fresh]

subsection \<open>The initiator\<close>

definition initiator_ok :: "Initiator \<Rightarrow> bool" where
  "initiator_ok i \<longleftrightarrow> sym_ok (in_sym i) \<and> length (in_staticSecret i) = dhLen \<and> length (in_staticPublic i) = dhLen \<and>
     length (in_ephSecret i) = dhLen \<and> length (in_ephPublic i) = dhLen \<and>
     length (in_responderStatic i) = dhLen \<and> length (in_re i) = dhLen"

lemma WriteInitiation_ok:
  assumes "blake2s_laws cr" and "initiator_ok i" and "length eph = dhLen"
    and "WriteInitiation cr i out idx ts eph sig cookie = (r, i', out')"
  shows "initiator_ok i' \<and> length out' = length out \<and> (\<forall>e. r = Inl e \<longrightarrow> e \<in> {ErrBufferTooSmall, ErrIdentityPoint})"
  using assms
  by (simp add: WriteInitiation_def Let_def split: if_splits option.splits sum.splits prod.splits)
    (auto simp: initiator_ok_def sym_steps dest!: encrypt_after_mixKey dest: dh_ok)

lemma ReadResponse_ok:
  assumes "blake2s_laws cr" and "initiator_ok i" and "ReadResponse cr i msg sig = (r, i')"
  shows "initiator_ok i' \<and> (\<forall>e. r = Inl e \<longrightarrow> e \<in> {ErrBufferTooSmall, ErrMac1Failed, ErrIdentityPoint, ErrDecryptFailed})"
  using assms
  by (simp add: ReadResponse_def Let_def split: if_splits option.splits sum.splits prod.splits)
    (auto simp: initiator_ok_def sym_steps dest: decrypt_after_mixKey dh_ok)

inductive initiator_reach :: "crypto \<Rightarrow> Initiator \<Rightarrow> bool" for cr where
  initiator_new: "length s = dhLen \<Longrightarrow> length p = dhLen \<Longrightarrow> length rs = dhLen \<Longrightarrow>
    initiator_reach cr (NewInitiator cr s p rs)"
| initiator_write: "initiator_reach cr i \<Longrightarrow> length eph = dhLen \<Longrightarrow>
    WriteInitiation cr i out idx ts eph sig cookie = (r, i', out') \<Longrightarrow> initiator_reach cr i'"
| initiator_read: "initiator_reach cr i \<Longrightarrow> ReadResponse cr i msg sig = (r, i') \<Longrightarrow> initiator_reach cr i'"

lemma initiator_reach_ok: "initiator_reach cr i \<Longrightarrow> blake2s_laws cr \<Longrightarrow> initiator_ok i"
proof (induction rule: initiator_reach.induct)
  case (initiator_new s p rs)
  then show ?case by (simp add: initiator_ok_def NewInitiator_def mixHash_ok newSymmetricState_ok)
qed (auto dest: WriteInitiation_ok ReadResponse_ok)

subsection \<open>The responder\<close>

definition responder_ok :: "Responder \<Rightarrow> bool" where
  "responder_ok r \<longleftrightarrow> sym_ok (re_sym r) \<and> length (re_staticSecret r) = dhLen \<and> length (re_staticPublic r) = dhLen \<and>
     length (re_ephSecret r) = dhLen \<and> length (re_ephPublic r) = dhLen \<and> length (re_re r) = dhLen \<and>
     length (re_RemoteStaticPub r) = dhLen"

lemma ReadInitiation_ok:
  assumes "blake2s_laws cr" and "responder_ok re" and "ReadInitiation cr re msg sig = (r, re')"
  shows "responder_ok re' \<and> (\<forall>e. r = Inl e \<longrightarrow> e \<in> {ErrBufferTooSmall, ErrMac1Failed, ErrIdentityPoint, ErrDecryptFailed})"
  using assms
  by (simp add: ReadInitiation_def Let_def split: if_splits option.splits sum.splits prod.splits)
    (auto simp: responder_ok_def sym_steps dest: decrypt_after_mixKey(2) dh_ok,
      (blast intro: decrypt_after_mixKey mixHash_ok)+)

lemma WriteResponse_ok:
  assumes "blake2s_laws cr" and "responder_ok re" and "length eph = dhLen"
    and "WriteResponse cr re out sidx ridx eph sig cookie = (r, re', out')"
  shows "responder_ok re' \<and> length out' = length out \<and> (\<forall>e. r = Inl e \<longrightarrow> e \<in> {ErrBufferTooSmall, ErrIdentityPoint})"
  using assms
  by (simp add: WriteResponse_def Let_def split: if_splits option.splits sum.splits prod.splits)
    (auto simp: responder_ok_def sym_steps dest!: encrypt_after_mixKey dest: dh_ok)

inductive responder_reach :: "crypto \<Rightarrow> Responder \<Rightarrow> bool" for cr where
  responder_new: "length s = dhLen \<Longrightarrow> length p = dhLen \<Longrightarrow> responder_reach cr (NewResponder cr s p)"
| responder_read: "responder_reach cr re \<Longrightarrow> ReadInitiation cr re msg sig = (r, re') \<Longrightarrow> responder_reach cr re'"
| responder_write: "responder_reach cr re \<Longrightarrow> length eph = dhLen \<Longrightarrow>
    WriteResponse cr re out sidx ridx eph sig cookie = (r, re', out') \<Longrightarrow> responder_reach cr re'"

lemma responder_reach_ok: "responder_reach cr re \<Longrightarrow> blake2s_laws cr \<Longrightarrow> responder_ok re"
proof (induction rule: responder_reach.induct)
  case (responder_new s p)
  then show ?case by (simp add: responder_ok_def NewResponder_def mixHash_ok newSymmetricState_ok)
qed (auto dest: WriteResponse_ok ReadInitiation_ok)

subsection \<open>Properties\<close>

lemma initiator_result_typed:
  assumes "blake2s_laws cr" and "initiator_ok i"
  defines "res \<equiv> Initiator_Finalize cr i"
  shows "length (hr_H res) = hashLen" "\<exists>p. SealTransport cr (hr_SendKey res) idx n pt = Inr p"
  using assms(2) Finalize_lengths [OF assms(1), of i]
  by (simp_all add: res_def initiator_ok_def sym_ok_def SealTransport_layout)
    (simp add: Initiator_Finalize_def split: prod.splits)

lemma responder_result_typed:
  assumes "blake2s_laws cr" and "responder_ok re"
  defines "res \<equiv> Responder_Finalize cr re"
  shows "length (hr_H res) = hashLen" "\<exists>p. SealTransport cr (hr_SendKey res) idx n pt = Inr p"
proof -
  obtain c1 c2 where c: "split_keys cr (re_sym re) = (c1, c2)" by fastforce
  then have "length c2 = 32" using length_hkdf2 [OF assms(1)] by (simp add: split_keys_def)
  then show "length (hr_H res) = hashLen" "\<exists>p. SealTransport cr (hr_SendKey res) idx n pt = Inr p"
    using assms(2) c by (simp_all add: res_def Responder_Finalize_def responder_ok_def sym_ok_def SealTransport_layout)
qed

lemma result_cases: "(\<forall>e. r = Inl e \<longrightarrow> e \<in> E) \<Longrightarrow> (r :: unit result) \<in> insert (Inr ()) (Inl ` E)"
  by (cases r) auto

lemma initiator_calls:
  assumes "blake2s_laws cr" and "initiator_ok i"
  shows "length eph = dhLen \<Longrightarrow>
      fst (WriteInitiation cr i out idx ts eph sig cookie) \<in> {Inr (), Inl ErrBufferTooSmall, Inl ErrIdentityPoint}"
    and "fst (ReadResponse cr i msg sig)
      \<in> {Inr (), Inl ErrBufferTooSmall, Inl ErrMac1Failed, Inl ErrIdentityPoint, Inl ErrDecryptFailed}"
proof -
  let ?w = "WriteInitiation cr i out idx ts eph sig cookie" and ?r = "ReadResponse cr i msg sig"
  show "fst ?w \<in> {Inr (), Inl ErrBufferTooSmall, Inl ErrIdentityPoint}" if "length eph = dhLen"
    using WriteInitiation_ok [OF assms that, of out idx ts sig cookie "fst ?w" "fst (snd ?w)" "snd (snd ?w)"]
      result_cases [of "fst ?w" "{ErrBufferTooSmall, ErrIdentityPoint}"] by simp
  show "fst ?r \<in> {Inr (), Inl ErrBufferTooSmall, Inl ErrMac1Failed, Inl ErrIdentityPoint, Inl ErrDecryptFailed}"
    using ReadResponse_ok [OF assms, of msg sig "fst ?r" "snd ?r"]
      result_cases [of "fst ?r" "{ErrBufferTooSmall, ErrMac1Failed, ErrIdentityPoint, ErrDecryptFailed}"] by simp
qed

lemma responder_calls:
  assumes "blake2s_laws cr" and "responder_ok re"
  shows "fst (ReadInitiation cr re msg sig)
      \<in> {Inr (), Inl ErrBufferTooSmall, Inl ErrMac1Failed, Inl ErrIdentityPoint, Inl ErrDecryptFailed}"
    and "length eph = dhLen \<Longrightarrow>
      fst (WriteResponse cr re out idx ridx eph sig cookie) \<in> {Inr (), Inl ErrBufferTooSmall, Inl ErrIdentityPoint}"
proof -
  let ?w = "WriteResponse cr re out idx ridx eph sig cookie" and ?r = "ReadInitiation cr re msg sig"
  show "fst ?w \<in> {Inr (), Inl ErrBufferTooSmall, Inl ErrIdentityPoint}" if "length eph = dhLen"
    using WriteResponse_ok [OF assms that, of out idx ridx sig cookie "fst ?w" "fst (snd ?w)" "snd (snd ?w)"]
      result_cases [of "fst ?w" "{ErrBufferTooSmall, ErrIdentityPoint}"] by simp
  show "fst ?r \<in> {Inr (), Inl ErrBufferTooSmall, Inl ErrMac1Failed, Inl ErrIdentityPoint, Inl ErrDecryptFailed}"
    using ReadInitiation_ok [OF assms, of msg sig "fst ?r" "snd ?r"]
      result_cases [of "fst ?r" "{ErrBufferTooSmall, ErrMac1Failed, ErrIdentityPoint, ErrDecryptFailed}"] by simp
qed

text \<open>
  C17: The handshake objects stay well-typed. After any sequence of calls on an initiator or a
  responder, with any messages, any order and any errors on the way, every field that is
  an array in the code has the array's size and the cipher's counter is at most 1; each
  further call ends with success or one of the documented errors, never because the
  state holds a key of the wrong size; and the keys it ends with seal every payload.
\<close>

theorem handshake_states_typed:
  assumes "blake2s_laws cr"
  shows "(initiator_reach cr i \<longrightarrow> initiator_ok i \<and>
      (length eph = dhLen \<longrightarrow>
        fst (WriteInitiation cr i out idx ts eph sig cookie) \<in> {Inr (), Inl ErrBufferTooSmall, Inl ErrIdentityPoint}) \<and>
      fst (ReadResponse cr i msg sig)
        \<in> {Inr (), Inl ErrBufferTooSmall, Inl ErrMac1Failed, Inl ErrIdentityPoint, Inl ErrDecryptFailed} \<and>
      length (hr_H (Initiator_Finalize cr i)) = hashLen \<and>
      (\<exists>p. SealTransport cr (hr_SendKey (Initiator_Finalize cr i)) ridx n pt = Inr p)) \<and>
    (responder_reach cr re \<longrightarrow> responder_ok re \<and>
      fst (ReadInitiation cr re msg sig)
        \<in> {Inr (), Inl ErrBufferTooSmall, Inl ErrMac1Failed, Inl ErrIdentityPoint, Inl ErrDecryptFailed} \<and>
      (length eph = dhLen \<longrightarrow>
        fst (WriteResponse cr re out idx ridx eph sig cookie) \<in> {Inr (), Inl ErrBufferTooSmall, Inl ErrIdentityPoint}) \<and>
      length (hr_H (Responder_Finalize cr re)) = hashLen \<and>
      (\<exists>p. SealTransport cr (hr_SendKey (Responder_Finalize cr re)) ridx n pt = Inr p))" 
  by (intro conjI impI initiator_calls [OF assms initiator_reach_ok [OF _ assms]]
      initiator_result_typed [OF assms initiator_reach_ok [OF _ assms]] initiator_reach_ok [OF _ assms]
      responder_calls [OF assms responder_reach_ok [OF _ assms]]
      responder_result_typed [OF assms responder_reach_ok [OF _ assms]] responder_reach_ok [OF _ assms])

theorem handshake_states_typed_witness:
  "initiator_reach ref_crypto (fst (snd demo_init)) \<and> initiator_ok (fst (snd demo_init)) \<and>
   responder_reach ref_crypto (snd demo_read) \<and> responder_ok (snd demo_read)"
proof -
  have "WriteInitiation ref_crypto (NewInitiator ref_crypto (key32 1) (8 # replicate 31 1) (11 # replicate 31 2))
      (replicate 144 0) 1 99 (key32 3) (key32 4) (replicate 16 0) = (fst demo_init, fst (snd demo_init), snd (snd demo_init))"
    by (simp add: demo_init_def)
  then have "initiator_reach ref_crypto (fst (snd demo_init))"
    by (rule initiator_write [OF initiator_new, rotated -1]) simp_all
  moreover have "ReadInitiation ref_crypto (NewResponder ref_crypto (key32 2) (11 # replicate 31 2))
      (snd (snd demo_init)) (key32 4) = (fst demo_read, snd demo_read)"
    by (simp add: demo_read_def)
  then have "responder_reach ref_crypto (snd demo_read)"
    by (rule responder_read [OF responder_new, rotated -1]) simp_all
  ultimately show ?thesis using handshake_states_typed [OF ref_blake2s] by blast
qed

end
