(* ===== verification/Lastro_Resource.thy ===== *)
theory Lastro_Resource
  imports Go_Std Reference_Crypto
begin

text \<open>
  The naming half of \<open>cmd/lastro/main.go\<close>: the \<open>{sha}\<close> template, the resource grammar, the
  resource id \<open>run\<close> puts into a receipt, and the trailer that folds the child's exit
  status into the observed stream.
\<close>

definition sha_template :: bytes where
  "sha_template = str_bytes ''{sha}''"

definition is_hex_lower :: "byte \<Rightarrow> bool" where
  "is_hex_lower c \<longleftrightarrow> 0x30 \<le> c \<and> c \<le> 0x39 \<or> 0x61 \<le> c \<and> c \<le> 0x66"

text \<open>The result of \<open>headFn\<close> is \<open>None\<close> when it fails.\<close>

definition resolveShaTemplate :: "bytes \<Rightarrow> bytes option \<Rightarrow> bytes result" where
  "resolveShaTemplate p head =
     (if \<not> Contains p sha_template then Inr p
      else case head of
        None \<Rightarrow> Inl ErrNoHead
      | Some raw \<Rightarrow>
          let sha = ToLower (TrimSpace raw) in
          if length sha < 7 \<or> length sha > 64 then Inl ErrNotSha
          else if \<not> list_all is_hex_lower sha then Inl ErrNotSha
          else Inr (ReplaceAll p sha_template sha))"

definition ns_char :: "byte \<Rightarrow> bool" where
  "ns_char c \<longleftrightarrow> 0x61 \<le> c \<and> c \<le> 0x7a \<or> 0x30 \<le> c \<and> c \<le> 0x39 \<or> c = 0x2d"

definition path_char :: "byte \<Rightarrow> bool" where
  "path_char c \<longleftrightarrow> 0x61 \<le> c \<and> c \<le> 0x7a \<or> 0x30 \<le> c \<and> c \<le> 0x39 \<or> c = 0x2d \<or> c = 0x2e \<or> c = 0x5f \<or> c = 0x2f"

definition bad_segment :: "bytes \<Rightarrow> bool" where
  "bad_segment seg \<longleftrightarrow> seg = [] \<or> seg = [0x2e] \<or> seg = [0x2e, 0x2e]"

definition validateResource :: "bytes \<Rightarrow> bytes \<Rightarrow> unit result" where
  "validateResource ns p =
     (if length ns = 0 \<or> length ns > 32 then Inl ErrNamespaceLength
      else if \<not> list_all ns_char ns then Inl ErrNamespaceChar
      else if length p = 0 \<or> length p > 180 then Inl ErrPathLength
      else if \<not> list_all path_char p then Inl ErrPathChar
      else if list_ex bad_segment (Split p 0x2f) then Inl ErrPathSegment
      else Inr ())"

text \<open>\<open>"bol:" + wire.Fingerprint(pub) + "/" + *namespace + "/" + resolvedPath\<close>\<close>

definition run_resource :: "crypto \<Rightarrow> bytes \<Rightarrow> bytes \<Rightarrow> bytes \<Rightarrow> bytes" where
  "run_resource cr pub ns p =
     str_bytes ''bol:'' @ Fingerprint cr pub @ str_bytes ''/'' @ ns @ str_bytes ''/'' @ p"

definition run_trailer :: "int \<Rightarrow> bytes" where
  "run_trailer exitCode = 0x0a # str_bytes ''[lastro] exit-status='' @ Itoa exitCode @ [0x0a]"

subsection \<open>Resource ids\<close>

lemma ns_no_slash: "list_all ns_char ns \<Longrightarrow> 0x2f \<notin> set ns"
  by (induction ns) (auto simp: ns_char_def)

lemma split_at_slash:
  "0x2f \<notin> set a \<Longrightarrow> 0x2f \<notin> set b \<Longrightarrow> a @ (0x2f :: byte) # x = b @ 0x2f # y \<Longrightarrow> a = b \<and> x = y"
proof (induction a arbitrary: b)
  case Nil
  then show ?case by (cases b) auto
next
  case (Cons c a)
  then show ?case by (cases b) auto
qed

lemma Split_no_sep: "sep \<notin> set s \<Longrightarrow> Split s sep = [s]"
  by (induction s) auto

text \<open>The segments are separated by single slashes and hold none.\<close>

lemma join_Split: "join_slash (Split s 0x2f) = s \<and> (\<forall>seg \<in> set (Split s 0x2f). 0x2f \<notin> set seg)"
proof (induction s)
  case (Cons c s)
  obtain seg segs where sp: "Split s 0x2f = seg # segs" by (cases "Split s 0x2f") auto
  then show ?case using Cons by (cases segs) auto
qed simp

subsection \<open>The trailer\<close>

lemma digits_range: "c \<in> set (digits n) \<Longrightarrow> 0x30 \<le> c \<and> c \<le> 0x39"
proof (induction n rule: digits.induct)
  case (1 n)
  have d: "0x30 \<le> (0x30 + of_nat k :: byte) \<and> 0x30 + of_nat k \<le> (0x39 :: byte)" if "k < 10" for k
  proof -
    have "unat (of_nat k :: byte) = k" using that by (simp add: unsigned_of_nat take_bit_nat_eq_self)
    then have "unat (0x30 + of_nat k :: byte) = 0x30 + k" using that by (simp add: unat_word_ariths)
    then show ?thesis using that by (simp add: word_le_nat_alt)
  qed
  then show ?case using 1 by (cases "n < 10") (auto simp: digits.simps [of n])
qed

text \<open>Reading the digits back.\<close>

definition digits_value :: "bytes \<Rightarrow> nat" where
  "digits_value ds = foldl (\<lambda>n c. 10 * n + unat (c - 0x30)) 0 ds"

lemma digits_value_digits: "digits_value (digits n) = n"
proof (induction n rule: digits.induct)
  case (1 n)
  have d: "unat ((0x30 + of_nat k :: byte) - 0x30) = k" if "k < 10" for k
    using that by (simp add: unsigned_of_nat take_bit_nat_eq_self)
  show ?case
  proof (cases "n < 10")
    case True
    then show ?thesis using d [of n] by (simp add: digits.simps [of n] digits_value_def)
  next
    case False
    then have "digits_value (digits n) = 10 * (n div 10) + n mod 10"
      using 1 d [of "n mod 10"] by (simp add: digits.simps [of n] digits_value_def)
    then show ?thesis by simp
  qed
qed

lemma digits_inject: "digits m = digits n \<longleftrightarrow> m = n"
  by (metis digits_value_digits)

lemma Itoa_inject: "Itoa i = Itoa j \<longleftrightarrow> i = j"
proof
  have minus: "0x2d # ds \<noteq> digits n" for ds n
  proof
    assume "0x2d # ds = digits n"
    then have "0x2d \<in> set (digits n)" by (metis list.set_intros(1))
    then show False using digits_range by fastforce
  qed
  assume "Itoa i = Itoa j"
  then show "i = j"
    using minus [of "digits (nat (- i))" "nat j"] minus [of "digits (nat (- j))" "nat i"]
    by (auto simp: Itoa_def digits_inject split: if_splits)
qed simp

text \<open>Neither a digit nor a minus sign is the equals sign, so the last one ends the fixed part.\<close>

lemma Itoa_no_eq: "0x3d \<notin> set (Itoa i)"
proof -
  have "0x3d \<notin> set (digits n)" for n
  proof
    assume "0x3d \<in> set (digits n)"
    then show False using digits_range by fastforce
  qed
  then show ?thesis by (simp add: Itoa_def)
qed

lemma split_at_last:
  assumes "c \<notin> set x" and "c \<notin> set y" and "a @ c # x = b @ c # y"
  shows "a = b \<and> x = y"
proof -
  have "takeWhile (\<lambda>d. d \<noteq> c) (rev (a @ c # x)) = rev x" "takeWhile (\<lambda>d. d \<noteq> c) (rev (b @ c # y)) = rev y"
    using assms(1,2) by (simp_all add: takeWhile_tail) (metis set_rev takeWhile_eq_all_conv append_Nil2)+
  then have "x = y" using assms(3) by simp
  then show ?thesis using assms(3) by simp
qed

subsection \<open>Properties\<close>

text \<open>
  C21: The exit status is sealed into the receipt's digest unambiguously. The stream that is
  hashed, the child's output followed by the trailer, determines both the output and the
  exit status: no other output with any other status gives the same bytes, even when the
  output itself contains text that looks like a trailer.
\<close>

theorem run_trailer_unambiguous:
  "out @ run_trailer code = out' @ run_trailer code' \<longleftrightarrow> out = out' \<and> code = code'"
proof
  assume eq: "out @ run_trailer code = out' @ run_trailer code'"
  define fixedp where "fixedp = 0x0a # str_bytes ''[lastro] exit-status''"
  have tr: "run_trailer c = fixedp @ 0x3d # Itoa c @ [0x0a]" for c
    by (simp add: run_trailer_def fixedp_def str_bytes_def)
  have "(out @ fixedp) @ 0x3d # (Itoa code @ [0x0a]) = (out' @ fixedp) @ 0x3d # (Itoa code' @ [0x0a])"
    using eq by (simp add: tr)
  then have "out @ fixedp = out' @ fixedp \<and> Itoa code @ [0x0a] = Itoa code' @ [0x0a]"
    by (rule split_at_last [rotated 2]) (simp_all add: Itoa_no_eq)
  then show "out = out' \<and> code = code'" by (simp add: Itoa_inject)
qed simp



text \<open>
  C34: A resource id names one key, one namespace and one path. For arguments that pass the
  grammar the id is at most 256 bytes, so a receipt can carry it, and two equal ids come
  from the same fingerprint, the same namespace and the same path.
\<close>

theorem run_resource_injective:
  assumes "blake2s_laws cr" and "validateResource ns p = Inr ()" and "validateResource ns' p' = Inr ()"
  shows "length (run_resource cr pub ns p) \<le> 256 \<and>
         (run_resource cr pub ns p = run_resource cr pub' ns' p' \<longleftrightarrow>
            Fingerprint cr pub = Fingerprint cr pub' \<and> ns = ns' \<and> p = p')"
proof -
  have v: "length ns \<le> 32" "length p \<le> 180" "list_all ns_char ns" "list_all ns_char ns'"
    using assms(2,3) by (auto simp: validateResource_def split: if_splits)
  have fp: "length (Fingerprint cr k) = 16" for k by (rule length_Fingerprint [OF assms(1)])
  have "length (run_resource cr pub ns p) \<le> 256" using v fp by (simp add: run_resource_def str_bytes_def)
  moreover have "Fingerprint cr pub = Fingerprint cr pub' \<and> ns = ns' \<and> p = p'"
    if "run_resource cr pub ns p = run_resource cr pub' ns' p'"
  proof -
    have "Fingerprint cr pub @ 0x2f # ns @ 0x2f # p = Fingerprint cr pub' @ 0x2f # ns' @ 0x2f # p'"
      using that by (simp add: run_resource_def str_bytes_def)
    then have "Fingerprint cr pub = Fingerprint cr pub'" "ns @ 0x2f # p = ns' @ 0x2f # p'"
      using fp [of pub] fp [of pub'] by (simp_all add: append_eq_append_conv)
    then show ?thesis using split_at_slash ns_no_slash v(3,4) by blast
  qed
  moreover have "run_resource cr pub ns p = run_resource cr pub' ns' p'"
    if "Fingerprint cr pub = Fingerprint cr pub'" "ns = ns'" "p = p'"
    using that by (simp add: run_resource_def)
  ultimately show ?thesis by blast
qed

theorem run_resource_injective_witness:
  "length (run_resource ref_crypto (key32 1) [97] [98, 47, 99]) \<le> 256 \<and>
   run_resource ref_crypto (key32 1) [97] [98, 47, 99] \<noteq> run_resource ref_crypto (key32 1) [97, 45] [98]"
proof -
  have "validateResource [97] [98, 47, 99] = Inr ()" "validateResource [97, 45] [98] = Inr ()" by code_simp+
  from run_resource_injective [OF ref_blake2s this, of "key32 1" "key32 1"] show ?thesis by simp
qed

lemma ReplaceAll_contains: "old \<noteq> [] \<Longrightarrow> Contains s old \<Longrightarrow> Contains (ReplaceAll s old new) new"
proof (induction s old new rule: ReplaceAll.induct)
  case (2 c s old new)
  have pre: "Contains (new @ r) new" for r :: bytes by (cases new; cases r) (auto simp: HasPrefix_def)
  then show ?case using 2 by auto
qed simp



end
