(* ===== verification/Lastro_System.thy ===== *)
theory Lastro_System
  imports Lastro_Resource Wire_Cert
begin

text \<open>
  What the commands of \<open>cmd/lastro/main.go\<close> share: the exit codes and the operating system
  they run on. The state a command changes is the file store, a map from path strings to
  contents and permission bits. Everything the system decides is the record \<open>env\<close>: which
  files can be read, what a write does, the random bytes, the clock, git's answer, whether
  the child starts, in which order the chunks of its two output streams are observed and
  whether passing each one through succeeds, and how it ends.
\<close>

abbreviation defaultMaxOutput :: int where "defaultMaxOutput \<equiv> 8388608"
abbreviation exitNoReceipt :: int where "exitNoReceipt \<equiv> 125"
abbreviation exitNoStart :: int where "exitNoStart \<equiv> 127"
abbreviation verifyOK :: int where "verifyOK \<equiv> 0"
abbreviation verifyInvalid :: int where "verifyInvalid \<equiv> 1"
abbreviation verifyUsage :: int where "verifyUsage \<equiv> 2"
abbreviation verifyUnanchored :: int where "verifyUnanchored \<equiv> 3"

text \<open>The exit status of a Go program that panics.\<close>

abbreviation exitPanic :: int where "exitPanic \<equiv> 2"

subsection \<open>The operating system\<close>

type_synonym path = bytes
type_synonym store = "path \<Rightarrow> (bytes \<times> nat) option"

datatype write_outcome = WriteOk | OpenFailed | WrittenPartly nat

datatype stream = Stdout | Stderr

text \<open>How the child ended; \<open>WaitFailed\<close> is an error of the wait itself.\<close>

datatype child_end = Exited nat | Signaled | WaitFailed

record env =
  env_readable :: "path \<Rightarrow> bool"
  env_other :: "path \<Rightarrow> bool" \<comment> \<open>exists and is not a regular file\<close>
  env_write :: "path \<Rightarrow> write_outcome"
  env_mkdir :: "path \<Rightarrow> bool"
  env_rand :: "nat \<Rightarrow> nat \<Rightarrow> bytes option" \<comment> \<open>which read of the process, how many bytes\<close>
  env_now :: uint64
  env_head :: "bytes option"
  env_start :: "bytes list \<Rightarrow> bool"
  env_chunks :: "bytes list \<Rightarrow> (stream \<times> bytes \<times> bool) list"
  env_end :: "bytes list \<Rightarrow> child_end"

definition ReadFile :: "env \<Rightarrow> store \<Rightarrow> path \<Rightarrow> bytes option" where
  "ReadFile en st p = (case st p of Some (d, _) \<Rightarrow> if env_readable en p then Some d else None | None \<Rightarrow> None)"

definition file_mode :: "store \<Rightarrow> path \<Rightarrow> nat \<Rightarrow> nat" where
  "file_mode st p perm = (case st p of Some (_, m) \<Rightarrow> m | None \<Rightarrow> perm)"

text \<open>Create or truncate, then write; an existing file keeps its permissions.\<close>

definition WriteFile :: "env \<Rightarrow> store \<Rightarrow> path \<Rightarrow> bytes \<Rightarrow> nat \<Rightarrow> bool \<times> store" where
  "WriteFile en st p d perm =
     (case env_write en p of
        WriteOk \<Rightarrow> (True, st(p \<mapsto> (d, file_mode st p perm)))
      | OpenFailed \<Rightarrow> (False, st)
      | WrittenPartly n \<Rightarrow> (False, st(p \<mapsto> (take n d, file_mode st p perm))))"

definition Stat_ok :: "env \<Rightarrow> store \<Rightarrow> path \<Rightarrow> bool" where
  "Stat_ok en st p \<longleftrightarrow> st p \<noteq> None \<or> env_other en p"

text \<open>\<open>rand.Read(a[:])\<close> into an array of \<open>n\<close> zero bytes.\<close>

definition rand_array :: "env \<Rightarrow> nat \<Rightarrow> nat \<Rightarrow> bytes option" where
  "rand_array en k n = map_option (\<lambda>b. copy_at 0 b (replicate n 0)) (env_rand en k n)"

text \<open>The output of \<open>git rev-parse HEAD\<close>, none when git fails.\<close>

definition gitHead :: "env \<Rightarrow> bytes option" where
  "gitHead en = (case env_head en of None \<Rightarrow> None | Some out \<Rightarrow> Some out)"

text \<open>Permission bits 0600 and 0644.\<close>

abbreviation perm_private :: nat where "perm_private \<equiv> 0x180"
abbreviation perm_public :: nat where "perm_public \<equiv> 0x1a4"

subsection \<open>Lemmas\<close>

lemma WriteFile_other: "WriteFile en st p d m = (b, st') \<Longrightarrow> q \<noteq> p \<Longrightarrow> st' q = st q"
  by (auto simp: WriteFile_def split: write_outcome.splits)

lemma WriteFile_ok: "WriteFile en st p d m = (True, st') \<longleftrightarrow>
    env_write en p = WriteOk \<and> st' = st(p \<mapsto> (d, file_mode st p m))"
  by (auto simp: WriteFile_def split: write_outcome.splits)

lemma rand_array_length: "rand_array en k n = Some b \<Longrightarrow> length b = n"
  by (auto simp: rand_array_def)

subsection \<open>A concrete system\<close>

definition demo_env :: "child_end \<Rightarrow> (stream \<times> bytes \<times> bool) list \<Rightarrow> env" where
  "demo_env e evs =
     \<lparr>env_readable = (\<lambda>_. True), env_other = (\<lambda>_. False), env_write = (\<lambda>_. WriteOk), env_mkdir = (\<lambda>_. True),
      env_rand = (\<lambda>k n. Some (replicate n (of_nat k + 7))), env_now = 1700000000000, env_head = None,
      env_start = (\<lambda>_. True), env_chunks = (\<lambda>_. evs), env_end = (\<lambda>_. e)\<rparr>"

definition demo_store :: store where
  "demo_store = [str_bytes ''d/sig.key'' \<mapsto> (key32 7, perm_private), str_bytes ''cert'' \<mapsto> (enc_cert exec_cert, perm_public),
     str_bytes ''ca1'' \<mapsto> (key32 1, perm_public), str_bytes ''ca2'' \<mapsto> (key32 2, perm_public)]"

lemma demo_files:
  "demo_store (str_bytes ''d/sig.key'') = Some (key32 7, perm_private)"
  "demo_store (str_bytes ''cert'') = Some (enc_cert exec_cert, perm_public)"
  "demo_store (str_bytes ''ca1'') = Some (key32 1, perm_public)"
  "demo_store (str_bytes ''ca2'') = Some (key32 2, perm_public)" "demo_store (str_bytes ''r'') = None"
  by (simp_all add: demo_store_def str_bytes_def)

end
