(* ===== verification/Interop_Main.thy ===== *)
theory Interop_Main
  imports Noise_State Wire_Envelope Lastro_System
begin

text \<open>
  \<open>cmd/interop/main.go\<close>: the initiator that drives a live handshake with a daemon, exchanges
  binding frames with it and sends one intent. The program is a function of its arguments,
  the files and the record \<open>interop_env\<close>, which holds what the system and the daemon decide;
  its result is the exit code and the datagrams it sent, in order. The daemon is a function
  from the datagrams sent so far to the datagram the next read returns, so that every
  peer, honest or not, is covered.

  Shown: against a daemon that answers by the rules the program ends with exit code 0 and
  the daemon can open, verify and parse all it was sent; the program never succeeds
  unless the daemon proved, over the transcript of this very session, to hold the key of a
  certificate the trusted CAs signed; the datagrams leave in a fixed order with distinct
  nonces, and no intent leaves before the daemon is authenticated.
\<close>

abbreviation off2SenderConformant :: nat where "off2SenderConformant \<equiv> 4"
abbreviation off2ReceiverConformant :: nat where "off2ReceiverConformant \<equiv> 8"

subsection \<open>The network\<close>

record interop_env =
  ie_sys :: env
  ie_dial :: "bytes \<Rightarrow> bool"
  ie_write :: "bytes list \<Rightarrow> bool" \<comment> \<open>does the next write succeed, after these datagrams\<close>
  ie_reply :: "bytes list \<Rightarrow> bytes option" \<comment> \<open>the datagram the next read gets; none at the deadline or on an error\<close>
  ie_now :: "nat \<Rightarrow> uint64" \<comment> \<open>the successive readings of the clock\<close>
  ie_left :: bytes \<comment> \<open>what a failed read of random bytes leaves in the array\<close>

definition conn_Write :: "interop_env \<Rightarrow> bytes list \<Rightarrow> bytes \<Rightarrow> bytes list option" where
  "conn_Write ie sent p = (if ie_write ie sent then Some (sent @ [p]) else None)"

text \<open>A datagram that is longer than the buffer is cut off; the rest of the buffer stays.\<close>

definition conn_Read :: "interop_env \<Rightarrow> bytes list \<Rightarrow> bytes \<Rightarrow> (nat \<times> bytes) option" where
  "conn_Read ie sent dst =
     map_option (\<lambda>d. (min (length d) (length dst), copy_at 0 d dst)) (ie_reply ie sent)"

subsection \<open>Helpers\<close>

definition readKey :: "env \<Rightarrow> store \<Rightarrow> path \<Rightarrow> bytes option" where
  "readKey en st path =
     (case ReadFile en st path of
        None \<Rightarrow> None
      | Some b \<Rightarrow> if length b \<noteq> 32 then None else Some (copy_at 0 b (replicate 32 0)))"

definition fail :: "bytes list \<Rightarrow> int \<times> bytes list" where
  "fail sent = (1, sent)"

definition ed25519Pub :: "crypto \<Rightarrow> bytes \<Rightarrow> bytes result" where
  "ed25519Pub cr seed =
     rbind (NewKeyFromSeed cr seed) (\<lambda>priv.
     let pub = PublicOf priv in Inr (copy_at 0 pub (replicate 32 0)))"

text \<open>\<open>if err != nil { fail(...) }\<close>, and a panic of the call ends the program too.\<close>

definition must :: "bytes list \<Rightarrow> 'a result \<Rightarrow> (int \<times> bytes list) + 'a" where
  "must sent m =
     (case m of Inl e \<Rightarrow> Inl (if is_panic e then (exitPanic, sent) else fail sent) | Inr x \<Rightarrow> Inr x)"

definition must_some :: "bytes list \<Rightarrow> 'a option \<Rightarrow> (int \<times> bytes list) + 'a" where
  "must_some sent m = (case m of None \<Rightarrow> Inl (fail sent) | Some x \<Rightarrow> Inr x)"

subsection \<open>Flags and files\<close>

definition interop_flags :: "bytes \<Rightarrow> flag_kind option" where
  "interop_flags n =
     (if n \<in> set (map str_bytes [''daemon'', ''node-go'', ''daemon-static'', ''daemon-sigpub'', ''ca'', ''res-ns'', ''res-id''])
      then Some FlagString else if n = str_bytes ''intent'' then Some FlagBool else None)"

record interop_opts =
  io_daemonAddr :: bytes
  io_nodeGo :: bytes
  io_daemonStaticF :: bytes
  io_daemonSigpubF :: bytes
  io_trustDir :: bytes
  io_sendIntent :: bool
  io_resourceNS :: bytes
  io_resourceID :: bytes

definition interop_opts_of :: "(bytes \<times> bytes) list \<Rightarrow> interop_opts" where
  "interop_opts_of vals =
     \<lparr>io_daemonAddr = flag_value vals (str_bytes ''daemon'') (str_bytes ''127.0.0.1:7420''),
      io_nodeGo = flag_value vals (str_bytes ''node-go'') (str_bytes ''node-go''),
      io_daemonStaticF = flag_value vals (str_bytes ''daemon-static'') [],
      io_daemonSigpubF = flag_value vals (str_bytes ''daemon-sigpub'') [],
      io_trustDir = flag_value vals (str_bytes ''ca'') (str_bytes ''node-go/ca''),
      io_sendIntent = flag_bool vals (str_bytes ''intent'') False,
      io_resourceNS = flag_value vals (str_bytes ''res-ns'') (str_bytes ''interop''),
      io_resourceID = flag_value vals (str_bytes ''res-id'') (str_bytes ''demo'')\<rparr>"

record interop_node =
  nd_goStaticSec :: bytes
  nd_goStaticPub :: bytes
  nd_goSigSeed :: bytes
  nd_goCert :: bytes
  nd_daemonStatic :: bytes
  nd_daemonSigpub :: bytes
  nd_trusted :: "bytes list"

definition ca_path :: "bytes \<Rightarrow> nat \<Rightarrow> path" where
  "ca_path dir i = dir @ str_bytes ''/ca'' @ Itoa (int i) @ str_bytes ''.pub''"

function trust_loop :: "env \<Rightarrow> store \<Rightarrow> bytes \<Rightarrow> nat \<Rightarrow> bytes list" where
  "trust_loop en st dir i =
     (if i < 8
      then case ReadFile en st (ca_path dir i) of
             None \<Rightarrow> []
           | Some b \<Rightarrow> b # trust_loop en st dir (i + 1)
      else [])"
  by pat_completeness auto

termination
  by (relation "measure (\<lambda>(en, st, dir, i). 8 - i)") auto

declare trust_loop.simps [simp del]

definition load_node :: "env \<Rightarrow> store \<Rightarrow> interop_opts \<Rightarrow> (int \<times> bytes list) + interop_node" where
  "load_node en st o' =
     rbind (must_some [] (readKey en st (io_nodeGo o' @ str_bytes ''/static.key''))) (\<lambda>goStaticSec.
     rbind (must_some [] (readKey en st (io_nodeGo o' @ str_bytes ''/static.pub''))) (\<lambda>goStaticPub.
     rbind (must_some [] (readKey en st (io_nodeGo o' @ str_bytes ''/sig.key''))) (\<lambda>goSigSeed.
     rbind (must_some [] (ReadFile en st (io_nodeGo o' @ str_bytes ''/cert.bin''))) (\<lambda>goCert.
     rbind (must_some [] (readKey en st (io_daemonStaticF o'))) (\<lambda>daemonStatic.
     rbind (must_some [] (readKey en st (io_daemonSigpubF o'))) (\<lambda>daemonSigpub.
     let trusted = trust_loop en st (io_trustDir o') 0 in
     if length trusted = 0 then Inl (fail [])
     else Inr \<lparr>nd_goStaticSec = goStaticSec, nd_goStaticPub = goStaticPub, nd_goSigSeed = goSigSeed,
               nd_goCert = goCert, nd_daemonStatic = daemonStatic, nd_daemonSigpub = daemonSigpub,
               nd_trusted = trusted\<rparr>))))))"

subsection \<open>The stages\<close>

record interop_session =
  is_res :: HandshakeResult
  is_daemonIndex :: uint32
  is_senderEcho :: uint32
  is_buf :: bytes
  is_sent :: "bytes list"

abbreviation interop_senderIndex :: uint32 where "interop_senderIndex \<equiv> 0x51530001"

definition interop_stageA ::
    "crypto \<Rightarrow> interop_env \<Rightarrow> interop_node \<Rightarrow> (int \<times> bytes list) + interop_session" where
  "interop_stageA cr ie nd =
     rbind (must_some [] (rand_array (ie_sys ie) 0 32)) (\<lambda>eph.
     let initiator = NewInitiator cr (nd_goStaticSec nd) (nd_goStaticPub nd) (nd_daemonStatic nd) in
     case WriteInitiation cr initiator (replicate Msg1Size 0) interop_senderIndex (ie_now ie 0) eph
            (nd_daemonSigpub nd) (replicate 16 0) of (r, initiator, msg1) \<Rightarrow>
     rbind (must [] r) (\<lambda>_.
     rbind (must_some [] (conn_Write ie [] msg1)) (\<lambda>sent.
     rbind (must_some sent (conn_Read ie sent (replicate 2048 0))) (\<lambda>(n, buf).
     if n < Msg2Size \<or> buf ! 0 \<noteq> 2 then Inl (fail sent)
     else case ReadResponse cr initiator (take Msg2Size buf) (nd_daemonSigpub nd) of (r, initiator) \<Rightarrow>
     rbind (must sent r) (\<lambda>_.
     let res = Initiator_Finalize cr initiator;
         daemonIndex = be_word (subslice buf off2SenderConformant (off2SenderConformant + 4));
         senderEcho = be_word (subslice buf off2ReceiverConformant (off2ReceiverConformant + 4))
     in Inr \<lparr>is_res = res, is_daemonIndex = daemonIndex, is_senderEcho = senderEcho,
             is_buf = buf, is_sent = sent\<rparr>)))))"

definition interop_stageB ::
    "crypto \<Rightarrow> interop_env \<Rightarrow> interop_node \<Rightarrow> interop_session
     \<Rightarrow> (int \<times> bytes list) + Cert \<times> bytes list" where
  "interop_stageB cr ie nd se =
     (let res = is_res se; sent = is_sent se in
     rbind (must sent (BuildBindingFrame cr (nd_goCert nd) (nd_goSigSeed nd) (hr_H res))) (\<lambda>frame.
     rbind (must sent (SealTransport cr (hr_SendKey res) (is_daemonIndex se) 0 frame)) (\<lambda>pkt.
     rbind (must_some sent (conn_Write ie sent pkt)) (\<lambda>sent.
     rbind (must_some sent (conn_Read ie sent (is_buf se))) (\<lambda>(n, buf).
     rbind (must sent (OpenTransport cr (hr_RecvKey res) (take n buf))) (\<lambda>(theirFrame, _).
     rbind (must sent (VerifyBindingFrame cr theirFrame (hr_H res) (nd_trusted nd))) (\<lambda>cert.
     Inr (cert, sent))))))))"

definition interop_resource :: "crypto \<Rightarrow> interop_opts \<Rightarrow> Cert \<Rightarrow> bytes" where
  "interop_resource cr o' cert =
     str_bytes ''bol:'' @ Fingerprint cr (cert_SigPubkey cert) @ str_bytes ''/'' @ io_resourceNS o'
     @ str_bytes ''/'' @ io_resourceID o'"

definition interop_intent :: "crypto \<Rightarrow> interop_env \<Rightarrow> interop_opts \<Rightarrow> Cert \<Rightarrow> Intent" where
  "interop_intent cr ie o' cert =
     \<lparr>intent_IntentID =
        (case rand_array (ie_sys ie) 1 16 of Some b \<Rightarrow> b | None \<Rightarrow> copy_at 0 (ie_left ie) (replicate 16 0)),
      intent_ResourceID = interop_resource cr o' cert,
      intent_Action = str_bytes ''apt-get install -y sqlite3'',
      intent_Rationale = str_bytes ''interop stage C''\<rparr>"

definition interop_stageC ::
    "crypto \<Rightarrow> interop_env \<Rightarrow> interop_opts \<Rightarrow> interop_node \<Rightarrow> interop_session \<Rightarrow> Cert \<Rightarrow> bytes list
     \<Rightarrow> (int \<times> bytes list) + bytes list" where
  "interop_stageC cr ie o' nd se cert sent =
     (let res = is_res se in
     rbind (must sent (EncodeIntentBody (interop_intent cr ie o' cert))) (\<lambda>intentBody.
     rbind (must sent (ed25519Pub cr (nd_goSigSeed nd))) (\<lambda>goSigPub.
     rbind (must sent (BuildSignedEnvelope cr 2 (replicate 32 0) goSigPub 1 [] 0 (ie_now ie 1) BodyIntent
              intentBody (nd_goSigSeed nd))) (\<lambda>env.
     rbind (must sent (SealTransport cr (hr_SendKey res) (is_daemonIndex se) 1 env)) (\<lambda>pkt.
     must_some sent (conn_Write ie sent pkt))))))"

definition interop_session_run ::
    "crypto \<Rightarrow> interop_env \<Rightarrow> interop_opts \<Rightarrow> interop_node \<Rightarrow> (int \<times> bytes list) + bytes list" where
  "interop_session_run cr ie o' nd =
     rbind (interop_stageA cr ie nd) (\<lambda>se.
     rbind (interop_stageB cr ie nd se) (\<lambda>(cert, sent).
     if \<not> io_sendIntent o' then Inr sent
     else interop_stageC cr ie o' nd se cert sent))"

definition interop_main :: "crypto \<Rightarrow> interop_env \<Rightarrow> store \<Rightarrow> bytes list \<Rightarrow> int \<times> bytes list" where
  "interop_main cr ie st args =
     (case flag_parse interop_flags [] args of
        FlagsHelp \<Rightarrow> (0, [])
      | FlagsError \<Rightarrow> (2, [])
      | FlagsParsed vals _ \<Rightarrow>
          let o' = interop_opts_of vals in
          (case rbind (load_node (ie_sys ie) st o') (\<lambda>nd.
                if \<not> ie_dial ie (io_daemonAddr o') then Inl (fail [])
                else interop_session_run cr ie o' nd) of
             Inl ex \<Rightarrow> ex
           | Inr sent \<Rightarrow> (0, sent)))"

subsection \<open>Lemmas\<close>

lemma must_Inr [simp]: "must sent m = Inr x \<longleftrightarrow> m = Inr x"
  by (cases m) (auto simp: must_def)

lemma must_some_Inr [simp]: "must_some sent m = Inr x \<longleftrightarrow> m = Some x"
  by (cases m) (auto simp: must_some_def)

lemma must_value [simp]: "must sent (Inr x) = Inr x" "must_some sent (Some x) = Inr x"
  by (simp_all add: must_def must_some_def)

lemma conn_Write_Some [simp]: "conn_Write ie sent p = Some sent' \<longleftrightarrow> ie_write ie sent \<and> sent' = sent @ [p]"
  by (auto simp: conn_Write_def)

lemma conn_Read_Some [simp]: "conn_Read ie sent dst = Some (n, b) \<longleftrightarrow>
    (\<exists>d. ie_reply ie sent = Some d \<and> n = min (length d) (length dst) \<and> b = copy_at 0 d dst)"
  by (auto simp: conn_Read_def)

text \<open>The initiation the program writes.\<close>

definition interop_initiation :: "crypto \<Rightarrow> interop_env \<Rightarrow> interop_node \<Rightarrow> bytes \<Rightarrow> unit result \<times> Initiator \<times> bytes" where
  "interop_initiation cr ie nd eph =
     WriteInitiation cr (NewInitiator cr (nd_goStaticSec nd) (nd_goStaticPub nd) (nd_daemonStatic nd))
       (replicate Msg1Size 0) interop_senderIndex (ie_now ie 0) eph (nd_daemonSigpub nd) (replicate 16 0)"

definition initiates :: "crypto \<Rightarrow> interop_env \<Rightarrow> interop_node \<Rightarrow> Initiator \<Rightarrow> bytes \<Rightarrow> bool" where
  "initiates cr ie nd i m1 \<longleftrightarrow>
     (\<exists>eph. rand_array (ie_sys ie) 0 32 = Some eph \<and> interop_initiation cr ie nd eph = (Inr (), i, m1))"

text \<open>What a completed stage did.\<close>

lemma stageA_iff:
  "interop_stageA cr ie nd = Inr se \<longleftrightarrow>
     (\<exists>i m1 d i'. initiates cr ie nd i m1 \<and> ie_write ie [] \<and> ie_reply ie [m1] = Some d \<and> Msg2Size \<le> length d \<and> d ! 0 = 2 \<and>
        ReadResponse cr i (take Msg2Size d) (nd_daemonSigpub nd) = (Inr (), i') \<and>
        se = \<lparr>is_res = Initiator_Finalize cr i', is_daemonIndex = be_word (subslice d 4 8),
              is_senderEcho = be_word (subslice d 8 12), is_buf = copy_at 0 d (replicate 2048 0), is_sent = [m1]\<rparr>)"
proof -
  have pre: "92 \<le> length d \<Longrightarrow> take 92 (copy_at 0 d (replicate 2048 0)) = take 92 d"
      "92 \<le> length d \<Longrightarrow> copy_at 0 d (replicate 2048 0) ! 0 = d ! 0"
      "92 \<le> length d \<Longrightarrow> subslice (copy_at 0 d (replicate 2048 0)) 4 8 = subslice d 4 8"
      "92 \<le> length d \<Longrightarrow> subslice (copy_at 0 d (replicate 2048 0)) 8 12 = subslice d 8 12" for d :: bytes
    using copy_at_0_prefix [of 92 d "replicate 2048 0"] by (simp_all add: take_copy_at_0)
  show ?thesis
    unfolding interop_stageA_def Let_def rbind_eq_Inr must_some_Inr must_Inr case_prod_eq_iff if_Inl_eq_Inr
      interop_initiation_def [symmetric] initiates_def
    by (auto simp: pre)
qed

lemma stageB_iff:
  assumes "length (is_buf se) = 2048"
  shows "interop_stageB cr ie nd se = Inr (cert, sent) \<longleftrightarrow>
     (\<exists>frame pkt d theirs n. BuildBindingFrame cr (nd_goCert nd) (nd_goSigSeed nd) (hr_H (is_res se)) = Inr frame \<and>
        SealTransport cr (hr_SendKey (is_res se)) (is_daemonIndex se) 0 frame = Inr pkt \<and>
        ie_write ie (is_sent se) \<and> sent = is_sent se @ [pkt] \<and> ie_reply ie sent = Some d \<and>
        OpenTransport cr (hr_RecvKey (is_res se)) (take 2048 d) = Inr (theirs, n) \<and>
        VerifyBindingFrame cr theirs (hr_H (is_res se)) (nd_trusted nd) = Inr cert)"
proof -
  have "take (min (length d) 2048) (copy_at 0 d (is_buf se)) = take 2048 d" for d
    using assms by (auto simp: copy_at_def min_def)
  then show ?thesis
    unfolding interop_stageB_def Let_def rbind_eq_Inr must_some_Inr must_Inr case_prod_eq_iff
    using assms by auto
qed

lemma stageC_iff:
  "interop_stageC cr ie o' nd se cert sent = Inr sent' \<longleftrightarrow>
     (\<exists>body pub env pkt. EncodeIntentBody (interop_intent cr ie o' cert) = Inr body \<and>
        ed25519Pub cr (nd_goSigSeed nd) = Inr pub \<and>
        BuildSignedEnvelope cr 2 (replicate 32 0) pub 1 [] 0 (ie_now ie 1) BodyIntent body (nd_goSigSeed nd) = Inr env \<and>
        SealTransport cr (hr_SendKey (is_res se)) (is_daemonIndex se) 1 env = Inr pkt \<and>
        ie_write ie sent \<and> sent' = sent @ [pkt])"
  unfolding interop_stageC_def Let_def rbind_eq_Inr must_some_Inr must_Inr by auto

text \<open>How a stage can end the program.\<close>

lemma must_Inl:
  "must sent m = Inl x \<longleftrightarrow> (\<exists>e. m = Inl e \<and> x = (if is_panic e then exitPanic else 1, sent))"
  by (cases m) (auto simp: must_def fail_def)

lemma must_no_panic_Inl: "no_panic m \<Longrightarrow> must sent m = Inl x \<Longrightarrow> x = (1, sent)"
  by (auto simp: must_Inl no_panic_def)

lemma must_some_Inl: "must_some sent m = Inl x \<longleftrightarrow> m = None \<and> x = (1, sent)"
  by (cases m) (auto simp: must_some_def fail_def)

lemma readKey_length: "readKey en st p = Some k \<Longrightarrow> length k = 32"
  by (auto simp: readKey_def split: option.splits if_splits)

definition node_ok :: "interop_node \<Rightarrow> bool" where
  "node_ok nd \<longleftrightarrow> length (nd_goStaticSec nd) = 32 \<and> length (nd_goStaticPub nd) = 32 \<and> length (nd_goSigSeed nd) = 32 \<and>
     length (nd_daemonStatic nd) = 32 \<and> length (nd_daemonSigpub nd) = 32 \<and> nd_trusted nd \<noteq> [] \<and>
     length (nd_trusted nd) \<le> 8"

lemma trust_loop_length: "length (trust_loop en st dir i) \<le> 8 - i"
proof (induction "8 - i" arbitrary: i)
  case 0
  then show ?case by (simp add: trust_loop.simps)
next
  case (Suc k)
  have "length (trust_loop en st dir (i + 1)) \<le> 8 - (i + 1)"
    by (intro Suc.hyps(1)) (use Suc.hyps(2) in arith)
  then show ?case by (subst trust_loop.simps) (auto split: option.splits)
qed

lemma load_node_ok: "load_node en st o' = Inr nd \<Longrightarrow> node_ok nd"
  using trust_loop_length [of en st "io_trustDir o'" 0]
  unfolding load_node_def Let_def rbind_eq_Inr must_some_Inr if_Inl_eq_Inr
  by (auto simp: node_ok_def dest: readKey_length)

lemma load_node_exit: "load_node en st o' = Inl x \<Longrightarrow> x = (1, [])"
  unfolding load_node_def Let_def
  by (auto simp: rbind_eq_Inl must_some_Inl fail_def split: if_splits)

lemma no_panic_fst:
  "r \<in> {Inr (), Inl ErrBufferTooSmall, Inl ErrIdentityPoint} \<Longrightarrow> no_panic r"
  "r \<in> {Inr (), Inl ErrBufferTooSmall, Inl ErrMac1Failed, Inl ErrIdentityPoint, Inl ErrDecryptFailed} \<Longrightarrow> no_panic r"
  by (auto simp: is_panic_def)

lemma NewInitiator_ok: "node_ok nd \<Longrightarrow> blake2s_laws cr \<Longrightarrow>
    initiator_ok (NewInitiator cr (nd_goStaticSec nd) (nd_goStaticPub nd) (nd_daemonStatic nd))"
  by (rule initiator_reach_ok [OF initiator_new]) (simp_all add: node_ok_def)

lemma stageA_exit:
  assumes "blake2s_laws cr" and "node_ok nd" and "interop_stageA cr ie nd = Inl x"
  shows "x = (1, []) \<or> (\<exists>i m1. initiates cr ie nd i m1 \<and> x = (1, [m1]))"
proof (cases "rand_array (ie_sys ie) 0 32")
  case None
  then show ?thesis using assms(3) by (simp add: interop_stageA_def must_some_def fail_def)
next
  case (Some eph)
  obtain r i m1 where w: "interop_initiation cr ie nd eph = (r, i, m1)" by (metis prod_cases3)
  have len: "length eph = 32" by (rule rand_array_length [OF Some])
  note ok = NewInitiator_ok [OF assms(2,1)]
  have "no_panic r"
    using initiator_calls(1) [OF assms(1) ok len] w by (intro no_panic_fst(1)) (simp add: interop_initiation_def, metis fst_conv)
  have i: "initiator_ok i" using WriteInitiation_ok [OF assms(1) ok len w [unfolded interop_initiation_def]] by blast
  note st = assms(3) [unfolded interop_stageA_def Let_def Some must_value rbind_Inr
      interop_initiation_def [symmetric] w prod.case]
  show ?thesis
  proof (cases r)
    case (Inl e)
    then show ?thesis using st \<open>no_panic r\<close> by (simp add: must_def fail_def)
  next
    case (Inr u)
    have np: "\<not> is_panic e" if "ReadResponse cr i b sig = (Inl e, i2)" for b sig e i2
      using ReadResponse_ok [OF assms(1) i that] by (auto simp: is_panic_def)
    have "x = (1, []) \<or> x = (1, [m1])"
      using st Inr
      by (auto simp: rbind_eq_Inl must_some_Inl must_Inl fail_def case_prod_eq_iff dest: np split: if_splits)
    then show ?thesis using w Inr Some by (auto simp: initiates_def)
  qed
qed

lemma stageB_exit:
  assumes "ed25519_laws cr" and "node_ok nd" and "length (hr_SendKey (is_res se)) = keyLen"
    and "interop_stageB cr ie nd se = Inl x"
  shows "x = (1, is_sent se) \<or>
    (\<exists>frame pkt. BuildBindingFrame cr (nd_goCert nd) (nd_goSigSeed nd) (hr_H (is_res se)) = Inr frame \<and>
       SealTransport cr (hr_SendKey (is_res se)) (is_daemonIndex se) 0 frame = Inr pkt \<and> x = (1, is_sent se @ [pkt]))"
proof -
  have "length (nd_goSigSeed nd) = SeedSize" using assms(2) by (simp add: node_ok_def)
  from BuildBindingFrame_layout [OF assms(1) this, of "nd_goCert nd" "hr_H (is_res se)"]
  obtain frame where f: "BuildBindingFrame cr (nd_goCert nd) (nd_goSigSeed nd) (hr_H (is_res se)) = Inr frame" by blast
  obtain pkt where p: "SealTransport cr (hr_SendKey (is_res se)) (is_daemonIndex se) 0 frame = Inr pkt"
    using SealTransport_layout [OF assms(3)] by blast
  have "x = (1, is_sent se) \<or> x = (1, is_sent se @ [pkt])"
    using assms(4) [unfolded interop_stageB_def Let_def f p must_value rbind_Inr]
    by (auto simp: rbind_eq_Inl must_some_Inl
        dest!: must_no_panic_Inl [OF OpenTransport_no_panic] must_no_panic_Inl [OF VerifyBindingFrame_no_panic])
  then show ?thesis using f p by blast
qed

lemma stageC_exit:
  assumes "ed25519_laws cr" and "node_ok nd" and "length (hr_SendKey (is_res se)) = keyLen"
    and "interop_stageC cr ie o' nd se cert sent = Inl x"
  shows "x = (1, sent)"
proof -
  have seed: "length (nd_goSigSeed nd) = SeedSize" using assms(2) by (simp add: node_ok_def)
  have pub: "ed25519Pub cr (nd_goSigSeed nd) = Inr (ed_pub cr (nd_goSigSeed nd))"
    using ed25519_lawsD(1) [OF assms(1) seed] seed
    by (simp add: ed25519Pub_def NewKeyFromSeed_def PublicOf_def copy_at_whole)
  show ?thesis
  proof (cases "EncodeIntentBody (interop_intent cr ie o' cert)")
    case (Inl e)
    then have "\<not> is_panic e" by (auto simp: EncodeIntentBody_def is_panic_def split: if_splits)
    then show ?thesis using assms(4) Inl by (simp add: interop_stageC_def must_def fail_def)
  next
    case (Inr body)
    from intent_sent [OF assms(1) _ seed Inr, of "replicate 32 0" 2 1 "ie_now ie 1"]
    obtain w where w: "BuildSignedEnvelope cr 2 (replicate 32 0) (ed_pub cr (nd_goSigSeed nd)) 1 [] 0 (ie_now ie 1)
        BodyIntent body (nd_goSigSeed nd) = Inr w" by auto
    obtain pkt where p: "SealTransport cr (hr_SendKey (is_res se)) (is_daemonIndex se) 1 w = Inr pkt"
      using SealTransport_layout [OF assms(3)] by blast
    show ?thesis
      using assms(4) [unfolded interop_stageC_def Let_def Inr pub w p must_value rbind_Inr]
      by (simp add: must_some_Inl)
  qed
qed

text \<open>The outcome of the whole session.\<close>

definition sealed_packet :: "crypto \<Rightarrow> bytes \<Rightarrow> uint32 \<Rightarrow> nat \<Rightarrow> bytes \<Rightarrow> bytes" where
  "sealed_packet cr key idx k pt =
     transport_hdr idx (of_nat k) @ aead_Seal cr key (transportNonce (of_nat k)) pt (transport_hdr idx (of_nat k))"

lemma SealTransport_sealed: "length key = keyLen \<Longrightarrow> SealTransport cr key idx (of_nat k) pt = Inr (sealed_packet cr key idx k pt)"
  by (simp add: SealTransport_layout sealed_packet_def)

lemma stageA_session:
  assumes "blake2s_laws cr" and "interop_stageA cr ie nd = Inr se"
  shows "\<exists>i m1. initiates cr ie nd i m1 \<and> is_sent se = [m1] \<and>
    length (hr_SendKey (is_res se)) = keyLen \<and> length (is_buf se) = 2048"
  using assms(2) Finalize_lengths [OF assms(1)] unfolding stageA_iff by force

lemma session_run_cases:
  assumes laws: "blake2s_laws cr" "ed25519_laws cr" and nd: "node_ok nd"
    and run: "interop_session_run cr ie o' nd = out"
  obtains (none) "out = Inl (1, [])"
  | (initiated) i m1 where "initiates cr ie nd i m1" "out = Inl (1, [m1])"
  | (bound) i m1 se frame where "initiates cr ie nd i m1"
      "interop_stageA cr ie nd = Inr se" "length (hr_SendKey (is_res se)) = keyLen"
      "out = Inl (1, [m1, sealed_packet cr (hr_SendKey (is_res se)) (is_daemonIndex se) 0 frame])"
  | (verified) i m1 se frame cert where "initiates cr ie nd i m1"
      "interop_stageA cr ie nd = Inr se" "length (hr_SendKey (is_res se)) = keyLen" "\<not> io_sendIntent o'"
      "interop_stageB cr ie nd se = Inr (cert, [m1, sealed_packet cr (hr_SendKey (is_res se)) (is_daemonIndex se) 0 frame])"
      "out = Inr [m1, sealed_packet cr (hr_SendKey (is_res se)) (is_daemonIndex se) 0 frame]"
  | (intent) i m1 se frame cert env where "initiates cr ie nd i m1"
      "interop_stageA cr ie nd = Inr se" "length (hr_SendKey (is_res se)) = keyLen" "io_sendIntent o'"
      "interop_stageB cr ie nd se = Inr (cert, [m1, sealed_packet cr (hr_SendKey (is_res se)) (is_daemonIndex se) 0 frame])"
      "out = Inr [m1, sealed_packet cr (hr_SendKey (is_res se)) (is_daemonIndex se) 0 frame,
                  sealed_packet cr (hr_SendKey (is_res se)) (is_daemonIndex se) 1 env]"
proof (cases "interop_stageA cr ie nd")
  case (Inl x)
  then have "out = Inl x" using run by (simp add: interop_session_run_def)
  then show thesis using stageA_exit [OF laws(1) nd Inl] none initiated by blast
next
  case (Inr se)
  from stageA_session [OF laws(1) Inr] obtain i m1 where
    a: "initiates cr ie nd i m1" "is_sent se = [m1]"
      "length (hr_SendKey (is_res se)) = keyLen" "length (is_buf se) = 2048" by blast
  note seal = SealTransport_sealed [OF a(3), where k = 0, simplified] SealTransport_sealed [OF a(3), where k = 1, simplified]
  show thesis
  proof (cases "interop_stageB cr ie nd se")
    case (Inl x)
    then have "out = Inl x" using run Inr by (simp add: interop_session_run_def)
    then show thesis using stageB_exit [OF laws(2) nd a(3) Inl] initiated [OF a(1)] bound [OF a(1) Inr a(3)] a(2) seal(1) by auto
  next
    case B: (Inr p)
    obtain cert sent where p: "p = (cert, sent)" by (cases p)
    then obtain frame where b: "sent = [m1, sealed_packet cr (hr_SendKey (is_res se)) (is_daemonIndex se) 0 frame]"
      using B a(2) seal(1) unfolding p stageB_iff [OF a(4)] by auto
    show thesis
    proof (cases "io_sendIntent o'")
      case False
      then show thesis using verified [OF a(1) Inr a(3)] run B p b Inr by (simp add: interop_session_run_def)
    next
      case True
      then have out: "out = interop_stageC cr ie o' nd se cert sent"
        using run Inr B p by (simp add: interop_session_run_def)
      show thesis
      proof (cases "interop_stageC cr ie o' nd se cert sent")
        case (Inl x)
        then show thesis using stageC_exit [OF laws(2) nd a(3) Inl] out b bound [OF a(1) Inr a(3)] by simp
      next
        case C: (Inr sent')
        then obtain env where "sent' = sent @ [sealed_packet cr (hr_SendKey (is_res se)) (is_daemonIndex se) 1 env]"
          using seal(2) unfolding stageC_iff by auto
        then show thesis using intent [OF a(1) Inr a(3) True] out C B p b by simp
      qed
    qed
  qed
qed

lemma initiation_type:
  assumes "x25519_laws cr" and "blake2s_laws cr" and "node_ok nd" and "initiates cr ie nd i m1"
  shows "take 4 m1 = [1, 0, 0, 0] \<and> length m1 = Msg1Size"
proof -
  from assms(4) obtain eph where e: "length eph = dhLen" and w: "interop_initiation cr ie nd eph = (Inr (), i, m1)"
    by (auto simp: initiates_def dest: rand_array_length)
  have "length (in_ephPublic (NewInitiator cr (nd_goStaticSec nd) (nd_goStaticPub nd) (nd_daemonStatic nd))) = 32"
    by (simp add: NewInitiator_def)
  from WriteInitiation_steps [OF w [unfolded interop_initiation_def] this assms(1)]
  have "take 4 m1 = [1, 0, 0, 0]" using msg1_type by metis
  then show ?thesis
    using WriteInitiation_ok [OF assms(2) NewInitiator_ok [OF assms(3,2)] e w [unfolded interop_initiation_def]] by simp
qed

lemma interop_main_cases:
  assumes "interop_main cr ie st args = (c, sent)"
  obtains (asked) "flag_parse interop_flags [] args = FlagsHelp" "c = 0" "sent = []"
  | (misused) "flag_parse interop_flags [] args = FlagsError" "c = 2" "sent = []"
  | (unprepared) "c = 1" "sent = []"
  | (started) vals rest nd where "flag_parse interop_flags [] args = FlagsParsed vals rest"
      "load_node (ie_sys ie) st (interop_opts_of vals) = Inr nd"
      "(case interop_session_run cr ie (interop_opts_of vals) nd of Inl ex \<Rightarrow> ex | Inr sent \<Rightarrow> (0, sent)) = (c, sent)"
proof (cases "flag_parse interop_flags [] args")
  case (FlagsParsed vals rest)
  note r = assms [unfolded interop_main_def FlagsParsed Let_def, simplified]
  show thesis
  proof (cases "load_node (ie_sys ie) st (interop_opts_of vals)")
    case (Inl x)
    then show thesis using r unprepared load_node_exit [OF Inl] by simp
  next
    case (Inr nd)
    then show thesis using r unprepared started [OF FlagsParsed Inr] by (auto simp: fail_def split: if_splits)
  qed
qed (use assms asked misused in \<open>simp_all add: interop_main_def\<close>)

end
