(* ===== verification/Interop_Session.thy ===== *)
theory Interop_Session
  imports Interop_Main
begin

text \<open>
  What the session of \<open>cmd/interop\<close> guarantees: for every daemon, what the program may send and
  when it may succeed; with a daemon that follows the protocol, that it does succeed, and that
  the daemon can open, verify and parse all it was sent. A complete session on concrete keys
  shows that the hypotheses hold together.
\<close>

subsection \<open>Properties\<close>

text \<open>
  C16: What the program can send. Whatever the daemon answers, the program ends with exit code 0
  or 1 (2 only for bad flags), and never by a panic. It sends nothing, or one 144-byte
  initiation followed by at most two transport packets, all sealed under one 32-byte key to
  one receiver index, the first with counter 0 and the second with counter 1, so that no
  nonce is used twice under the key; a second packet is sent only when \<open>--intent\<close> is given,
  and sending it is the program's success.
\<close>

theorem interop_datagrams:
  assumes "blake2s_laws cr" and "ed25519_laws cr" and "x25519_laws cr"
    and "interop_main cr ie st args = (c, sent)"
  shows "(c = 0 \<or> c = 1 \<or> c = 2 \<and> sent = [] \<and> flag_parse interop_flags [] args = FlagsError) \<and>
    (sent = [] \<or>
     (\<exists>vals rest m1 key idx pts. flag_parse interop_flags [] args = FlagsParsed vals rest \<and>
        length m1 = Msg1Size \<and> take 4 m1 = [1, 0, 0, 0] \<and> length key = keyLen \<and> length pts \<le> 2 \<and>
        sent = m1 # map (\<lambda>(k, pt). sealed_packet cr key idx k pt) (enumerate 0 pts) \<and>
        distinct (map (\<lambda>k. transportNonce (of_nat k)) [0..<length pts]) \<and>
        (c = 0 \<longrightarrow> pts \<noteq> []) \<and> (length pts = 2 \<longrightarrow> c = 0 \<and> io_sendIntent (interop_opts_of vals))))"
  using assms(4)
proof (cases rule: interop_main_cases)
  case (started vals rest nd)
  let ?shape = "\<lambda>m1 key idx pts. length m1 = Msg1Size \<and> take 4 m1 = [1, 0, 0, 0] \<and> length key = keyLen \<and> length pts \<le> 2 \<and>
        sent = m1 # map (\<lambda>(k, pt). sealed_packet cr key idx k pt) (enumerate 0 pts) \<and>
        distinct (map (\<lambda>k. transportNonce (of_nat k)) [0..<length pts]) \<and>
        (c = 0 \<longrightarrow> pts \<noteq> []) \<and> (length pts = 2 \<longrightarrow> c = 0 \<and> io_sendIntent (interop_opts_of vals))"
  have nd: "node_ok nd" by (rule load_node_ok [OF started(2)])
  note type = initiation_type [OF assms(3,1) nd]
  have "(c = 0 \<or> c = 1) \<and> (sent = [] \<or> (\<exists>m1 key idx pts. ?shape m1 key idx pts))"
    using assms(1,2) nd refl
  proof (cases rule: session_run_cases [of cr nd ie "interop_opts_of vals"])
    case none
    then show ?thesis using started(3) by simp
  next
    case (initiated i m1)
    then have "?shape m1 (replicate 32 0) 0 []" using started(3) type by simp
    moreover have "c = 0 \<or> c = 1" using started(3) initiated by simp
    ultimately show ?thesis by blast
  next
    case (bound i m1 se frame)
    then have "?shape m1 (hr_SendKey (is_res se)) (is_daemonIndex se) [frame]" using started(3) type by simp
    moreover have "c = 0 \<or> c = 1" using started(3) bound by simp
    ultimately show ?thesis by blast
  next
    case (verified i m1 se frame cert)
    then have "?shape m1 (hr_SendKey (is_res se)) (is_daemonIndex se) [frame]" using started(3) type by simp
    moreover have "c = 0 \<or> c = 1" using started(3) verified by simp
    ultimately show ?thesis by blast
  next
    case (intent i m1 se frame cert env)
    then have "?shape m1 (hr_SendKey (is_res se)) (is_daemonIndex se) [frame, env]"
      using started(3) type by (simp add: transportNonce_inject)
    moreover have "c = 0 \<or> c = 1" using started(3) intent by simp
    ultimately show ?thesis by blast
  qed
  then show ?thesis using started(1) by blast
qed simp_all

text \<open>
  C10: The program succeeds only with an authentic daemon. When it exits with 0 after talking to
  the daemon, or has sent an intent at all, then it completed the handshake it began
  with the configured daemon key, and the daemon sent, sealed under the key of this very
  session, a binding frame whose certificate the trusted CA files accept and whose
  signature, under that certificate's key, is over the transcript hash of this session.
\<close>

theorem interop_success_authentic:
  assumes "blake2s_laws cr" and "ed25519_laws cr" and "interop_main cr ie st args = (c, sent)"
    and "c = 0 \<and> sent \<noteq> [] \<or> length sent = 3"
  shows "\<exists>vals rest nd i d1 i' d2 n cb sig cert.
    flag_parse interop_flags [] args = FlagsParsed vals rest \<and>
    load_node (ie_sys ie) st (interop_opts_of vals) = Inr nd \<and> initiates cr ie nd i (hd sent) \<and>
    ie_reply ie [hd sent] = Some d1 \<and> ReadResponse cr i (take Msg2Size d1) (nd_daemonSigpub nd) = (Inr (), i') \<and>
    ie_reply ie (take 2 sent) = Some d2 \<and>
    OpenTransport cr (hr_RecvKey (Initiator_Finalize cr i')) (take 2048 d2) = Inr (enc_field16 cb @ sig, n) \<and>
    ParseCert cb = Inr cert \<and> chain_accepts cr cert (nd_trusted nd) \<and>
    ed_verify cr (cert_SigPubkey cert) (DomainBinding # hr_H (Initiator_Finalize cr i')) sig"
  using assms(3)
proof (cases rule: interop_main_cases)
  case (started vals rest nd)
  have nd: "node_ok nd" by (rule load_node_ok [OF started(2)])
  obtain se cert m1 p where A: "interop_stageA cr ie nd = Inr se"
    and B: "interop_stageB cr ie nd se = Inr (cert, [m1, p])" and sent: "hd sent = m1" "take 2 sent = [m1, p]"
    using assms(1,2) nd refl
    by (cases rule: session_run_cases [of cr nd ie "interop_opts_of vals"]) (use started(3) assms(4) in auto)
  from A obtain i d1 i' where a: "initiates cr ie nd i (hd (is_sent se))" "ie_reply ie [hd (is_sent se)] = Some d1"
      "ReadResponse cr i (take Msg2Size d1) (nd_daemonSigpub nd) = (Inr (), i')" "is_res se = Initiator_Finalize cr i'"
      "length (is_buf se) = 2048" "is_sent se = [hd (is_sent se)]"
    unfolding stageA_iff by auto
  from B [unfolded stageB_iff [OF a(5)]] obtain d2 theirs n where b: "[m1, p] = is_sent se @ [p]" "ie_reply ie [m1, p] = Some d2"
      "OpenTransport cr (hr_RecvKey (is_res se)) (take 2048 d2) = Inr (theirs, n)"
      "VerifyBindingFrame cr theirs (hr_H (is_res se)) (nd_trusted nd) = Inr cert" by auto
  from b(4) [unfolded VerifyBindingFrame_ok_iff ParseBindingFrame_iff] obtain cb sig where
    "theirs = enc_field16 cb @ sig" "ParseCert cb = Inr cert" "chain_accepts cr cert (nd_trusted nd)"
    "ed_verify cr (cert_SigPubkey cert) (DomainBinding # hr_H (is_res se)) sig" by blast
  moreover have "hd (is_sent se) = m1" using b(1) a(6) by (metis append_Cons list.sel(1))
  ultimately show ?thesis using started(1,2) a(1-4) b(2,3) sent by (metis (no_types))
qed (use assms(4) in simp_all)

lemma stageC_sent:
  assumes "ed25519_laws cr" and "aead_laws cr" and "node_ok nd" and key: "length (hr_SendKey (is_res se)) = keyLen"
    and "ie_write ie sent" and "length (interop_resource cr o' cert) \<le> MaxResource"
  shows "\<exists>q w e. interop_stageC cr ie o' nd se cert sent = Inr (sent @ [q]) \<and>
     OpenTransport cr (hr_SendKey (is_res se)) q = Inr (w, 1) \<and> ParseEnvelope w = Inr e \<and>
     Envelope_VerifySig cr e = Inr () \<and> env_Sender e = ed_pub cr (nd_goSigSeed nd) \<and> env_BodyType e = BodyIntent \<and>
     ParseIntent (env_Body e) = Inr (interop_intent cr ie o' cert)"
proof -
  have seed: "length (nd_goSigSeed nd) = SeedSize" using assms(3) by (simp add: node_ok_def)
  have pub: "ed25519Pub cr (nd_goSigSeed nd) = Inr (ed_pub cr (nd_goSigSeed nd))"
    using ed25519_lawsD(1) [OF assms(1) seed] seed
    by (simp add: ed25519Pub_def NewKeyFromSeed_def PublicOf_def copy_at_whole)
  have "length (intent_IntentID (interop_intent cr ie o' cert)) = 16"
    by (auto simp: interop_intent_def dest: rand_array_length split: option.splits)
  moreover have "length (str_bytes ''apt-get install -y sqlite3'') \<le> MaxAction" "length (str_bytes ''interop stage C'') \<le> MaxRationale"
    by (simp_all add: str_bytes_def)
  ultimately obtain body where body: "EncodeIntentBody (interop_intent cr ie o' cert) = Inr body"
    using assms(6) by (simp add: EncodeIntentBody_def) (simp add: interop_intent_def)
  from intent_sent [OF assms(1) _ seed body, of "replicate 32 0" 2 1 "ie_now ie 1"] obtain w e where
    w: "BuildSignedEnvelope cr 2 (replicate 32 0) (ed_pub cr (nd_goSigSeed nd)) 1 [] 0 (ie_now ie 1) BodyIntent body
          (nd_goSigSeed nd) = Inr w"
    and e: "ParseEnvelope w = Inr e" "Envelope_VerifySig cr e = Inr ()" "env_BodyType e = BodyIntent"
      "env_Sender e = ed_pub cr (nd_goSigSeed nd)" "ParseIntent (env_Body e) = Inr (interop_intent cr ie o' cert)" by auto
  from seal_then_open [OF assms(2) key, of "is_daemonIndex se" 1 w] obtain q where
    q: "SealTransport cr (hr_SendKey (is_res se)) (is_daemonIndex se) 1 w = Inr q"
      "OpenTransport cr (hr_SendKey (is_res se)) q = Inr (w, 1)" by blast
  have "interop_stageC cr ie o' nd se cert sent = Inr (sent @ [q])"
    unfolding stageC_iff using body pub w q(1) assms(5) by blast
  then show ?thesis using q(2) e by blast
qed

lemma stageB_received:
  assumes laws: "ed25519_laws cr" "aead_laws cr" and key: "length (hr_SendKey (is_res se)) = keyLen"
    "length (hr_RecvKey (is_res se)) = keyLen" "length (is_buf se) = 2048"
    and own: "node_ok nd" "ParseCert (nd_goCert nd) = Inr gct" "chain_accepts cr gct dtrusted"
      "cert_SigPubkey gct = ed_pub cr (nd_goSigSeed nd)"
    and peer: "length dseed = SeedSize" "ParseCert dcb = Inr dct" "chain_accepts cr dct (nd_trusted nd)"
      "cert_SigPubkey dct = ed_pub cr dseed"
      "BuildBindingFrame cr dcb dseed (hr_H (is_res se)) = Inr dframe"
      "SealTransport cr (hr_RecvKey (is_res se)) ridx dctr dframe = Inr dpkt"
    and net: "ie_write ie (is_sent se)" "\<And>p. ie_reply ie (is_sent se @ [p]) = Some dpkt"
  shows "\<exists>p frame. interop_stageB cr ie nd se = Inr (dct, is_sent se @ [p]) \<and>
     OpenTransport cr (hr_SendKey (is_res se)) p = Inr (frame, 0) \<and> take 16 p = transport_hdr (is_daemonIndex se) 0 \<and>
     VerifyBindingFrame cr frame (hr_H (is_res se)) dtrusted = Inr gct"
proof -
  have seed: "length (nd_goSigSeed nd) = SeedSize" using own(1) by (simp add: node_ok_def)
  from binding_frame_accepted [OF laws(1) seed own(2-4), of "hr_H (is_res se)"] obtain frame where
    f: "BuildBindingFrame cr (nd_goCert nd) (nd_goSigSeed nd) (hr_H (is_res se)) = Inr frame"
      "VerifyBindingFrame cr frame (hr_H (is_res se)) dtrusted = Inr gct" by blast
  from seal_then_open [OF laws(2) key(1), of "is_daemonIndex se" 0 frame] obtain p where
    p: "SealTransport cr (hr_SendKey (is_res se)) (is_daemonIndex se) 0 frame = Inr p"
      "OpenTransport cr (hr_SendKey (is_res se)) p = Inr (frame, 0)" by blast
  have hdr: "take 16 p = transport_hdr (is_daemonIndex se) 0" using p(1) by (auto simp: SealTransport_layout [OF key(1)])
  have d: "OpenTransport cr (hr_RecvKey (is_res se)) dpkt = Inr (dframe, dctr)" "length dpkt = 16 + length dframe + 16"
    using seal_then_open [OF laws(2) key(2), of ridx dctr dframe] peer(6) by auto
  have "VerifyBindingFrame cr dframe (hr_H (is_res se)) (nd_trusted nd) = Inr dct"
    using binding_frame_accepted [OF laws(1) peer(1-4), of "hr_H (is_res se)"] peer(5) by auto
  moreover have "length dframe \<le> 664"
    using peer(5) cert_length [OF peer(2)] ed25519_lawsD laws(1) peer(1)
    by (auto simp: BuildBindingFrame_layout [OF laws(1) peer(1)])
  then have "take 2048 dpkt = dpkt" using d(2) by simp
  ultimately have "interop_stageB cr ie nd se = Inr (dct, is_sent se @ [p])"
    unfolding stageB_iff [OF key(3)] using f(1) p(1) d(1) net by (metis (no_types))
  then show ?thesis using p(2) hdr f(2) by blast
qed

lemma stageA_completes:
  assumes laws: "x25519_laws cr" "aead_laws cr" "blake2s_laws cr"
    and init: "initiates cr ie nd i m1" and net: "ie_write ie []" "ie_reply ie [m1] = Some m2"
    and keys: "X25519 cr (nd_goStaticSec nd) (Basepoint cr) = Some (nd_goStaticPub nd)"
      "X25519 cr sR (Basepoint cr) = Some (nd_daemonStatic nd)" "length cookie = 16"
    and resp: "WriteResponse cr (snd (ReadInitiation cr (NewResponder cr sR (nd_daemonStatic nd)) m1 (nd_daemonSigpub nd)))
        (replicate Msg2Size 0) didx echo eR (nd_daemonSigpub nd) cookie = (Inr (), re, m2)"
  defines "rr \<equiv> Responder_Finalize cr re"
  shows "\<exists>se. interop_stageA cr ie nd = Inr se \<and> is_sent se = [m1] \<and> is_daemonIndex se = didx \<and> length (is_buf se) = 2048 \<and>
     hr_SendKey (is_res se) = hr_RecvKey rr \<and> hr_RecvKey (is_res se) = hr_SendKey rr \<and> hr_H (is_res se) = hr_H rr"
proof -
  from init obtain eph where w1: "WriteInitiation cr (NewInitiator cr (nd_goStaticSec nd) (nd_goStaticPub nd) (nd_daemonStatic nd))
      (replicate Msg1Size 0) interop_senderIndex (ie_now ie 0) eph (nd_daemonSigpub nd) (replicate 16 0) = (Inr (), i, m1)"
    by (auto simp: initiates_def interop_initiation_def)
  have c: "length (replicate 16 (0 :: byte)) = 16" by simp
  from initiation_read [OF laws keys(1,2) c w1] obtain r0 where
    "ReadInitiation cr (NewResponder cr sR (nd_daemonStatic nd)) m1 (nd_daemonSigpub nd) = (Inr (), r0)" "hs_linked cr i r0" by blast
  then have r0: "length (re_ephPublic (snd (ReadInitiation cr (NewResponder cr sR (nd_daemonStatic nd)) m1 (nd_daemonSigpub nd)))) = 32"
    by (simp add: hs_linked_def)
  note fr = response_frame [OF laws r0 keys(3) resp]
  let ?i' = "snd (ReadResponse cr i m2 (nd_daemonSigpub nd))"
  from handshake_agrees [OF laws keys(1,2) c keys(3) w1 resp]
  have agree: "fst (ReadResponse cr i m2 (nd_daemonSigpub nd)) = Inr ()"
      "hr_SendKey (Initiator_Finalize cr ?i') = hr_RecvKey rr" "hr_RecvKey (Initiator_Finalize cr ?i') = hr_SendKey rr"
      "hr_H (Initiator_Finalize cr ?i') = hr_H rr" by (simp_all add: Let_def rr_def)
  have "ReadResponse cr i (take Msg2Size m2) (nd_daemonSigpub nd) = (Inr (), ?i')" using agree(1) fr(1) by (simp add: prod_eq_iff)
  then have "interop_stageA cr ie nd = Inr \<lparr>is_res = Initiator_Finalize cr ?i', is_daemonIndex = be_word (subslice m2 4 8),
      is_senderEcho = be_word (subslice m2 8 12), is_buf = copy_at 0 m2 (replicate 2048 0), is_sent = [m1]\<rparr>"
    unfolding stageA_iff using init net fr(1,2) order_refl by metis
  then show ?thesis using agree(2-4) fr(3) by auto
qed

lemma interop_completes:
  assumes laws: "x25519_laws cr" "aead_laws cr" "blake2s_laws cr" "ed25519_laws cr"
    and args: "flag_parse interop_flags [] args = FlagsParsed vals rest"
      "load_node (ie_sys ie) st (interop_opts_of vals) = Inr nd"
    and net: "ie_dial ie (io_daemonAddr (interop_opts_of vals))" "\<And>sent. ie_write ie sent"
    and init: "initiates cr ie nd i m1"
    and keys: "X25519 cr (nd_goStaticSec nd) (Basepoint cr) = Some (nd_goStaticPub nd)"
      "X25519 cr sR (Basepoint cr) = Some (nd_daemonStatic nd)" "length cookie = 16"
    and resp: "WriteResponse cr (snd (ReadInitiation cr (NewResponder cr sR (nd_daemonStatic nd)) m1 (nd_daemonSigpub nd)))
        (replicate Msg2Size 0) didx echo eR (nd_daemonSigpub nd) cookie = (Inr (), re, m2)"
    and own: "ParseCert (nd_goCert nd) = Inr gct" "chain_accepts cr gct dtrusted" "cert_SigPubkey gct = ed_pub cr (nd_goSigSeed nd)"
    and peer: "length dseed = SeedSize" "ParseCert dcb = Inr dct" "chain_accepts cr dct (nd_trusted nd)"
      "cert_SigPubkey dct = ed_pub cr dseed"
      "BuildBindingFrame cr dcb dseed (hr_H (Responder_Finalize cr re)) = Inr dframe"
      "SealTransport cr (hr_SendKey (Responder_Finalize cr re)) ridx dctr dframe = Inr dpkt"
    and replies: "ie_reply ie [m1] = Some m2" "\<And>p. ie_reply ie [m1, p] = Some dpkt"
    and res: "io_sendIntent (interop_opts_of vals) \<Longrightarrow> length (interop_resource cr (interop_opts_of vals) dct) \<le> MaxResource"
  shows "\<exists>p frame qs. interop_main cr ie st args = (0, m1 # p # qs) \<and> take 16 p = transport_hdr didx 0 \<and>
     OpenTransport cr (hr_RecvKey (Responder_Finalize cr re)) p = Inr (frame, 0) \<and>
     VerifyBindingFrame cr frame (hr_H (Responder_Finalize cr re)) dtrusted = Inr gct \<and>
     (if io_sendIntent (interop_opts_of vals)
      then \<exists>q w e. qs = [q] \<and> OpenTransport cr (hr_RecvKey (Responder_Finalize cr re)) q = Inr (w, 1) \<and>
        ParseEnvelope w = Inr e \<and> Envelope_VerifySig cr e = Inr () \<and> env_Sender e = cert_SigPubkey gct \<and>
        env_BodyType e = BodyIntent \<and> ParseIntent (env_Body e) = Inr (interop_intent cr ie (interop_opts_of vals) dct)
      else qs = [])"
proof -
  let ?o = "interop_opts_of vals"
  have nd: "node_ok nd" by (rule load_node_ok [OF args(2)])
  from stageA_completes [OF laws(1-3) init net(2) replies(1) keys resp] obtain se where
    A: "interop_stageA cr ie nd = Inr se" "is_sent se = [m1]" "is_daemonIndex se = didx" "length (is_buf se) = 2048"
    and k: "hr_SendKey (is_res se) = hr_RecvKey (Responder_Finalize cr re)"
      "hr_RecvKey (is_res se) = hr_SendKey (Responder_Finalize cr re)" "hr_H (is_res se) = hr_H (Responder_Finalize cr re)" by blast
  have len: "length (hr_SendKey (is_res se)) = keyLen" "length (hr_RecvKey (is_res se)) = keyLen"
    using A(1) Finalize_lengths [OF laws(3)] unfolding stageA_iff by auto
  have reply: "ie_reply ie (is_sent se @ [p]) = Some dpkt" for p using replies(2) A(2) by simp
  from stageB_received [OF laws(4,2) len A(4) nd own peer(1-4), of dframe ridx dctr dpkt ie] peer(5,6) net(2) reply
  obtain p frame where B: "interop_stageB cr ie nd se = Inr (dct, [m1, p])"
    and p: "OpenTransport cr (hr_SendKey (is_res se)) p = Inr (frame, 0)" "take 16 p = transport_hdr didx 0"
      "VerifyBindingFrame cr frame (hr_H (is_res se)) dtrusted = Inr gct"
    unfolding k A(2,3) by auto
  have main: "interop_main cr ie st args = (case (if \<not> io_sendIntent ?o then Inr [m1, p]
       else interop_stageC cr ie ?o nd se dct [m1, p]) of Inl ex \<Rightarrow> ex | Inr sent \<Rightarrow> (0, sent))"
    using args net(1) A(1) B by (simp add: interop_main_def Let_def interop_session_run_def)
  show ?thesis
  proof (cases "io_sendIntent ?o")
    case False
    then show ?thesis using main p k by auto
  next
    case True
    from stageC_sent [OF laws(4,2) nd len(1) net(2) res [OF True], of "[m1, p]"] obtain q w e where
      C: "interop_stageC cr ie ?o nd se dct [m1, p] = Inr [m1, p, q]"
      and q: "OpenTransport cr (hr_SendKey (is_res se)) q = Inr (w, 1)" "ParseEnvelope w = Inr e" "Envelope_VerifySig cr e = Inr ()"
        "env_Sender e = ed_pub cr (nd_goSigSeed nd)" "env_BodyType e = BodyIntent"
        "ParseIntent (env_Body e) = Inr (interop_intent cr ie ?o dct)" by auto
    have "interop_main cr ie st args = (0, [m1, p, q])" using main True C by simp
    then show ?thesis using True p q own(3) k by auto
  qed
qed

text \<open>
  C9: The program works with a daemon that follows the protocol. Take a daemon that holds the
  secret of the configured static key, answers the initiation with the response the library's
  responder writes, whatever index it echoes, and then sends its binding frame sealed under its
  send key, with a certificate that the trusted CA files accept. Then the program exits with
  0; the daemon opens the first transport packet, addressed to the index it announced, to
  a binding frame that it accepts as the program's certificate; and with \<open>--intent\<close>, when the
  resource name is not too long, the daemon opens one more packet to an envelope
  signed by that certificate's key, whose body is the intent naming the daemon's resource.
\<close>

theorem interop_with_daemon:
  assumes laws: "x25519_laws cr" "aead_laws cr" "blake2s_laws cr" "ed25519_laws cr"
    and args: "flag_parse interop_flags [] args = FlagsParsed vals rest"
      "load_node (ie_sys ie) st (interop_opts_of vals) = Inr nd"
    and net: "ie_dial ie (io_daemonAddr (interop_opts_of vals))" "\<And>sent. ie_write ie sent"
    and init: "initiates cr ie nd i m1"
    and keys: "X25519 cr (nd_goStaticSec nd) (Basepoint cr) = Some (nd_goStaticPub nd)"
      "X25519 cr sR (Basepoint cr) = Some (nd_daemonStatic nd)" "length cookie = 16"
    and resp: "WriteResponse cr (snd (ReadInitiation cr (NewResponder cr sR (nd_daemonStatic nd)) m1 (nd_daemonSigpub nd)))
        (replicate Msg2Size 0) didx echo eR (nd_daemonSigpub nd) cookie = (Inr (), re, m2)"
    and own: "ParseCert (nd_goCert nd) = Inr gct" "chain_accepts cr gct dtrusted" "cert_SigPubkey gct = ed_pub cr (nd_goSigSeed nd)"
    and peer: "length dseed = SeedSize" "ParseCert dcb = Inr dct" "chain_accepts cr dct (nd_trusted nd)"
      "cert_SigPubkey dct = ed_pub cr dseed"
      "BuildBindingFrame cr dcb dseed (hr_H (Responder_Finalize cr re)) = Inr dframe"
      "SealTransport cr (hr_SendKey (Responder_Finalize cr re)) ridx dctr dframe = Inr dpkt"
    and replies: "ie_reply ie [m1] = Some m2" "\<And>p. ie_reply ie [m1, p] = Some dpkt"
    and res: "io_sendIntent (interop_opts_of vals) \<Longrightarrow> length (interop_resource cr (interop_opts_of vals) dct) \<le> MaxResource"
  shows "\<exists>p frame qs. interop_main cr ie st args = (0, m1 # p # qs) \<and> take 16 p = transport_hdr didx 0 \<and>
     OpenTransport cr (hr_RecvKey (Responder_Finalize cr re)) p = Inr (frame, 0) \<and>
     VerifyBindingFrame cr frame (hr_H (Responder_Finalize cr re)) dtrusted = Inr gct \<and>
     (if io_sendIntent (interop_opts_of vals)
      then \<exists>q w e. qs = [q] \<and> OpenTransport cr (hr_RecvKey (Responder_Finalize cr re)) q = Inr (w, 1) \<and>
        ParseEnvelope w = Inr e \<and> Envelope_VerifySig cr e = Inr () \<and> env_Sender e = cert_SigPubkey gct \<and>
        env_BodyType e = BodyIntent \<and> ParseIntent (env_Body e) = Inr (interop_intent cr ie (interop_opts_of vals) dct)
      else qs = [])"
  by (rule interop_completes [OF assms])

subsection \<open>A concrete session\<close>

definition interop_demo_store :: store where
  "interop_demo_store =
     [str_bytes ''n/static.key'' \<mapsto> (key32 1, perm_private), str_bytes ''n/static.pub'' \<mapsto> (8 # replicate 31 1, perm_public),
      str_bytes ''n/sig.key'' \<mapsto> (key32 7, perm_private), str_bytes ''n/cert.bin'' \<mapsto> (enc_cert exec_cert, perm_public),
      str_bytes ''ds'' \<mapsto> (11 # replicate 31 2, perm_public), str_bytes ''dp'' \<mapsto> (key32 4, perm_public),
      str_bytes ''ca/ca0.pub'' \<mapsto> (key32 1, perm_public), str_bytes ''ca/ca1.pub'' \<mapsto> (key32 2, perm_public)]"

definition interop_demo_args :: "bytes list" where
  "interop_demo_args = map str_bytes [''--node-go'', ''n'', ''-daemon-static=ds'', ''--daemon-sigpub'', ''dp'', ''--intent'', ''--ca'', ''ca'']"

definition interop_demo_vals :: "(bytes \<times> bytes) list" where
  "interop_demo_vals = map (\<lambda>(n, v). (str_bytes n, str_bytes v))
     [(''node-go'', ''n''), (''daemon-static'', ''ds''), (''daemon-sigpub'', ''dp''), (''intent'', ''true''), (''ca'', ''ca'')]"

definition interop_demo_node :: interop_node where
  "interop_demo_node =
     \<lparr>nd_goStaticSec = key32 1, nd_goStaticPub = 8 # replicate 31 1, nd_goSigSeed = key32 7, nd_goCert = enc_cert exec_cert,
      nd_daemonStatic = 11 # replicate 31 2, nd_daemonSigpub = key32 4, nd_trusted = [key32 1, key32 2]\<rparr>"

definition interop_demo_init :: "unit result \<times> Initiator \<times> bytes" where
  "interop_demo_init =
     WriteInitiation ref_crypto (NewInitiator ref_crypto (key32 1) (8 # replicate 31 1) (11 # replicate 31 2))
       (replicate 144 0) interop_senderIndex 99 (key32 7) (key32 4) (replicate 16 0)"

definition interop_demo_resp :: "unit result \<times> Responder \<times> bytes" where
  "interop_demo_resp =
     WriteResponse ref_crypto (snd (ReadInitiation ref_crypto (NewResponder ref_crypto (key32 2) (11 # replicate 31 2))
       (snd (snd interop_demo_init)) (key32 4))) (replicate 92 0) 5 6 (key32 9) (key32 4) (replicate 16 0)"

lemma interop_demo_flags:
  "flag_parse interop_flags [] interop_demo_args = FlagsParsed interop_demo_vals []"
  "io_sendIntent (interop_opts_of interop_demo_vals)"
  by code_simp+

lemma interop_demo_load:
  "load_node (demo_env (Exited 0) []) interop_demo_store (interop_opts_of interop_demo_vals) = Inr interop_demo_node"
  by code_simp

lemma interop_demo_handshake: "fst interop_demo_init = Inr ()" "fst interop_demo_resp = Inr ()"
  by code_simp+

abbreviation daemon_cert :: Cert where "daemon_cert \<equiv> demo_cert RoleExecutor (key32 0x52)"

definition interop_demo_result :: HandshakeResult where
  "interop_demo_result = Responder_Finalize ref_crypto (fst (snd interop_demo_resp))"

definition interop_demo_frame :: "bytes result" where
  "interop_demo_frame = BuildBindingFrame ref_crypto (enc_cert daemon_cert) (key32 8) (hr_H interop_demo_result)"

definition interop_demo_packet :: "bytes result" where
  "interop_demo_packet =
     SealTransport ref_crypto (hr_SendKey interop_demo_result) interop_senderIndex 0 (projr interop_demo_frame)"

definition interop_demo_env :: interop_env where
  "interop_demo_env =
     \<lparr>ie_sys = demo_env (Exited 0) [], ie_dial = (\<lambda>_. True), ie_write = (\<lambda>_. True),
      ie_reply = (\<lambda>sent. if sent = [snd (snd interop_demo_init)] then Some (snd (snd interop_demo_resp))
                        else if length sent = 2 then Some (projr interop_demo_packet) else None),
      ie_now = (\<lambda>_. 99), ie_left = []\<rparr>"

lemma interop_demo_env_sel:
  "ie_sys interop_demo_env = demo_env (Exited 0) []" "ie_dial interop_demo_env a" "ie_write interop_demo_env sent"
  "ie_reply interop_demo_env [snd (snd interop_demo_init)] = Some (snd (snd interop_demo_resp))"
  "ie_reply interop_demo_env [m, p] = Some (projr interop_demo_packet)" "ie_now interop_demo_env k = 99"
  by (simp_all add: interop_demo_env_def)

lemma interop_demo_messages:
  "WriteInitiation ref_crypto (NewInitiator ref_crypto (key32 1) (8 # replicate 31 1) (11 # replicate 31 2))
     (replicate 144 0) interop_senderIndex 99 (key32 7) (key32 4) (replicate 16 0) =
   (Inr (), fst (snd interop_demo_init), snd (snd interop_demo_init))"
  "WriteResponse ref_crypto (snd (ReadInitiation ref_crypto (NewResponder ref_crypto (key32 2) (11 # replicate 31 2))
     (snd (snd interop_demo_init)) (key32 4))) (replicate 92 0) 5 6 (key32 9) (key32 4) (replicate 16 0) =
   (Inr (), fst (snd interop_demo_resp), snd (snd interop_demo_resp))"
  unfolding interop_demo_init_def [symmetric] interop_demo_resp_def [symmetric]
  using interop_demo_handshake by (simp_all only: prod_eq_iff fst_conv snd_conv simp_thms)

lemma interop_demo_initiates:
  "initiates ref_crypto interop_demo_env interop_demo_node (fst (snd interop_demo_init)) (snd (snd interop_demo_init))"
proof -
  have "rand_array (demo_env (Exited 0) []) 0 32 = Some (key32 7)"
    by (simp add: rand_array_def demo_env_def copy_at_whole)
  then show ?thesis
    unfolding initiates_def interop_initiation_def interop_demo_env_sel interop_demo_node_def interop_node.simps
    using interop_demo_messages(1) by blast
qed

lemma interop_demo_peer:
  "BuildBindingFrame ref_crypto (enc_cert daemon_cert) (key32 8) (hr_H interop_demo_result) = Inr (projr interop_demo_frame)"
  "SealTransport ref_crypto (hr_SendKey interop_demo_result) interop_senderIndex 0 (projr interop_demo_frame) =
   Inr (projr interop_demo_packet)"
proof -
  show "BuildBindingFrame ref_crypto (enc_cert daemon_cert) (key32 8) (hr_H interop_demo_result) = Inr (projr interop_demo_frame)"
    by (simp only: interop_demo_frame_def BuildBindingFrame_layout [OF ref_ed25519 length_replicate] sum.sel)
  obtain c1 c2 where c: "split_keys ref_crypto (re_sym (fst (snd interop_demo_resp))) = (c1, c2)" by fastforce
  then have "length c2 = 32" using length_hkdf2 [OF ref_blake2s] by (simp add: split_keys_def)
  then have "length (hr_SendKey interop_demo_result) = keyLen"
    using c by (simp add: interop_demo_result_def Responder_Finalize_def)
  then show "SealTransport ref_crypto (hr_SendKey interop_demo_result) interop_senderIndex 0 (projr interop_demo_frame) =
      Inr (projr interop_demo_packet)"
    by (simp only: interop_demo_packet_def SealTransport_layout sum.sel)
qed

lemma interop_demo_resource:
  "length (interop_resource ref_crypto (interop_opts_of interop_demo_vals) daemon_cert) \<le> MaxResource"
  by code_simp

lemma interop_demo_certs:
  "chain_accepts ref_crypto exec_cert [key32 1, key32 2]" "chain_accepts ref_crypto daemon_cert [key32 1, key32 2]"
  "cert_SigPubkey exec_cert = ed_pub ref_crypto (key32 7)" "cert_SigPubkey daemon_cert = ed_pub ref_crypto (key32 8)"
  by (simp_all add: demo_cert_accepted)

lemma interop_demo_run:
  "\<exists>p q. interop_main ref_crypto interop_demo_env interop_demo_store interop_demo_args = (0, [snd (snd interop_demo_init), p, q])"
  using interop_completes [OF ref_x25519 ref_aead ref_blake2s ref_ed25519 interop_demo_flags(1)
      interop_demo_load [folded interop_demo_env_sel(1)] interop_demo_env_sel(2,3) interop_demo_initiates,
      unfolded interop_demo_node_def interop_node.simps,
      OF demo_points length_replicate interop_demo_messages(2) exec_cert_ok(3) interop_demo_certs(1,3) length_replicate
        demo_cert_ok(3) [OF length_replicate] interop_demo_certs(2,4),
      folded interop_demo_result_def, OF interop_demo_peer interop_demo_env_sel(4,5) interop_demo_resource]
    interop_demo_flags(2)
  by auto

theorem interop_datagrams_witness:
  "\<exists>m1 key idx pts. interop_main ref_crypto interop_demo_env interop_demo_store interop_demo_args =
     (0, m1 # map (\<lambda>(k, pt). sealed_packet ref_crypto key idx k pt) (enumerate 0 pts)) \<and> length pts = 2 \<and> length m1 = Msg1Size"
proof -
  obtain m1 p q where run: "interop_main ref_crypto interop_demo_env interop_demo_store interop_demo_args = (0, [m1, p, q])"
    using interop_demo_run by blast
  from interop_datagrams [OF ref_blake2s ref_ed25519 ref_x25519 run] obtain m key idx pts where
    m: "length m = Msg1Size" "[m1, p, q] = m # map (\<lambda>(k, pt). sealed_packet ref_crypto key idx k pt) (enumerate 0 pts)"
    by (metis list.distinct(1))
  from arg_cong [OF m(2), of length] have "length pts = 2" by simp
  then show ?thesis using run m by metis
qed

theorem interop_success_authentic_witness:
  "\<exists>n cb sig key d. OpenTransport ref_crypto key d = Inr (enc_field16 cb @ sig, n) \<and>
     (\<exists>cert. ParseCert cb = Inr cert \<and> chain_accepts ref_crypto cert [key32 1, key32 2])"
proof -
  obtain m1 p q where run: "interop_main ref_crypto interop_demo_env interop_demo_store interop_demo_args = (0, [m1, p, q])"
    using interop_demo_run by blast
  obtain vals rest nd d2 i' n cb sig cert where "flag_parse interop_flags [] interop_demo_args = FlagsParsed vals rest"
    and nd: "load_node (ie_sys interop_demo_env) interop_demo_store (interop_opts_of vals) = Inr nd"
    and o: "OpenTransport ref_crypto (hr_RecvKey (Initiator_Finalize ref_crypto i')) (take 2048 d2) = Inr (enc_field16 cb @ sig, n)"
      "ParseCert cb = Inr cert" "chain_accepts ref_crypto cert (nd_trusted nd)"
    using interop_success_authentic [OF ref_blake2s ref_ed25519 run] by auto
  then have "nd = interop_demo_node"
    using interop_demo_flags(1) interop_demo_load by (simp add: interop_demo_env_sel)
  then have "nd_trusted nd = [key32 1, key32 2]" by (simp add: interop_demo_node_def)
  with o(3) have "chain_accepts ref_crypto cert [key32 1, key32 2]" by (simp only:)
  then show ?thesis using o(1,2) by blast
qed

theorem interop_with_daemon_witness:
  "\<exists>p q frame. interop_main ref_crypto interop_demo_env interop_demo_store interop_demo_args =
       (0, [snd (snd interop_demo_init), p, q]) \<and>
     OpenTransport ref_crypto (hr_RecvKey interop_demo_result) p = Inr (frame, 0) \<and>
     VerifyBindingFrame ref_crypto frame (hr_H interop_demo_result) [key32 1, key32 2] = Inr exec_cert"
  using interop_with_daemon [OF ref_x25519 ref_aead ref_blake2s ref_ed25519 interop_demo_flags(1)
      interop_demo_load [folded interop_demo_env_sel(1)] interop_demo_env_sel(2,3) interop_demo_initiates,
      unfolded interop_demo_node_def interop_node.simps,
      OF demo_points length_replicate interop_demo_messages(2) exec_cert_ok(3) interop_demo_certs(1,3) length_replicate
        demo_cert_ok(3) [OF length_replicate] interop_demo_certs(2,4),
      folded interop_demo_result_def, OF interop_demo_peer interop_demo_env_sel(4,5) interop_demo_resource]
    interop_demo_flags(2)
  by auto

end
