(* ===== verification/Lastro_Keygen.thy ===== *)
theory Lastro_Keygen
  imports Lastro_System
begin

text \<open>
  The \<open>keygen\<close> command of \<open>cmd/lastro/main.go\<close>: it returns its exit code and the store. What
  it prints is not modelled.
\<close>

subsection \<open>keygen\<close>

definition keygen_flags :: "bytes \<Rightarrow> flag_kind option" where
  "keygen_flags n = (if n = str_bytes ''dir'' then Some FlagString else None)"

fun write_files :: "env \<Rightarrow> path \<Rightarrow> (bytes \<times> bytes) list \<Rightarrow> store \<Rightarrow> bool \<times> store" where
  "write_files en dir [] st = (True, st)"
| "write_files en dir ((name, d) # fs) st =
     (case WriteFile en st (Join dir name) d perm_private of
        (False, st) \<Rightarrow> (False, st)
      | (True, st) \<Rightarrow> write_files en dir fs st)"

definition cmdKeygen :: "crypto \<Rightarrow> env \<Rightarrow> store \<Rightarrow> bytes list \<Rightarrow> int \<times> store" where
  "cmdKeygen cr en st args =
     (case flag_parse keygen_flags [] args of
        FlagsHelp \<Rightarrow> (0, st)
      | FlagsError \<Rightarrow> (2, st)
      | FlagsParsed vals _ \<Rightarrow>
          let dir = flag_value vals (str_bytes ''dir'') [] in
          if dir = [] then (verifyUsage, st)
          else if \<not> env_mkdir en dir then (1, st)
          else if Stat_ok en st (Join dir (str_bytes ''sig.key'')) then (1, st)
          else case rand_array en 0 32 of None \<Rightarrow> (1, st) | Some sigSeed \<Rightarrow>
          case rand_array en 1 32 of None \<Rightarrow> (1, st) | Some kexSecret \<Rightarrow>
          case NewKeyFromSeed cr sigSeed of Inl _ \<Rightarrow> (exitPanic, st) | Inr priv \<Rightarrow>
          let sigPub = PublicOf priv in
          case X25519 cr kexSecret (Basepoint cr) of None \<Rightarrow> (1, st) | Some kexPub \<Rightarrow>
          (case write_files en dir
              [(str_bytes ''sig.key'', sigSeed), (str_bytes ''sig.pub'', sigPub),
               (str_bytes ''static.key'', kexSecret), (str_bytes ''static.pub'', kexPub)] st of
             (False, st) \<Rightarrow> (1, st)
           | (True, st) \<Rightarrow> (0, st)))"

subsection \<open>Key files\<close>

text \<open>The names of the key files are single path segments that \<open>Clean\<close> keeps.\<close>

definition plain_name :: "bytes \<Rightarrow> bool" where
  "plain_name s \<longleftrightarrow> 0x2f \<notin> set s \<and> s \<noteq> [] \<and> s \<noteq> [0x2e] \<and> s \<noteq> [0x2e, 0x2e]"

lemma Split_snoc: "0x2f \<notin> set name \<Longrightarrow> Split (d @ 0x2f # name) 0x2f = Split d 0x2f @ [name]"
proof (induction d)
  case Nil
  then show ?case by (simp add: Split_no_sep)
next
  case (Cons c d)
  then show ?case by (cases "Split d 0x2f") auto
qed

lemma clean_segs_snoc:
  "plain_name name \<Longrightarrow> clean_segs rooted out (segs @ [name]) = clean_segs rooted out segs @ [name]"
  by (induction rooted out segs rule: clean_segs.induct) (auto simp: plain_name_def split: list.splits)

lemma join_slash_snoc: "join_slash (segs @ [name]) = (if segs = [] then [] else join_slash segs @ [0x2f]) @ name"
  by (induction segs rule: join_slash.induct) auto

lemma Join_plain:
  assumes "dir \<noteq> []" and "plain_name a"
  shows "Join dir a = (if dir ! 0 = 0x2f then [0x2f] else []) @
     (let segs = clean_segs (dir ! 0 = 0x2f) [] (Split dir 0x2f) in if segs = [] then [] else join_slash segs @ [0x2f]) @ a"
proof -
  have "a \<noteq> []" "0x2f \<notin> set a" using assms(2) by (auto simp: plain_name_def)
  then show ?thesis
    using assms by (simp add: Join_def Clean_def Let_def Split_snoc clean_segs_snoc join_slash_snoc nth_append)
qed

lemma Join_inject: "dir \<noteq> [] \<Longrightarrow> plain_name a \<Longrightarrow> plain_name b \<Longrightarrow> Join dir a = Join dir b \<longleftrightarrow> a = b"
  by (simp add: Join_plain)

definition key_path :: "path \<Rightarrow> string \<Rightarrow> path" where
  "key_path dir name = Join dir (str_bytes name)"

lemma key_paths_distinct:
  assumes "dir \<noteq> []"
  shows "distinct (map (key_path dir) [''sig.key'', ''sig.pub'', ''static.key'', ''static.pub''])"
  using Join_inject [OF assms] by (simp add: key_path_def plain_name_def str_bytes_def)

definition keygen_dir :: "(bytes \<times> bytes) list \<Rightarrow> path" where
  "keygen_dir vals = flag_value vals (str_bytes ''dir'') []"



definition keygen_args :: "bytes list" where
  "keygen_args = map str_bytes [''--dir'', ''d'']"

lemma keygen_cmdline:
  "flag_parse keygen_flags [] keygen_args = FlagsParsed [(str_bytes ''dir'', str_bytes ''d'')] []"
  "keygen_dir [(str_bytes ''dir'', str_bytes ''d'')] = str_bytes ''d''"
  "key_path (str_bytes ''d'') ''sig.key'' = str_bytes ''d/sig.key''"
  "key_path (str_bytes ''d'') ''static.key'' = str_bytes ''d/static.key''"
  by code_simp+



end
