(* ===== verification/Wire_Method.thy ===== *)
theory Wire_Method
  imports Lastro_Prelude
begin

text \<open>
  \<open>wire/method.go\<close>: the evidence class and its q8 ceiling, derived from a span's method
  id through a fixed table with a floor for everything else.
\<close>

datatype Class = Inference | Documentation | ExpertTestimony | DirectObservation

text \<open>The integer values of the \<open>iota\<close> constants.\<close>

primrec class_int :: "Class \<Rightarrow> int" where
  "class_int Inference = 0"
| "class_int Documentation = 1"
| "class_int ExpertTestimony = 2"
| "class_int DirectObservation = 3"

primrec Class_String :: "Class \<Rightarrow> string" where
  "Class_String DirectObservation = ''DirectObservation''"
| "Class_String ExpertTestimony = ''ExpertTestimony''"
| "Class_String Documentation = ''Documentation''"
| "Class_String Inference = ''Inference''"

abbreviation CeilingDirectObservation :: byte where "CeilingDirectObservation \<equiv> 242"
abbreviation CeilingExpertTestimony :: byte where "CeilingExpertTestimony \<equiv> 216"
abbreviation CeilingDocumentation :: byte where "CeilingDocumentation \<equiv> 191"
abbreviation CeilingInference :: byte where "CeilingInference \<equiv> 165"

abbreviation MethodSubprocess :: byte where "MethodSubprocess \<equiv> 1"
abbreviation MethodFileRead :: byte where "MethodFileRead \<equiv> 2"
abbreviation MethodNetworkFetch :: byte where "MethodNetworkFetch \<equiv> 3"
abbreviation MethodDatabaseQuery :: byte where "MethodDatabaseQuery \<equiv> 4"
abbreviation MethodStaticConfig :: byte where "MethodStaticConfig \<equiv> 5"
abbreviation MethodToolSchema :: byte where "MethodToolSchema \<equiv> 6"
abbreviation MethodSignedExpert :: byte where "MethodSignedExpert \<equiv> 7"
abbreviation MethodDerived :: byte where "MethodDerived \<equiv> 8"

definition ClassOf :: "byte \<Rightarrow> Class \<times> byte" where
  "ClassOf methodID =
     (if methodID = MethodSubprocess \<or> methodID = MethodFileRead \<or>
         methodID = MethodNetworkFetch \<or> methodID = MethodDatabaseQuery
      then (DirectObservation, CeilingDirectObservation)
      else if methodID = MethodStaticConfig \<or> methodID = MethodToolSchema
      then (Documentation, CeilingDocumentation)
      else if methodID = MethodSignedExpert
      then (ExpertTestimony, CeilingExpertTestimony)
      else (Inference, CeilingInference))"

instantiation Class :: linorder
begin

definition less_eq_Class :: "Class \<Rightarrow> Class \<Rightarrow> bool" where
  "less_eq_Class a b = (class_int a \<le> class_int b)"

definition less_Class :: "Class \<Rightarrow> Class \<Rightarrow> bool" where
  "less_Class a b = (class_int a < class_int b)"

instance
proof
  fix a b :: Class
  show "a \<le> b \<Longrightarrow> b \<le> a \<Longrightarrow> a = b"
    by (cases a; cases b) (simp_all add: less_eq_Class_def)
qed (auto simp: less_eq_Class_def less_Class_def)

end

lemma small_byte: "(m :: byte) \<le> 7 \<Longrightarrow> m \<in> {0, 1, 2, 3, 4, 5, 6, 7}"
proof -
  assume "m \<le> 7"
  then have "unat m \<le> 7" by (simp add: word_le_nat_alt)
  then have "unat m \<in> {0, 1, 2, 3, 4, 5, 6, 7}" by (auto simp: le_Suc_eq numeral_eq_Suc)
  then have "of_nat (unat m) \<in> (of_nat :: nat \<Rightarrow> byte) ` {0, 1, 2, 3, 4, 5, 6, 7}" by (rule imageI)
  then show ?thesis by simp
qed

lemma ClassOf_range:
  "ClassOf k \<in> {(DirectObservation, 242), (Documentation, 191), (ExpertTestimony, 216), (Inference, 165)}"
  by (simp add: ClassOf_def)


end
