(* ===== verification/Lastro_Run.thy ===== *)
theory Lastro_Run
  imports Lastro_System Wire_Method
begin

text \<open>
  The \<open>run\<close> command of \<open>cmd/lastro/main.go\<close>: the bounded capture of the child's output, the
  copying of its streams, and minting the receipt. The command returns its exit code and
  the store. What it prints on the terminal is not modelled.
\<close>

subsection \<open>The capture of the child's output\<close>

record captureWriter =
  cw_buf :: bytes
  cw_max :: int
  cw_exceeded :: bool

definition captureWriter_Write :: "captureWriter \<Rightarrow> bytes \<Rightarrow> captureWriter" where
  "captureWriter_Write w p =
     (if \<not> cw_exceeded w then
        (if int (length (cw_buf w)) + int (length p) > cw_max w then w\<lparr>cw_exceeded := True\<rparr>
         else w\<lparr>cw_buf := cw_buf w @ p\<rparr>)
      else w)"

text \<open>
  \<open>os/exec\<close> copies each stream on its own goroutine through
  \<open>io.MultiWriter(os.Stdout, cap)\<close>: the terminal first, then the capture, which is not
  written when the first write failed. A copy that failed stops; the capture is mutex
  guarded, so the observed order is a sequence of whole writes.
\<close>

record copying =
  co_cap :: captureWriter
  co_outFailed :: bool
  co_errFailed :: bool

definition stream_failed :: "copying \<Rightarrow> stream \<Rightarrow> bool" where
  "stream_failed co s = (case s of Stdout \<Rightarrow> co_outFailed co | Stderr \<Rightarrow> co_errFailed co)"

definition copy_chunk :: "copying \<Rightarrow> stream \<times> bytes \<times> bool \<Rightarrow> copying" where
  "copy_chunk co ev =
     (case ev of (s, p, passed) \<Rightarrow>
        if stream_failed co s then co
        else if passed then co\<lparr>co_cap := captureWriter_Write (co_cap co) p\<rparr>
        else (case s of Stdout \<Rightarrow> co\<lparr>co_outFailed := True\<rparr> | Stderr \<Rightarrow> co\<lparr>co_errFailed := True\<rparr>))"

definition copy_output :: "int \<Rightarrow> (stream \<times> bytes \<times> bool) list \<Rightarrow> copying" where
  "copy_output maxOutput evs =
     foldl copy_chunk
       \<lparr>co_cap = \<lparr>cw_buf = [], cw_max = maxOutput, cw_exceeded = False\<rparr>, co_outFailed = False, co_errFailed = False\<rparr>
       evs"

text \<open>
  \<open>cmd.Wait\<close>: nil, an \<open>*exec.ExitError\<close> with its exit code, or another error. A copying
  error is reported only when the child itself succeeded.
\<close>

datatype wait_result = WaitNil | WaitExitError int | WaitError

definition Wait :: "child_end \<Rightarrow> copying \<Rightarrow> wait_result" where
  "Wait e co =
     (case e of
        WaitFailed \<Rightarrow> WaitError
      | Signaled \<Rightarrow> WaitExitError (-1)
      | Exited n \<Rightarrow>
          if n \<noteq> 0 then WaitExitError (int n)
          else if co_outFailed co \<or> co_errFailed co then WaitError else WaitNil)"

subsection \<open>run\<close>

definition run_flags :: "bytes \<Rightarrow> flag_kind option" where
  "run_flags n =
     (if n \<in> {str_bytes ''key'', str_bytes ''namespace'', str_bytes ''path'', str_bytes ''trace'',
              str_bytes ''out'', str_bytes ''save-output''}
      then Some FlagString
      else if n = str_bytes ''max-output'' then Some FlagInt else None)"

text \<open>The part of \<open>cmdRun\<close> after the child has ended: trailer, digest, signature, file.\<close>

definition run_mint ::
    "crypto \<Rightarrow> env \<Rightarrow> store \<Rightarrow> bytes \<Rightarrow> bytes \<Rightarrow> nat \<Rightarrow> bytes \<Rightarrow> path \<Rightarrow> path \<Rightarrow> bytes \<Rightarrow> int \<Rightarrow> int \<times> store" where
  "run_mint cr en st priv resource k traceID saveOutput outPath observed exitCode =
     (let captured = observed @ run_trailer exitCode in
      case (if saveOutput \<noteq> [] then WriteFile en st saveOutput captured perm_public else (True, st)) of
        (False, st) \<Rightarrow> (exitNoReceipt, st)
      | (True, st) \<Rightarrow>
      (case rand_array en k 16 of None \<Rightarrow> (exitNoReceipt, st) | Some spanID \<Rightarrow>
      let f = \<lparr>sf_Version = 2, sf_SpanID = spanID, sf_TraceID = traceID, sf_ResourceID = resource,
               sf_MethodID = MethodSubprocess, sf_Volatility = VolatilityVolatile,
               sf_Origin = replicate 32 0, sf_ObservedAt = env_now en,
               sf_Digest = Blake2s256 cr captured, sf_Executor = copy_at 0 (PublicOf priv) (replicate 32 0)\<rparr> in
      (case BuildSpan cr f priv of Inl _ \<Rightarrow> (exitNoReceipt, st) | Inr receipt \<Rightarrow>
      (case WriteFile en st outPath receipt perm_public of
         (False, st) \<Rightarrow> (exitNoReceipt, st)
       | (True, st) \<Rightarrow> (exitCode, st)))))"

text \<open>The part that starts and observes the child.\<close>

definition run_child ::
    "crypto \<Rightarrow> env \<Rightarrow> store \<Rightarrow> bytes \<Rightarrow> bytes \<Rightarrow> nat \<Rightarrow> bytes \<Rightarrow> int \<Rightarrow> path \<Rightarrow> path \<Rightarrow> bytes list \<Rightarrow> int \<times> store" where
  "run_child cr en st priv resource k traceID maxOutput saveOutput outPath child =
     (if \<not> env_start en child then (exitNoStart, st)
      else
        let co = copy_output maxOutput (env_chunks en child) in
        case Wait (env_end en child) co of
          WaitError \<Rightarrow> (exitNoReceipt, st)
        | w \<Rightarrow>
            let exitCode = (case w of WaitExitError c \<Rightarrow> c | _ \<Rightarrow> 0) in
            if cw_exceeded (co_cap co) then (exitNoReceipt, st)
            else run_mint cr en st priv resource k traceID saveOutput outPath (cw_buf (co_cap co)) exitCode)"

text \<open>\<open>--trace\<close>: the decoded bytes, or random ones; the next random read has number \<open>k\<close>.\<close>

datatype trace_choice = TraceIs bytes nat | TraceRefused | TraceNoEntropy

definition run_trace :: "env \<Rightarrow> bytes \<Rightarrow> trace_choice" where
  "run_trace en traceHex =
     (if traceHex \<noteq> [] then
        (case DecodeString traceHex of
           None \<Rightarrow> TraceRefused
         | Some b \<Rightarrow> if length b \<noteq> LenTraceID then TraceRefused else TraceIs (copy_at 0 b (replicate 16 0)) 0)
      else (case rand_array en 0 16 of None \<Rightarrow> TraceNoEntropy | Some b \<Rightarrow> TraceIs b 1))"

definition split_dashes :: "bytes list \<Rightarrow> (bytes list \<times> bytes list) option" where
  "split_dashes args =
     (case dropWhile (\<lambda>a. a \<noteq> [0x2d, 0x2d]) args of
        [] \<Rightarrow> None
      | _ # child \<Rightarrow> if child = [] then None else Some (takeWhile (\<lambda>a. a \<noteq> [0x2d, 0x2d]) args, child))"

definition cmdRun :: "crypto \<Rightarrow> env \<Rightarrow> store \<Rightarrow> bytes list \<Rightarrow> int \<times> store" where
  "cmdRun cr en st args =
     (case split_dashes args of None \<Rightarrow> (verifyUsage, st) | Some (own, child) \<Rightarrow>
      case flag_parse run_flags [] own of
        FlagsHelp \<Rightarrow> (0, st)
      | FlagsError \<Rightarrow> (2, st)
      | FlagsParsed vals _ \<Rightarrow>
      let keyDir = flag_value vals (str_bytes ''key'') [];
          namespace = flag_value vals (str_bytes ''namespace'') [];
          resPath = flag_value vals (str_bytes ''path'') [];
          traceHex = flag_value vals (str_bytes ''trace'') [];
          outPath = flag_value vals (str_bytes ''out'') (str_bytes ''lastro.receipt'');
          maxOutput = flag_int vals (str_bytes ''max-output'') defaultMaxOutput;
          saveOutput = flag_value vals (str_bytes ''save-output'') [] in
      if keyDir = [] \<or> namespace = [] \<or> resPath = [] then (verifyUsage, st)
      else case resolveShaTemplate resPath (gitHead en) of Inl _ \<Rightarrow> (verifyUsage, st) | Inr resolvedPath \<Rightarrow>
      case validateResource namespace resolvedPath of Inl _ \<Rightarrow> (verifyUsage, st) | Inr _ \<Rightarrow>
      case ReadFile en st (Join keyDir (str_bytes ''sig.key'')) of None \<Rightarrow> (exitNoReceipt, st) | Some seed \<Rightarrow>
      if length seed \<noteq> SeedSize then (exitNoReceipt, st)
      else case NewKeyFromSeed cr seed of Inl _ \<Rightarrow> (exitPanic, st) | Inr priv \<Rightarrow>
      let resource = run_resource cr (PublicOf priv) namespace resolvedPath in
      if length resource > MaxResource then (verifyUsage, st)
      else case run_trace en traceHex of
        TraceRefused \<Rightarrow> (verifyUsage, st)
      | TraceNoEntropy \<Rightarrow> (exitNoReceipt, st)
      | TraceIs traceID k \<Rightarrow>
          run_child cr en st priv resource k traceID maxOutput saveOutput outPath child)"

subsection \<open>The capture\<close>

definition capture_all :: "int \<Rightarrow> bytes list \<Rightarrow> captureWriter" where
  "capture_all mx ps = foldl captureWriter_Write \<lparr>cw_buf = [], cw_max = mx, cw_exceeded = False\<rparr> ps"

lemma exceeded_absorbs: "cw_exceeded w \<Longrightarrow> foldl captureWriter_Write w ps = w"
  by (induction ps) (simp_all add: captureWriter_Write_def)

lemma capture_step:
  "captureWriter_Write \<lparr>cw_buf = b, cw_max = mx, cw_exceeded = False\<rparr> p =
     (if int (length b) + int (length p) > mx then \<lparr>cw_buf = b, cw_max = mx, cw_exceeded = True\<rparr>
      else \<lparr>cw_buf = b @ p, cw_max = mx, cw_exceeded = False\<rparr>)"
  by (simp add: captureWriter_Write_def)

lemma capture_fold:
  assumes "int (length b) \<le> mx"
  shows "if int (length b + length (concat ps)) \<le> mx
     then foldl captureWriter_Write \<lparr>cw_buf = b, cw_max = mx, cw_exceeded = False\<rparr> ps =
          \<lparr>cw_buf = b @ concat ps, cw_max = mx, cw_exceeded = False\<rparr>
     else cw_exceeded (foldl captureWriter_Write \<lparr>cw_buf = b, cw_max = mx, cw_exceeded = False\<rparr> ps) \<and>
          int (length (cw_buf (foldl captureWriter_Write \<lparr>cw_buf = b, cw_max = mx, cw_exceeded = False\<rparr> ps))) \<le> mx"
  using assms
proof (induction ps arbitrary: b)
  case (Cons p ps)
  show ?case
  proof (cases "int (length b) + int (length p) > mx")
    case True
    then show ?thesis using Cons.prems by (simp add: capture_step exceeded_absorbs)
  next
    case False
    then have "int (length (b @ p)) \<le> mx" by simp
    from Cons.IH [OF this] False show ?thesis by (simp add: capture_step algebra_simps split: if_splits)
  qed
qed simp

text \<open>The chunks that reach the capture: those of each stream before its first failed write.\<close>

fun delivered :: "bool \<Rightarrow> bool \<Rightarrow> (stream \<times> bytes \<times> bool) list \<Rightarrow> bytes list" where
  "delivered outF errF [] = []"
| "delivered outF errF ((s, p, passed) # evs) =
     (if (case s of Stdout \<Rightarrow> outF | Stderr \<Rightarrow> errF) then delivered outF errF evs
      else if passed then p # delivered outF errF evs
      else (case s of Stdout \<Rightarrow> delivered True errF evs | Stderr \<Rightarrow> delivered outF True evs))"

lemma copy_step:
  "copy_chunk co (Stdout, p, passed) =
     (if co_outFailed co then co
      else if passed then co\<lparr>co_cap := captureWriter_Write (co_cap co) p\<rparr> else co\<lparr>co_outFailed := True\<rparr>)"
  "copy_chunk co (Stderr, p, passed) =
     (if co_errFailed co then co
      else if passed then co\<lparr>co_cap := captureWriter_Write (co_cap co) p\<rparr> else co\<lparr>co_errFailed := True\<rparr>)"
  by (simp_all add: copy_chunk_def stream_failed_def)

lemma copy_fold:
  "co_cap (foldl copy_chunk co evs) =
     foldl captureWriter_Write (co_cap co) (delivered (co_outFailed co) (co_errFailed co) evs)"
proof (induction evs arbitrary: co)
  case (Cons ev evs)
  obtain s p passed where ev: "ev = (s, p, passed)" by (cases ev) auto
  show ?case
    by (cases s) (simp_all add: Cons.IH ev copy_step)
qed simp

lemma copy_output_cap: "co_cap (copy_output mx evs) = capture_all mx (delivered False False evs)"
  by (simp add: copy_output_def copy_fold capture_all_def)

lemma delivered_all: "list_all (\<lambda>(s, p, passed). passed) evs \<Longrightarrow> delivered False False evs = map (fst \<circ> snd) evs"
  by (induction evs) (auto split: stream.splits)

lemma copy_no_failure:
  "list_all (\<lambda>(s, p, passed). passed) evs \<Longrightarrow> \<not> co_outFailed co \<and> \<not> co_errFailed co \<Longrightarrow>
   \<not> co_outFailed (foldl copy_chunk co evs) \<and> \<not> co_errFailed (foldl copy_chunk co evs)"
proof (induction evs arbitrary: co)
  case (Cons ev evs)
  obtain s p passed where ev: "ev = (s, p, passed)" by (cases ev) auto
  show ?case using Cons by (cases s) (simp_all add: ev copy_step)
qed simp

text \<open>
  C22: The bounded capture is all or nothing. With a limit of at least zero, however the
  output is cut into writes, the capture is marked exceeded exactly when the output in
  total is longer than the limit; otherwise it holds the concatenation of all writes in
  order; and it never holds more than the limit.
\<close>

theorem capture_all_or_nothing:
  assumes "0 \<le> mx"
  shows "(cw_exceeded (capture_all mx ps) \<longleftrightarrow> int (length (concat ps)) > mx) \<and>
         (\<not> cw_exceeded (capture_all mx ps) \<longrightarrow> cw_buf (capture_all mx ps) = concat ps) \<and>
         int (length (cw_buf (capture_all mx ps))) \<le> mx"
  using capture_fold [of "[]" mx ps] assms by (simp add: capture_all_def split: if_splits)

theorem capture_all_or_nothing_witness:
  "cw_buf (capture_all 4 [[1, 2], [], [3]]) = [1, 2, 3] \<and> cw_exceeded (capture_all 4 [[1, 2], [3, 4, 5], [6]])"
  using capture_all_or_nothing [of 4 "[[1, 2], [], [3]]"] capture_all_or_nothing [of 4 "[[1, 2], [3, 4, 5], [6]]"]
  by simp

subsection \<open>What run does to the store\<close>

text \<open>The fields \<open>run\<close> signs.\<close>

definition run_fields :: "crypto \<Rightarrow> env \<Rightarrow> bytes \<Rightarrow> bytes \<Rightarrow> bytes \<Rightarrow> bytes \<Rightarrow> bytes \<Rightarrow> SpanFields" where
  "run_fields cr en pub resource traceID spanID captured =
     \<lparr>sf_Version = 2, sf_SpanID = spanID, sf_TraceID = traceID, sf_ResourceID = resource,
      sf_MethodID = MethodSubprocess, sf_Volatility = VolatilityVolatile,
      sf_Origin = replicate 32 0, sf_ObservedAt = env_now en,
      sf_Digest = Blake2s256 cr captured, sf_Executor = copy_at 0 pub (replicate 32 0)\<rparr>"

lemma run_trace_length: "run_trace en h = TraceIs t k \<Longrightarrow> length t = LenTraceID"
  by (auto simp: run_trace_def dest: rand_array_length split: if_splits option.splits)

text \<open>Either the command stops before the child and changes nothing, or it reaches \<open>run_child\<close>.\<close>

lemma cmdRun_cases:
  assumes run: "cmdRun cr en st args = (c, st')"
  obtains "st' = st" "c \<in> {2, 125} \<or>
      c = 0 \<and> (\<exists>own child. split_dashes args = Some (own, child) \<and> flag_parse run_flags [] own = FlagsHelp)"
  | own child vals rest resolved seed priv t k where
      "split_dashes args = Some (own, child)" "flag_parse run_flags [] own = FlagsParsed vals rest"
      "resolveShaTemplate (flag_value vals (str_bytes ''path'') []) (gitHead en) = Inr resolved"
      "validateResource (flag_value vals (str_bytes ''namespace'') []) resolved = Inr ()"
      "ReadFile en st (Join (flag_value vals (str_bytes ''key'') []) (str_bytes ''sig.key'')) = Some seed"
      "NewKeyFromSeed cr seed = Inr priv" "run_trace en (flag_value vals (str_bytes ''trace'') []) = TraceIs t k"
      "(c, st') = run_child cr en st priv
         (run_resource cr (PublicOf priv) (flag_value vals (str_bytes ''namespace'') []) resolved) k t
         (flag_int vals (str_bytes ''max-output'') defaultMaxOutput)
         (flag_value vals (str_bytes ''save-output'') [])
         (flag_value vals (str_bytes ''out'') (str_bytes ''lastro.receipt'')) child"
proof (cases "st' = st \<and> (c \<in> {2, 125} \<or>
      c = 0 \<and> (\<exists>own child. split_dashes args = Some (own, child) \<and> flag_parse run_flags [] own = FlagsHelp))")
  case False
  obtain own child where oc: "split_dashes args = Some (own, child)"
    using run False by (cases "split_dashes args") (auto simp: cmdRun_def)
  note r = run [unfolded cmdRun_def oc option.case prod.case]
  obtain vals rest where fl: "flag_parse run_flags [] own = FlagsParsed vals rest"
    using r False oc by (cases "flag_parse run_flags [] own") auto
  note r = r [unfolded fl flag_result.case Let_def]
  let ?ns = "flag_value vals (str_bytes ''namespace'') []"
  let ?res = "resolveShaTemplate (flag_value vals (str_bytes ''path'') []) (gitHead en)"
  let ?key = "ReadFile en st (Join (flag_value vals (str_bytes ''key'') []) (str_bytes ''sig.key''))"
  let ?tr = "run_trace en (flag_value vals (str_bytes ''trace'') [])"
  have req: "\<not> (flag_value vals (str_bytes ''key'') [] = [] \<or> ?ns = [] \<or> flag_value vals (str_bytes ''path'') [] = [])"
    using r False by (auto split: if_splits)
  note r = r [unfolded if_not_P [OF req]]
  obtain resolved where res: "?res = Inr resolved" using r False by (cases ?res) auto
  have val: "validateResource ?ns resolved = Inr ()"
    using r False by (cases "validateResource ?ns resolved") (auto simp: res)
  obtain seed where seed: "?key = Some seed" using r False by (cases ?key) (auto simp: res val)
  have len: "length seed = SeedSize" using r False by (cases "length seed = SeedSize") (auto simp: res val seed)
  obtain priv where priv: "NewKeyFromSeed cr seed = Inr priv" using len by (simp add: NewKeyFromSeed_def)
  note r = r [unfolded res val seed priv sum.case option.case]
  have fits: "\<not> length (run_resource cr (PublicOf priv) ?ns resolved) > MaxResource"
    using r False by (auto simp: len split: if_splits)
  obtain t k where tr: "?tr = TraceIs t k" using r False by (cases ?tr) (auto simp: len fits)
  show thesis
    by (rule that(2) [OF oc fl res val seed priv tr]) (use r in \<open>simp add: len fits tr\<close>)
qed (use that in blast)

text \<open>Minting: what the store holds afterwards.\<close>

lemma run_mint_cases:
  assumes "run_mint cr en st priv resource k t save out obs code = (c, st')"
  shows "(\<forall>q. q \<noteq> save \<and> q \<noteq> out \<longrightarrow> st' q = st q) \<and>
    (c = 125 \<or> c = code) \<and>
    (env_write en out = WriteOk \<and> out \<noteq> save \<and> st' out \<noteq> st out \<longrightarrow>
       c = code \<and> (\<exists>spanID receipt m. length spanID = 16 \<and>
         BuildSpan cr (run_fields cr en (PublicOf priv) resource t spanID (obs @ run_trailer code)) priv = Inr receipt \<and>
         st' out = Some (receipt, m)))"
proof -
  define captured where "captured = obs @ run_trailer code"
  define saved where "saved = (if save \<noteq> [] then WriteFile en st save captured perm_public else (True, st))"
  obtain ok st1 where sv: "saved = (ok, st1)" by (cases saved)
  have st1: "q \<noteq> save \<Longrightarrow> st1 q = st q" for q
    using sv by (auto simp: saved_def dest: WriteFile_other split: if_splits)
  note m = assms [unfolded run_mint_def Let_def, folded captured_def, folded saved_def, unfolded sv prod.case]
  show ?thesis
  proof (cases ok)
    case False
    then show ?thesis using m st1 by auto
  next
    case True
    show ?thesis
    proof (cases "rand_array en k 16")
      case None
      then show ?thesis using m True st1 by auto
    next
      case (Some spanID)
      let ?f = "run_fields cr en (PublicOf priv) resource t spanID captured"
      note m = m [folded run_fields_def, unfolded Some option.case, folded run_fields_def]
      show ?thesis
      proof (cases "BuildSpan cr ?f priv")
        case (Inl e)
        then show ?thesis using m True st1 by (auto simp: run_fields_def)
      next
        case (Inr receipt)
        obtain w st2 where w: "WriteFile en st1 out receipt perm_public = (w, st2)" by fastforce
        have "(c, st') = (if w then code else 125, st2)" using m True Inr w by (cases w) (auto simp: run_fields_def)
        moreover have "q \<noteq> out \<Longrightarrow> st2 q = st1 q" for q by (rule WriteFile_other [OF w])
        moreover have "env_write en out = WriteOk \<Longrightarrow> w \<and> (\<exists>m. st2 out = Some (receipt, m))"
          using w by (auto simp: WriteFile_def)
        ultimately show ?thesis
          using st1 Inr rand_array_length [OF Some] by (auto simp: captured_def)
      qed
    qed
  qed
qed

lemma run_fields_verify:
  assumes "ed25519_laws cr" and "blake2s_laws cr" and "NewKeyFromSeed cr seed = Inr priv"
    and "length t = 16" and "length spanID = 16"
    and "BuildSpan cr (run_fields cr en (PublicOf priv) resource t spanID captured) priv = Inr receipt"
  shows "\<exists>span. ParseSpan receipt = Inr span \<and> Span_VerifySig cr span = Inr () \<and>
     span_fields span = run_fields cr en (PublicOf priv) resource t spanID captured \<and>
     span_Executor span = PublicOf priv"
proof -
  have pub: "length (PublicOf priv) = 32"
    using assms(1,3) by (auto simp: NewKeyFromSeed_def PublicOf_def ed25519_lawsD split: if_splits)
  let ?f = "run_fields cr en (PublicOf priv) resource t spanID captured"
  have f: "span_arrays ?f" "sf_Executor ?f = PublicOf priv"
    using assms(2,4,5) pub
    by (simp_all add: span_arrays_def run_fields_def Blake2s256_def blake2s_lawsD copy_at_whole)
  from BuildSpan_verifies [OF assms(1) f(1) assms(3) f(2) assms(6)] obtain s where
    "ParseSpan receipt = Inr s" "span_fields s = ?f" "Span_VerifySig cr s = Inr ()" by blast
  moreover from this(2) f(2) have "span_Executor s = PublicOf priv"
    by (metis SpanFields.select_convs(10) span_fields_def)
  ultimately show ?thesis by blast
qed

text \<open>The parsed flags of a \<open>run\<close> command line and what they give.\<close>

definition run_out :: "(bytes \<times> bytes) list \<Rightarrow> path" where
  "run_out vals = flag_value vals (str_bytes ''out'') (str_bytes ''lastro.receipt'')"

definition run_save :: "(bytes \<times> bytes) list \<Rightarrow> path" where
  "run_save vals = flag_value vals (str_bytes ''save-output'') []"

definition run_max :: "(bytes \<times> bytes) list \<Rightarrow> int" where
  "run_max vals = flag_int vals (str_bytes ''max-output'') defaultMaxOutput"

lemma run_child_cases:
  assumes "run_child cr en st priv resource k t mx save out child = (c, st')"
  obtains "st' = st" "c = 125 \<or> c = 127"
  | code where "\<not> cw_exceeded (co_cap (copy_output mx (env_chunks en child)))" "env_start en child"
      "Wait (env_end en child) (copy_output mx (env_chunks en child)) =
         (if code = 0 then WaitNil else WaitExitError code)"
      "run_mint cr en st priv resource k t save out (cw_buf (co_cap (copy_output mx (env_chunks en child)))) code = (c, st')"
proof (cases "env_start en child \<and> \<not> cw_exceeded (co_cap (copy_output mx (env_chunks en child)))")
  case False
  then show thesis
    using assms that(1) by (auto simp: run_child_def Let_def split: if_splits wait_result.splits)
next
  case True
  let ?w = "Wait (env_end en child) (copy_output mx (env_chunks en child))"
  have zero: "?w \<noteq> WaitExitError 0" by (auto simp: Wait_def split: child_end.splits)
  show thesis
  proof (cases ?w)
    case WaitNil
    then show thesis using assms True that(2) [of 0] by (simp add: run_child_def Let_def)
  next
    case (WaitExitError e)
    then show thesis using assms True that(2) [of e] zero by (simp add: run_child_def Let_def)
  next
    case WaitError
    then show thesis using assms True that(1) by (simp add: run_child_def Let_def)
  qed
qed

text \<open>
  C2: Whatever \<open>run\<close> puts into the receipt file is a receipt. If the file named by \<open>--out\<close>
  changes and writing to it does not fail, then it holds bytes that parse as a span whose
  signature verifies, made with the method of a subprocess observation, about the
  resource id of the signing key and the given names, and whose digest covers exactly the
  captured stream followed by the trailer with the exit code \<open>run\<close> returns; and the
  capture had not exceeded its limit.
\<close>

theorem cmdRun_receipt_sound:
  assumes "ed25519_laws cr" and "blake2s_laws cr" and "cmdRun cr en st args = (c, st')"
    and "split_dashes args = Some (own, child)" and "flag_parse run_flags [] own = FlagsParsed vals rest"
    and "env_write en (run_out vals) = WriteOk" and "run_out vals \<noteq> run_save vals"
    and "st' (run_out vals) \<noteq> st (run_out vals)"
  shows "\<exists>receipt m span resolved.
     st' (run_out vals) = Some (receipt, m) \<and> ParseSpan receipt = Inr span \<and> Span_VerifySig cr span = Inr () \<and>
     span_MethodID span = MethodSubprocess \<and>
     resolveShaTemplate (flag_value vals (str_bytes ''path'') []) (gitHead en) = Inr resolved \<and>
     span_ResourceID span =
       run_resource cr (span_Executor span) (flag_value vals (str_bytes ''namespace'') []) resolved \<and>
     span_Digest span = Blake2s256 cr (cw_buf (capture_all (run_max vals)
       (delivered False False (env_chunks en child))) @ run_trailer c) \<and>
     \<not> cw_exceeded (capture_all (run_max vals) (delivered False False (env_chunks en child)))"
  using assms(3)
proof (cases rule: cmdRun_cases)
  case 1
  then show ?thesis using assms(8) by simp
next
  case (2 own' child' vals' rest' resolved seed priv t k)
  then have eq: "child' = child" "vals' = vals" using assms(4,5) by simp_all
  let ?res = "run_resource cr (PublicOf priv) (flag_value vals (str_bytes ''namespace'') []) resolved"
  have rc: "run_child cr en st priv ?res k t (run_max vals) (run_save vals) (run_out vals) child = (c, st')"
    using 2(8) by (simp add: eq run_max_def run_save_def run_out_def)
  have t: "length t = 16" using run_trace_length [OF 2(7)] .
  from rc show ?thesis
  proof (cases rule: run_child_cases)
    case 1
    then show ?thesis using assms(8) by simp
  next
    case (2 code)
    note cap = 2(1,4) [unfolded copy_output_cap]
    from run_mint_cases [OF cap(2)] assms(6-8) obtain spanID receipt m where
      c: "c = code" and sp: "length spanID = 16"
      and b: "BuildSpan cr (run_fields cr en (PublicOf priv) ?res t spanID
            (cw_buf (capture_all (run_max vals) (delivered False False (env_chunks en child))) @ run_trailer code)) priv
          = Inr receipt"
      and st': "st' (run_out vals) = Some (receipt, m)" by auto
    from run_fields_verify [OF assms(1,2) \<open>NewKeyFromSeed cr seed = Inr priv\<close> t sp b] obtain span where
      span: "ParseSpan receipt = Inr span" "Span_VerifySig cr span = Inr ()" "span_Executor span = PublicOf priv"
      and f: "span_fields span = run_fields cr en (PublicOf priv) ?res t spanID
            (cw_buf (capture_all (run_max vals) (delivered False False (env_chunks en child))) @ run_trailer code)" by blast
    have "span_MethodID span = MethodSubprocess" "span_ResourceID span = ?res"
      "span_Digest span = Blake2s256 cr (cw_buf (capture_all (run_max vals)
         (delivered False False (env_chunks en child))) @ run_trailer code)"
      using f by (simp_all add: span_fields_def run_fields_def)
    then show ?thesis
      using st' span c cap(1) \<open>resolveShaTemplate _ _ = Inr resolved\<close> eq by auto
  qed
qed

text \<open>
  C19: No receipt for output that was not fully captured. If the output that reaches the
  capture is longer than \<open>--max-output\<close>, \<open>run\<close> changes no file at all, neither the receipt
  nor the saved output, and exits with 2, 125 or 127, never with the child's success.
\<close>

theorem cmdRun_overflow_no_receipt:
  assumes "cmdRun cr en st args = (c, st')"
    and "split_dashes args = Some (own, child)" and "flag_parse run_flags [] own = FlagsParsed vals rest"
    and "0 \<le> run_max vals"
    and "int (length (concat (delivered False False (env_chunks en child)))) > run_max vals"
  shows "st' = st \<and> c \<in> {2, 125, 127}"
  using assms(1)
proof (cases rule: cmdRun_cases)
  case 1
  then show ?thesis using assms(2,3) by auto
next
  case (2 own' child' vals' rest' resolved seed priv t k)
  then have eq: "child' = child" "vals' = vals" using assms(2,3) by simp_all
  have exc: "cw_exceeded (co_cap (copy_output (run_max vals) (env_chunks en child)))"
    using capture_fold [of "[]" "run_max vals" "delivered False False (env_chunks en child)"] assms(4,5)
    by (simp add: copy_output_cap capture_all_def)
  from 2(8) [symmetric, folded run_max_def] show ?thesis
    by (cases rule: run_child_cases) (use exc eq in \<open>auto simp: run_max_def\<close>)
qed


subsection \<open>A run that completes\<close>

text \<open>
  What \<open>run\<close> needs from the command line, the store and the system to get to the child and
  to write a receipt afterwards: the flags and names are good, the key can be read, random
  bytes are there, the child starts, and the receipt file can be written.
\<close>

definition run_prepared ::
    "env \<Rightarrow> store \<Rightarrow> bytes list \<Rightarrow> bytes list \<Rightarrow> (bytes \<times> bytes) list \<Rightarrow> bytes \<Rightarrow> bytes \<Rightarrow> bool" where
  "run_prepared en st args child vals resolved seed \<longleftrightarrow>
     (\<exists>own rest. split_dashes args = Some (own, child) \<and> flag_parse run_flags [] own = FlagsParsed vals rest) \<and>
     flag_value vals (str_bytes ''key'') [] \<noteq> [] \<and>
     resolveShaTemplate (flag_value vals (str_bytes ''path'') []) (gitHead en) = Inr resolved \<and>
     validateResource (flag_value vals (str_bytes ''namespace'') []) resolved = Inr () \<and>
     ReadFile en st (Join (flag_value vals (str_bytes ''key'') []) (str_bytes ''sig.key'')) = Some seed \<and>
     length seed = SeedSize \<and>
     (\<exists>t k. run_trace en (flag_value vals (str_bytes ''trace'') []) = TraceIs t k \<and> rand_array en k 16 \<noteq> None) \<and>
     env_start en child \<and> run_save vals = [] \<and> env_write en (run_out vals) = WriteOk"

text \<open>
  Further, its output is passed through without failure and fits the limit, and the child
  exits.
\<close>

definition run_ready ::
    "env \<Rightarrow> store \<Rightarrow> bytes list \<Rightarrow> bytes list \<Rightarrow> (bytes \<times> bytes) list \<Rightarrow> bytes \<Rightarrow> bytes \<Rightarrow> nat \<Rightarrow> bool" where
  "run_ready en st args child vals resolved seed n \<longleftrightarrow>
     run_prepared en st args child vals resolved seed \<and>
     list_all (\<lambda>(s, p, passed). passed) (env_chunks en child) \<and> 0 \<le> run_max vals \<and>
     int (length (concat (map (fst \<circ> snd) (env_chunks en child)))) \<le> run_max vals \<and> env_end en child = Exited n"

lemma run_mint_success:
  assumes "rand_array en k 16 = Some spanID" and "env_write en out = WriteOk"
    and "BuildSpan cr (run_fields cr en (PublicOf priv) resource t spanID (obs @ run_trailer code)) priv = Inr receipt"
  shows "run_mint cr en st priv resource k t [] out obs code = (code, st(out \<mapsto> (receipt, file_mode st out perm_public)))"
  using assms by (simp add: run_mint_def Let_def run_fields_def WriteFile_def)

lemma capture_fits:
  assumes "0 \<le> mx" and "int (length (concat ps)) \<le> mx"
  shows "capture_all mx ps = \<lparr>cw_buf = concat ps, cw_max = mx, cw_exceeded = False\<rparr>"
  using capture_fold [of "[]" mx ps] assms by (simp add: capture_all_def)

text \<open>The stream \<open>run\<close> hashes, without the trailer.\<close>

definition run_observed :: "env \<Rightarrow> bytes list \<Rightarrow> (bytes \<times> bytes) list \<Rightarrow> captureWriter" where
  "run_observed en child vals = capture_all (run_max vals) (delivered False False (env_chunks en child))"

lemma run_child_success:
  assumes laws: "ed25519_laws cr" "blake2s_laws cr" and key: "NewKeyFromSeed cr seed = Inr priv"
    and len: "length resource \<le> MaxResource" "length t = 16" and rand: "rand_array en k 16 = Some spanID"
    and ch: "env_start en child" "\<not> cw_exceeded (run_observed en child vals)"
      "Wait (env_end en child) (copy_output (run_max vals) (env_chunks en child)) =
         (if code = 0 then WaitNil else WaitExitError code)"
    and out: "env_write en out = WriteOk"
  shows "\<exists>receipt span. run_child cr en st priv resource k t (run_max vals) [] out child =
       (code, st(out \<mapsto> (receipt, file_mode st out perm_public))) \<and>
     ParseSpan receipt = Inr span \<and> Span_VerifySig cr span = Inr () \<and> span_Executor span = PublicOf priv \<and>
     span_fields span = run_fields cr en (PublicOf priv) resource t spanID
       (cw_buf (run_observed en child vals) @ run_trailer code)"
proof -
  let ?f = "run_fields cr en (PublicOf priv) resource t spanID (cw_buf (run_observed en child vals) @ run_trailer code)"
  have "length priv = PrivateKeySize"
    using key laws(1) by (auto simp: NewKeyFromSeed_def ed25519_lawsD split: if_splits)
  then obtain receipt where b: "BuildSpan cr ?f priv = Inr receipt"
    using len(1) by (simp add: BuildSpan_def EncodeSpanTBS_def run_fields_def SignTagged_def ed25519_Sign_def)
  have "run_child cr en st priv resource k t (run_max vals) [] out child =
      (code, st(out \<mapsto> (receipt, file_mode st out perm_public)))"
    using run_mint_success [OF rand out b, of st] ch
    by (cases "code = 0") (simp_all add: run_child_def Let_def copy_output_cap run_observed_def)
  then show ?thesis
    using run_fields_verify [OF laws key len(2) rand_array_length [OF rand] b] by blast
qed

text \<open>A prepared run reaches the child.\<close>

lemma cmdRun_prepared:
  assumes laws: "blake2s_laws cr" and ready: "run_prepared en st args child vals resolved seed"
  defines "resource \<equiv> run_resource cr (ed_pub cr seed) (flag_value vals (str_bytes ''namespace'') []) resolved"
  shows "\<exists>t k spanID. length t = 16 \<and> rand_array en k 16 = Some spanID \<and> length resource \<le> MaxResource \<and>
     NewKeyFromSeed cr seed = Inr (seed @ ed_pub cr seed) \<and> PublicOf (seed @ ed_pub cr seed) = ed_pub cr seed \<and>
     cmdRun cr en st args =
       run_child cr en st (seed @ ed_pub cr seed) resource k t (run_max vals) [] (run_out vals) child"
proof -
  let ?ns = "flag_value vals (str_bytes ''namespace'') []" and ?path = "flag_value vals (str_bytes ''path'') []"
  let ?key = "flag_value vals (str_bytes ''key'') []"
  obtain own rest t k spanID where cl: "split_dashes args = Some (own, child)" "flag_parse run_flags [] own = FlagsParsed vals rest"
    and key: "?key \<noteq> []" and res: "resolveShaTemplate ?path (gitHead en) = Inr resolved"
    and val: "validateResource ?ns resolved = Inr ()"
    and seed: "ReadFile en st (Join ?key (str_bytes ''sig.key'')) = Some seed" "length seed = SeedSize"
    and tr: "run_trace en (flag_value vals (str_bytes ''trace'') []) = TraceIs t k" "rand_array en k 16 = Some spanID"
    and out: "run_save vals = []"
    using ready unfolding run_prepared_def by blast
  have priv: "NewKeyFromSeed cr seed = Inr (seed @ ed_pub cr seed)" "PublicOf (seed @ ed_pub cr seed) = ed_pub cr seed"
    using seed(2) by (simp_all add: NewKeyFromSeed_def PublicOf_def)
  have v: "?ns \<noteq> []" "length ?ns \<le> 32" "resolved \<noteq> []" "length resolved \<le> 180"
    using val by (auto simp: validateResource_def split: if_splits)
  then have "?path \<noteq> []" using res by (auto simp: resolveShaTemplate_def sha_template_def str_bytes_def)
  have len: "length resource \<le> 256"
    using v(2,4) length_Fingerprint [OF laws] by (simp add: resource_def run_resource_def str_bytes_def)
  have "cmdRun cr en st args =
      run_child cr en st (seed @ ed_pub cr seed) resource k t (run_max vals) [] (run_out vals) child"
    using cl key v(1) \<open>?path \<noteq> []\<close> res val seed priv tr len out
    by (simp add: cmdRun_def Let_def run_max_def run_save_def run_out_def resource_def)
  then show ?thesis using run_trace_length [OF tr(1)] tr(2) len priv by blast
qed

lemma cmdRun_mints:
  assumes laws: "ed25519_laws cr" "blake2s_laws cr" and ready: "run_prepared en st args child vals resolved seed"
    and ch: "\<not> cw_exceeded (run_observed en child vals)"
      "Wait (env_end en child) (copy_output (run_max vals) (env_chunks en child)) =
         (if code = 0 then WaitNil else WaitExitError code)"
  shows "\<exists>receipt span. cmdRun cr en st args =
       (code, st(run_out vals \<mapsto> (receipt, file_mode st (run_out vals) perm_public))) \<and>
     ParseSpan receipt = Inr span \<and> Span_VerifySig cr span = Inr () \<and> span_Executor span = ed_pub cr seed \<and>
     span_ResourceID span =
       run_resource cr (ed_pub cr seed) (flag_value vals (str_bytes ''namespace'') []) resolved \<and>
     span_Digest span = Blake2s256 cr (cw_buf (run_observed en child vals) @ run_trailer code)"
proof -
  let ?res = "run_resource cr (ed_pub cr seed) (flag_value vals (str_bytes ''namespace'') []) resolved"
  from cmdRun_prepared [OF laws(2) ready] obtain t k spanID where
    p: "length t = 16" "rand_array en k 16 = Some spanID" "length ?res \<le> MaxResource"
      "NewKeyFromSeed cr seed = Inr (seed @ ed_pub cr seed)" "PublicOf (seed @ ed_pub cr seed) = ed_pub cr seed"
    and run: "cmdRun cr en st args =
       run_child cr en st (seed @ ed_pub cr seed) ?res k t (run_max vals) [] (run_out vals) child" by blast
  have "env_start en child" "env_write en (run_out vals) = WriteOk" using ready by (simp_all add: run_prepared_def)
  from run_child_success [OF laws p(4,3,1,2) this(1) ch this(2), of st] show ?thesis
    unfolding run p(5) by (auto simp: span_fields_def run_fields_def)
qed

lemma run_ready_capture:
  assumes "run_ready en st args child vals resolved seed n"
  shows "run_observed en child vals =
      \<lparr>cw_buf = concat (map (fst \<circ> snd) (env_chunks en child)), cw_max = run_max vals, cw_exceeded = False\<rparr>"
    and "Wait (env_end en child) (copy_output (run_max vals) (env_chunks en child)) =
      (if int n = 0 then WaitNil else WaitExitError (int n))"
  using assms copy_no_failure [of "env_chunks en child"]
  by (simp_all add: run_ready_def run_observed_def delivered_all capture_fits Wait_def copy_output_def)

lemma cmdRun_success:
  assumes "ed25519_laws cr" "blake2s_laws cr" and "run_ready en st args child vals resolved seed n"
  shows "\<exists>receipt span. cmdRun cr en st args =
       (int n, st(run_out vals \<mapsto> (receipt, file_mode st (run_out vals) perm_public))) \<and>
     ParseSpan receipt = Inr span \<and> Span_VerifySig cr span = Inr () \<and> span_Executor span = ed_pub cr seed \<and>
     span_ResourceID span =
       run_resource cr (ed_pub cr seed) (flag_value vals (str_bytes ''namespace'') []) resolved \<and>
     span_Digest span = Blake2s256 cr (concat (map (fst \<circ> snd) (env_chunks en child)) @ run_trailer (int n))"
  using cmdRun_mints [OF assms(1,2), of en st args child vals resolved seed "int n"] run_ready_capture [OF assms(3)] assms(3)
  by (simp add: run_ready_def)

text \<open>
  C11: A run that is ready mints its receipt. Under the conditions of \<open>run_ready\<close>, \<open>run\<close>
  exits with exactly the child's exit code, the receipt file is the only file that
  changes, and it holds a receipt that parses and verifies under the key in the key
  directory, for the resource id of that key and the given names, whose digest covers
  the child's whole output in the order it was observed and the exit code.
\<close>

theorem cmdRun_completes:
  assumes "ed25519_laws cr" and "blake2s_laws cr" and "run_ready en st args child vals resolved seed n"
  shows "\<exists>receipt span m. cmdRun cr en st args = (int n, st(run_out vals \<mapsto> (receipt, m))) \<and>
     ParseSpan receipt = Inr span \<and> Span_VerifySig cr span = Inr () \<and> span_Executor span = ed_pub cr seed \<and>
     span_ResourceID span =
       run_resource cr (ed_pub cr seed) (flag_value vals (str_bytes ''namespace'') []) resolved \<and>
     span_Digest span = Blake2s256 cr (concat (map (fst \<circ> snd) (env_chunks en child)) @ run_trailer (int n))"
  using cmdRun_success [OF assms] by blast

subsection \<open>A concrete system\<close>

definition demo_args :: "bytes list" where
  "demo_args = map str_bytes [''--key'', ''d'', ''--namespace'', ''ci'', ''-path=a/b'', ''--out'', ''r'', ''--'', ''true'']"

definition demo_vals :: "(bytes \<times> bytes) list" where
  "demo_vals = map (\<lambda>(n, v). (str_bytes n, str_bytes v)) [(''key'', ''d''), (''namespace'', ''ci''), (''path'', ''a/b''), (''out'', ''r'')]"

lemma demo_cmdline:
  "split_dashes demo_args = Some (take 7 demo_args, [str_bytes ''true''])"
  "flag_parse run_flags [] (take 7 demo_args) = FlagsParsed demo_vals []"
  "run_out demo_vals = str_bytes ''r''" "run_save demo_vals = []" "run_max demo_vals = defaultMaxOutput"
  "flag_value demo_vals (str_bytes ''key'') [] = str_bytes ''d''"
  "flag_value demo_vals (str_bytes ''path'') [] = str_bytes ''a/b''"
  "flag_value demo_vals (str_bytes ''namespace'') [] = str_bytes ''ci''"
  "flag_value demo_vals (str_bytes ''trace'') [] = []"
  "Join (str_bytes ''d'') (str_bytes ''sig.key'') = str_bytes ''d/sig.key''"
  "resolveShaTemplate (str_bytes ''a/b'') None = Inr (str_bytes ''a/b'')"
  "validateResource (str_bytes ''ci'') (str_bytes ''a/b'') = Inr ()"
  by code_simp+

lemma demo_ready:
  "run_ready (demo_env (Exited 0) [(Stdout, [104, 105], True)]) demo_store demo_args [str_bytes ''true''] demo_vals
     (str_bytes ''a/b'') (key32 7) 0"
  by (simp add: run_ready_def run_prepared_def demo_cmdline demo_env_def gitHead_def ReadFile_def demo_files run_trace_def
      rand_array_def)

theorem cmdRun_completes_witness:
  "\<exists>receipt span m. cmdRun ref_crypto (demo_env (Exited 0) [(Stdout, [104, 105], True)]) demo_store demo_args =
       (0, demo_store(str_bytes ''r'' \<mapsto> (receipt, m))) \<and>
     ParseSpan receipt = Inr span \<and> Span_VerifySig ref_crypto span = Inr () \<and>
     span_Digest span = Blake2s256 ref_crypto ([104, 105] @ run_trailer 0)"
  using cmdRun_completes [OF ref_ed25519 ref_blake2s demo_ready]
  by (auto simp: demo_cmdline) (auto simp: demo_env_def)

text \<open>
  C20: A failed pass-through is noticed only when the child succeeds. If copying the
  child's output to the terminal fails, that stream is no longer captured. When the child
  then exits 0, \<open>run\<close> refuses with 125 and writes nothing; but when it exits with another
  code the failure is dropped and a receipt is minted all the same, over only the part of
  the output that had been delivered before.
\<close>

theorem cmdRun_failed_copy:
  assumes "ed25519_laws cr" and "blake2s_laws cr" and "run_prepared en st args child vals resolved seed"
    and "0 \<le> run_max vals" and "int (length (concat (delivered False False (env_chunks en child)))) \<le> run_max vals"
    and "env_end en child = Exited n"
    and "co_outFailed (copy_output (run_max vals) (env_chunks en child)) \<or>
         co_errFailed (copy_output (run_max vals) (env_chunks en child))"
  shows "(n = 0 \<longrightarrow> cmdRun cr en st args = (125, st)) \<and>
     (n \<noteq> 0 \<longrightarrow> (\<exists>receipt span m. cmdRun cr en st args = (int n, st(run_out vals \<mapsto> (receipt, m))) \<and>
        ParseSpan receipt = Inr span \<and> Span_VerifySig cr span = Inr () \<and>
        span_Digest span = Blake2s256 cr (concat (delivered False False (env_chunks en child)) @ run_trailer (int n))))"
proof (cases "n = 0")
  case True
  have "Wait (env_end en child) (copy_output (run_max vals) (env_chunks en child)) = WaitError"
    using assms(6,7) True by (simp add: Wait_def)
  then have "run_child cr en st priv resource k t (run_max vals) [] (run_out vals) child = (125, st)"
    for priv resource k t
    using assms(3) by (simp add: run_child_def run_prepared_def Let_def)
  then show ?thesis using cmdRun_prepared [OF assms(2,3)] True by auto
next
  case False
  show ?thesis
    using cmdRun_mints [OF assms(1-3), of "int n"] capture_fits [OF assms(4,5)] assms(6) False
    by (auto simp: run_observed_def Wait_def)
qed

definition broken_pipe_env :: env where
  "broken_pipe_env = demo_env (Exited 3) [(Stdout, [111], True), (Stdout, [107], False), (Stdout, [33], True)]"

lemma broken_pipe_prepared:
  "run_prepared broken_pipe_env demo_store demo_args [str_bytes ''true''] demo_vals (str_bytes ''a/b'') (key32 7)"
  by (simp add: broken_pipe_env_def run_prepared_def demo_cmdline demo_env_def gitHead_def ReadFile_def demo_files run_trace_def
      rand_array_def)

theorem cmdRun_failed_copy_witness:
  "\<exists>receipt span m. cmdRun ref_crypto broken_pipe_env demo_store demo_args = (3, demo_store(str_bytes ''r'' \<mapsto> (receipt, m))) \<and>
     ParseSpan receipt = Inr span \<and> Span_VerifySig ref_crypto span = Inr () \<and>
     span_Digest span = Blake2s256 ref_crypto ([111] @ run_trailer 3)"
  using cmdRun_failed_copy [OF ref_ed25519 ref_blake2s broken_pipe_prepared, of 3]
  by (simp add: demo_cmdline) (simp add: broken_pipe_env_def demo_env_def copy_output_def copy_step)

lemma demo_run_changes:
  "\<exists>st'. cmdRun ref_crypto (demo_env (Exited 0) [(Stdout, [104, 105], True)]) demo_store demo_args = (0, st') \<and>
         st' (run_out demo_vals) \<noteq> demo_store (run_out demo_vals)"
  using cmdRun_success [OF ref_ed25519 ref_blake2s demo_ready] by (auto simp: demo_cmdline demo_files)

theorem cmdRun_receipt_sound_witness:
  "\<exists>st' receipt m span.
     cmdRun ref_crypto (demo_env (Exited 0) [(Stdout, [104, 105], True)]) demo_store demo_args = (0, st') \<and>
     st' (str_bytes ''r'') = Some (receipt, m) \<and> ParseSpan receipt = Inr span \<and> Span_VerifySig ref_crypto span = Inr ()"
proof -
  from demo_run_changes obtain st' where
    run: "cmdRun ref_crypto (demo_env (Exited 0) [(Stdout, [104, 105], True)]) demo_store demo_args = (0, st')"
    and ch: "st' (run_out demo_vals) \<noteq> demo_store (run_out demo_vals)" by blast
  have "env_write (demo_env (Exited 0) [(Stdout, [104, 105], True)]) (run_out demo_vals) = WriteOk"
    "run_out demo_vals \<noteq> run_save demo_vals" by (simp_all add: demo_env_def demo_cmdline)
  from cmdRun_receipt_sound [OF ref_ed25519 ref_blake2s run demo_cmdline(1,2) this ch] run
  show ?thesis unfolding demo_cmdline(3) by blast
qed


theorem cmdRun_overflow_no_receipt_witness:
  "snd (cmdRun ref_crypto (demo_env (Exited 0) [(Stdout, replicate 8388609 0, True)]) demo_store demo_args) = demo_store"
proof -
  obtain c st' where
    run: "cmdRun ref_crypto (demo_env (Exited 0) [(Stdout, replicate 8388609 0, True)]) demo_store demo_args = (c, st')" by fastforce
  have "concat (delivered False False (env_chunks (demo_env (Exited 0) [(Stdout, replicate 8388609 0, True)]) [str_bytes ''true'']))
      = replicate 8388609 0" by (simp add: demo_env_def)
  then show ?thesis
    using cmdRun_overflow_no_receipt [OF run demo_cmdline(1,2)] run by (simp add: demo_cmdline)
qed

end
