(* ===== verification/Lastro_Verify.thy ===== *)
theory Lastro_Verify
  imports Lastro_Keygen Lastro_Run Wire_Validate
begin

text \<open>
  The \<open>verify\<close> command of \<open>cmd/lastro/main.go\<close> and the dispatch of \<open>main\<close>. \<open>verify\<close> returns its
  exit code and the report it prints, whose content is a record (the rendering of dates
  and of the ceiling as a decimal fraction is not modelled).
\<close>

subsection \<open>verify\<close>

definition verify_flags :: "bytes \<Rightarrow> flag_kind option" where
  "verify_flags n =
     (if n = str_bytes ''cert'' then Some FlagString else if n = str_bytes ''ca'' then Some FlagVar else None)"

datatype verdict = UNANCHORED | VERIFIED

record Report =
  rep_verdict :: verdict
  rep_resource :: bytes
  rep_method :: byte
  rep_class :: Class
  rep_ceiling :: byte
  rep_observed :: uint64
  rep_digest :: bytes
  rep_executor :: bytes
  rep_cert :: "(uint64 \<times> uint64 \<times> bool) option"

definition printReport :: "crypto \<Rightarrow> Span \<Rightarrow> Class \<Rightarrow> byte \<Rightarrow> verdict \<Rightarrow> Cert option \<Rightarrow> Report" where
  "printReport cr span cls ceiling v cert =
     \<lparr>rep_verdict = v, rep_resource = span_ResourceID span, rep_method = span_MethodID span,
      rep_class = cls, rep_ceiling = ceiling, rep_observed = span_ObservedAt span,
      rep_digest = EncodeToString (span_Digest span), rep_executor = Fingerprint cr (span_Executor span),
      rep_cert = map_option (\<lambda>ct. (cert_NotBefore ct, cert_NotAfter ct,
        span_ObservedAt span \<ge> cert_NotBefore ct \<and> span_ObservedAt span < cert_NotAfter ct)) cert\<rparr>"

fun read_cas :: "env \<Rightarrow> store \<Rightarrow> path list \<Rightarrow> bytes list option" where
  "read_cas en st [] = Some []"
| "read_cas en st (p # ps) =
     (case ReadFile en st p of
        None \<Rightarrow> None
      | Some k \<Rightarrow> if length k \<noteq> LenCAKey then None else map_option (\<lambda>ks. k # ks) (read_cas en st ps))"

definition cmdVerify :: "crypto \<Rightarrow> env \<Rightarrow> store \<Rightarrow> bytes list \<Rightarrow> int \<times> Report option" where
  "cmdVerify cr en st args =
     (case flag_parse verify_flags [] args of
        FlagsHelp \<Rightarrow> (0, None)
      | FlagsError \<Rightarrow> (2, None)
      | FlagsParsed vals rest \<Rightarrow>
      let certPath = flag_value vals (str_bytes ''cert'') [];
          caPaths = flag_values vals (str_bytes ''ca'') in
      if length rest \<noteq> 1 then (verifyUsage, None)
      else case ReadFile en st (rest ! 0) of None \<Rightarrow> (verifyInvalid, None) | Some raw \<Rightarrow>
      case ParseSpan raw of Inl _ \<Rightarrow> (verifyInvalid, None) | Inr span \<Rightarrow>
      case Span_VerifySig cr span of Inl _ \<Rightarrow> (verifyInvalid, None) | Inr _ \<Rightarrow>
      let (cls, ceiling) = ClassOf (span_MethodID span) in
      if certPath = [] then (verifyUnanchored, Some (printReport cr span cls ceiling UNANCHORED None))
      else case ReadFile en st certPath of None \<Rightarrow> (verifyInvalid, None) | Some certRaw \<Rightarrow>
      case ParseCert certRaw of Inl _ \<Rightarrow> (verifyInvalid, None) | Inr cert \<Rightarrow>
      if caPaths = [] then (verifyUsage, None)
      else case read_cas en st caPaths of None \<Rightarrow> (verifyUsage, None) | Some trusted \<Rightarrow>
      case VerifyReceipt cr span cert trusted of Inl _ \<Rightarrow> (verifyInvalid, None) | Inr _ \<Rightarrow>
      (verifyOK, Some (printReport cr span cls ceiling VERIFIED (Some cert))))"

subsection \<open>main\<close>

definition lastro_main :: "crypto \<Rightarrow> env \<Rightarrow> store \<Rightarrow> bytes list \<Rightarrow> int \<times> store" where
  "lastro_main cr en st argv =
     (if length argv < 2 then (verifyUsage, st)
      else if argv ! 1 = str_bytes ''keygen'' then cmdKeygen cr en st (drop 2 argv)
      else if argv ! 1 = str_bytes ''run'' then cmdRun cr en st (drop 2 argv)
      else if argv ! 1 = str_bytes ''verify'' then (fst (cmdVerify cr en st (drop 2 argv)), st)
      else (verifyUsage, st))"

subsection \<open>What verify answers\<close>

lemma flag_parse_plain: "s = [] \<or> hd s \<noteq> 0x2d \<Longrightarrow> flag_parse formal vals (s # args) = FlagsParsed vals (s # args)"
  by (cases s) auto

text \<open>
  C14: The exit codes of \<open>verify\<close>. For a command line that parses with one receipt file: it
  exits 0 exactly when a certificate was given, at least one CA was given, all files
  could be read and parsed and \<open>VerifyReceipt\<close> accepts; it exits 3 exactly when no
  certificate was given and the receipt parses and its signature verifies; 0 and 3 come
  with the report, whose verdict is VERIFIED for 0 and UNANCHORED for 3; every other
  outcome is 1 or 2 and prints no report.
\<close>

theorem cmdVerify_exit_codes:
  assumes "flag_parse verify_flags [] args = FlagsParsed vals [r]"
  defines "certPath \<equiv> flag_value vals (str_bytes ''cert'') []"
    and "caPaths \<equiv> flag_values vals (str_bytes ''ca'')"
  shows "(fst (cmdVerify cr en st args) = 0 \<longleftrightarrow>
      (\<exists>raw span certRaw ct trusted. ReadFile en st r = Some raw \<and> ParseSpan raw = Inr span \<and>
         certPath \<noteq> [] \<and> ReadFile en st certPath = Some certRaw \<and> ParseCert certRaw = Inr ct \<and>
         caPaths \<noteq> [] \<and> read_cas en st caPaths = Some trusted \<and> VerifyReceipt cr span ct trusted = Inr ())) \<and>
    (fst (cmdVerify cr en st args) = 3 \<longleftrightarrow>
      certPath = [] \<and> (\<exists>raw span. ReadFile en st r = Some raw \<and> ParseSpan raw = Inr span \<and>
         Span_VerifySig cr span = Inr ())) \<and>
    (case snd (cmdVerify cr en st args) of
       None \<Rightarrow> fst (cmdVerify cr en st args) \<in> {1, 2}
     | Some rep \<Rightarrow> fst (cmdVerify cr en st args) = (case rep_verdict rep of VERIFIED \<Rightarrow> 0 | UNANCHORED \<Rightarrow> 3))"
proof -
  note unf = cmdVerify_def assms(1) flag_result.case Let_def certPath_def [symmetric] caPaths_def [symmetric]
  show ?thesis
  proof (cases "ReadFile en st r")
    case None
    then show ?thesis by (simp add: unf)
  next
    case (Some raw)
    note raw = Some
    show ?thesis
    proof (cases "ParseSpan raw")
      case (Inl e)
      then show ?thesis by (simp add: unf raw)
    next
      case (Inr span)
      note span = Inr
      have vr: "VerifyReceipt cr span ct trusted = Inr () \<Longrightarrow> Span_VerifySig cr span = Inr ()" for ct trusted
        by (auto simp: VerifyReceipt_def rbind_eq_Inr)
      obtain cls ceiling where cl: "ClassOf (span_MethodID span) = (cls, ceiling)" by fastforce
      show ?thesis
      proof (cases "Span_VerifySig cr span")
        case (Inl e)
        then show ?thesis using vr by (auto simp: unf raw span)
      next
        case (Inr u)
        then have sig: "Span_VerifySig cr span = Inr ()" by simp
        show ?thesis
        proof (cases "certPath = []")
          case True
          then show ?thesis by (simp add: unf raw span sig cl printReport_def)
        next
          case False
          then show ?thesis
            by (auto simp: unf raw span sig cl printReport_def split: option.splits sum.splits)
        qed
      qed
    qed
  qed
qed

text \<open>The command line that checks the certificate against two CAs.\<close>

definition demo_verify_args :: "bytes list" where
  "demo_verify_args = map str_bytes [''--cert'', ''cert'', ''-ca'', ''ca1'', ''--ca=ca2'', ''r'']"

definition demo_verify_vals :: "(bytes \<times> bytes) list" where
  "demo_verify_vals = map (\<lambda>(n, v). (str_bytes n, str_bytes v)) [(''cert'', ''cert''), (''ca'', ''ca1''), (''ca'', ''ca2'')]"

lemma demo_verify_cmdline:
  "flag_parse verify_flags [] demo_verify_args = FlagsParsed demo_verify_vals [str_bytes ''r'']"
  "flag_value demo_verify_vals (str_bytes ''cert'') [] = str_bytes ''cert''"
  "flag_values demo_verify_vals (str_bytes ''ca'') = [str_bytes ''ca1'', str_bytes ''ca2'']"
  by code_simp+

theorem cmdVerify_exit_codes_witness:
  "fst (cmdVerify ref_crypto (demo_env (Exited 0) []) (demo_store(str_bytes ''r'' \<mapsto> (enc_span demo_parsed_span, perm_public)))
     demo_verify_args) = 0"
proof -
  let ?st = "demo_store(str_bytes ''r'' \<mapsto> (enc_span demo_parsed_span, perm_public))"
  let ?en = "demo_env (Exited 0) []"
  have r: "ReadFile ?en ?st (str_bytes ''r'') = Some (enc_span demo_parsed_span)"
    "ReadFile ?en ?st (str_bytes ''cert'') = Some (enc_cert exec_cert)"
    "read_cas ?en ?st [str_bytes ''ca1'', str_bytes ''ca2''] = Some [key32 1, key32 2]"
    by (simp_all add: ReadFile_def demo_env_def demo_store_def str_bytes_def)
  have "VerifyReceipt ref_crypto demo_parsed_span exec_cert [key32 1, key32 2] = Inr ()"
    by (rule demo_receipt_accepted)
  then show ?thesis
    using cmdVerify_exit_codes [OF demo_verify_cmdline(1), of ref_crypto ?en ?st] r
      spanc.parse_enc [OF demo_parsed_span_ok] exec_cert_ok(3)
    by (simp add: demo_verify_cmdline)
qed

text \<open>
  C40: Flags after the receipt file are not understood. The usage text and the package
  comment show \<open>lastro verify FILE.receipt [--cert cert.bin] [--ca ca.pub]...\<close>, but flag
  parsing stops at the first argument that is not a flag: with anything after the file
  the command exits 2, whatever the files contain.
\<close>

theorem cmdVerify_documented_order_refused:
  assumes "r = [] \<or> hd r \<noteq> 0x2d" and "rest \<noteq> []"
  shows "cmdVerify cr en st (r # rest) = (verifyUsage, None)"
  using assms(2) by (simp add: cmdVerify_def flag_parse_plain [OF assms(1)] Let_def del: flag_parse.simps)

theorem cmdVerify_documented_order_refused_witness:
  "\<forall>cr en st. cmdVerify cr en st
     [str_bytes ''a.receipt'', str_bytes ''--cert'', str_bytes ''c'', str_bytes ''--ca'', str_bytes ''k''] = (verifyUsage, None)"
  by (intro allI cmdVerify_documented_order_refused) (simp_all add: str_bytes_def)

text \<open>What the two successful outcomes of \<open>verify\<close> come from, for composing commands.\<close>

lemma cmdVerify_unanchored:
  assumes "r = [] \<or> hd r \<noteq> 0x2d" and "ReadFile en st r = Some raw" and "ParseSpan raw = Inr span"
    and "Span_VerifySig cr span = Inr ()"
  shows "fst (cmdVerify cr en st [r]) = verifyUnanchored"
  using assms(2-)
  by (simp add: cmdVerify_def flag_parse_plain [OF assms(1)] flag_value_def flag_values_def Let_def
      del: flag_parse.simps split: prod.splits)

lemma cmdVerify_verified:
  assumes "flag_parse verify_flags [] args = FlagsParsed vals [r]" and "ReadFile en st r = Some raw"
    and "ParseSpan raw = Inr span" and "flag_value vals (str_bytes ''cert'') [] \<noteq> []"
    and "ReadFile en st (flag_value vals (str_bytes ''cert'') []) = Some certRaw" and "ParseCert certRaw = Inr ct"
    and "flag_values vals (str_bytes ''ca'') \<noteq> []" and "read_cas en st (flag_values vals (str_bytes ''ca'')) = Some trusted"
    and "VerifyReceipt cr span ct trusted = Inr ()"
  shows "fst (cmdVerify cr en st args) = verifyOK"
proof -
  have "Span_VerifySig cr span = Inr ()" using assms(9) by (auto simp: VerifyReceipt_def rbind_eq_Inr)
  then show ?thesis using assms by (simp add: cmdVerify_def Let_def split: prod.splits)
qed

end
