(* ===== verification/Spec2Isabelle.thy ===== *)
theory Spec2Isabelle
  imports Scope_Loop Interop_Session Lastro_Verify
begin

text \<open>
  A verification of \<^emph>\<open>lastro\<close>: signed receipts for what a command did, and the wire
  library (certificates, spans, grants, envelopes, the Noise handshake) they rest on.

  \<^bold>\<open>The program.\<close> \<open>src/wire/\<close> is a library of parsers, encoders, signature checks and a
  handshake; \<open>src/cmd/lastro/main.go\<close> is the tool. \<open>lastro keygen\<close> writes a key directory,
  \<open>lastro run\<close> executes a command, captures its output and signs a span (the receipt) over
  it, \<open>lastro verify\<close> checks a receipt, alone or against an executor certificate and
  trusted CA keys. All parsing goes through one bounds-checked cursor; all signatures are
  over a domain tag followed by the to-be-signed slice of the parsed bytes.
  \<open>src/cmd/interop/main.go\<close> is a second program: it runs the handshake with a daemon over
  UDP, exchanges binding frames with it and sends one signed intent.

  \<^bold>\<open>The theories\<close>, in the order of their dependencies:

  \<^item> \<open>Lastro_Prelude\<close>: bytes, words, errors as values, sequencing, slices and copies,
    big-endian layouts, and the lemmas on them.
  \<^item> \<open>Go_Std\<close>: what the commands use of Go's \<open>strings\<close>, \<open>strconv\<close>, \<open>hex\<close>, \<open>filepath\<close> and
    \<open>flag\<close> packages.
  \<^item> \<open>Wire_Cursor\<close> (\<open>cursor.go\<close>): the reader, and the interfaces of a reader (\<open>codec\<close>), of a
    fixed-width reader (\<open>fixed_width\<close>) and of a parser of exactly one structure
    (\<open>exact_codec\<close>) as locales. Every reader is interpreted there, every parser in its own
    theory; inversion, canonicity and the treatment of cut-short and extended inputs are
    proved once in the locale. A second contract, \<open>safe_reader\<close>, says that a reader never
    accesses the buffer out of range; it too is interpreted for every reader and parser.
  \<^item> \<open>Wire_Crypto\<close> (\<open>crypto.go\<close>) and \<open>Reference_Crypto\<close>: the primitives as a parameter with
    their documented behaviour as named laws, and an executable instance that satisfies the
    laws, used only to apply theorems to concrete inputs.
  \<^item> \<open>Wire_Span\<close> (\<open>span.go\<close>, \<open>encode.go\<close>), \<open>Wire_Cert\<close> (\<open>cert.go\<close>, \<open>encode.go\<close>), \<open>Wire_Envelope\<close>
    (\<open>envelope.go\<close>), \<open>Wire_Grant\<close> (\<open>grant.go\<close>): the parsed structures as records with the
    code's fields, parsers and encoders; parsing is shown inverse to encoding.
  \<^item> \<open>Wire_Validate\<close> (\<open>validate.go\<close>): the clock-free certificate checks and \<open>VerifyReceipt\<close>,
    shown equivalent to the conditions they stand for; the two-signer rule.
  \<^item> \<open>Wire_Method\<close> (\<open>method.go\<close>): evidence classes and ceilings.
  \<^item> \<open>Wire_GrantChain\<close> (\<open>grantchain.go\<close>): the authority decision refines the ordered list of
    normative checks; expiry on wrapping integers; the scope walk, a loop with a
    termination proof, equals the ancestors at slash boundaries.
  \<^item> \<open>Scope_Loop\<close>: the two nested loops of that walk as iterations that might not stop; they
    do, with the same result and a bound on the number of hashes.
  \<^item> \<open>Wire_Noise\<close> (\<open>noise.go\<close>): the symmetric state and both roles of the handshake as state
    passing functions; agreement of the two ends.
  \<^item> \<open>Wire_Transport\<close> (\<open>transport.go\<close>): packets and binding frames.
  \<^item> \<open>Noise_State\<close>: the handshake objects as state machines; the states reachable by any
    sequence of calls (inductive predicates) are well-typed and no call breaks them.
  \<^item> \<open>Lastro_Resource\<close>, \<open>Lastro_System\<close>, \<open>Lastro_Keygen\<close>, \<open>Lastro_Run\<close>, \<open>Lastro_Verify\<close>
    (\<open>cmd/lastro/main.go\<close>): resource names and the trailer, the operating system the
    commands run on (a file store as state; everything the system decides as the record
    \<open>env\<close>), and the commands, each a function to an exit code and the new store.
  \<^item> \<open>Interop_Main\<close>, \<open>Interop_Session\<close> (\<open>cmd/interop/main.go\<close>): the flags, the key files and
    the three stages of the program, its result being the exit code and the datagrams it
    sent; what holds with every daemon, and that the session completes with a daemon
    that follows the protocol.
  \<^item> This theory: the properties that need several components, a receipt from \<open>run\<close> to
    \<open>verify\<close>, a session from handshake to transport, the framing of all parsers and the
    absence of panics.

  \<^bold>\<open>Conventions.\<close> A function that returns \<open>(T, error)\<close> is \<open>go_error + T\<close>; runtime panics are
  error values, so that \<open>never panics\<close> is something proved. Array-typed fields are byte
  lists whose length is stated where it is used (\<open>span_arrays\<close>, \<open>cert_arrays\<close>,
  \<open>grant_arrays\<close>). Where a Go method changes its receiver the new record is returned, also
  with an error. A parser is split into the reading of its fields (\<open>readX\<close>) and the
  trailing-bytes check (\<open>ParseX\<close>). The parsers' and the transport's accesses \<open>b[i]\<close> and
  \<open>b[i:j]\<close> are bounds-checked in the model (\<open>go_index\<close>, \<open>go_slice\<close>); the fixed offsets into
  the two handshake messages, which follow one length check, are plain slices. No fuel is
  used: every loop is structural or has a measure, or is a \<open>while_option\<close> shown to stop.

  \<^bold>\<open>What the model leaves out.\<close> Ed25519, BLAKE2s, ChaCha20-Poly1305 and X25519 are not in the
  repository; they are the record \<open>crypto\<close>, and only functional laws are assumed of them
  (lengths, correctness of verification and decryption, commutativity of the key
  exchange), no hardness. Text printed on the terminal, the rendering of dates in the
  report and umask are not modelled; paths name files by their string (no links). The
  interleaving of the two output streams is the sequence of chunks in \<open>env\<close>, one per
  mutex-guarded write. The daemon \<open>cmd/interop\<close> talks to is not in the repository: it is a
  function from the datagrams sent so far to the datagram the next read returns, a
  deadline is a read that returns nothing, and the one theorem about an honest daemon
  states as hypotheses what it answers. Nothing is claimed about the secrecy of keys or the
  freshness of random bytes. The Go tests and their vectors are not modelled.
\<close>

section \<open>Properties that span components\<close>

lemma ReadFile_update:
  "ReadFile en (st(p \<mapsto> (d, m))) q = (if q = p then if env_readable en p then Some d else None else ReadFile en st q)"
  by (simp add: ReadFile_def)

lemma read_cas_update: "p \<notin> set ps \<Longrightarrow> read_cas en (st(p \<mapsto> x)) ps = read_cas en st ps"
  by (induction ps) (auto simp: ReadFile_def split: option.splits)

text \<open>
  C1: Receipts work end to end. When a run is ready (\<open>run_ready\<close>), \<open>lastro run\<close> exits with the
  child's code; afterwards, on any system that can read the files, \<open>lastro verify\<close> of the
  receipt alone exits 3 (unanchored), and \<open>lastro verify\<close> with an accepted executor
  certificate of the signing key and the trusted CA keys exits 0.
\<close>

theorem receipt_end_to_end:
  assumes laws: "ed25519_laws cr" "blake2s_laws cr" and ready: "run_ready en st args child vals resolved seed n"
    and out: "run_out vals = [] \<or> hd (run_out vals) \<noteq> 0x2d" "env_readable en2 (run_out vals)"
    and flags: "flag_parse verify_flags [] vargs = FlagsParsed vvals [run_out vals]"
    and cert: "flag_value vvals (str_bytes ''cert'') [] \<noteq> []" "flag_value vvals (str_bytes ''cert'') [] \<noteq> run_out vals"
      "ReadFile en2 st (flag_value vvals (str_bytes ''cert'') []) = Some certRaw" "ParseCert certRaw = Inr ct"
    and cas: "flag_values vvals (str_bytes ''ca'') \<noteq> []" "run_out vals \<notin> set (flag_values vvals (str_bytes ''ca''))"
      "read_cas en2 st (flag_values vvals (str_bytes ''ca'')) = Some trusted"
    and acc: "chain_accepts cr ct trusted" "has_role (cert_RoleBits ct) RoleExecutor" "cert_SigPubkey ct = ed_pub cr seed"
  shows "\<exists>st'. lastro_main cr en st (prog # str_bytes ''run'' # args) = (int n, st') \<and>
     lastro_main cr en2 st' [prog, str_bytes ''verify'', run_out vals] = (verifyUnanchored, st') \<and>
     lastro_main cr en2 st' (prog # str_bytes ''verify'' # vargs) = (verifyOK, st')"
proof -
  from cmdRun_success [OF laws ready] obtain receipt span where
    run: "cmdRun cr en st args = (int n, st(run_out vals \<mapsto> (receipt, file_mode st (run_out vals) perm_public)))"
    and span: "ParseSpan receipt = Inr span" "Span_VerifySig cr span = Inr ()" "span_Executor span = ed_pub cr seed"
      "span_ResourceID span = run_resource cr (ed_pub cr seed) (flag_value vals (str_bytes ''namespace'') []) resolved"
    by blast
  let ?st = "st(run_out vals \<mapsto> (receipt, file_mode st (run_out vals) perm_public))"
  have ok: "span_ok span" "cert_ok ct" using span(1) cert(4) by (simp_all add: spanc.parse_iff certc.parse_iff)
  have vr: "VerifyReceipt cr span ct trusted = Inr ()"
    using VerifyReceipt_ok_iff [OF ok] acc span(2-4)
    by (simp add: Span_VerifySig_def VerifySigned_ok_iff run_resource_def)
  have rd: "ReadFile en2 ?st (run_out vals) = Some receipt" using out(2) by (simp add: ReadFile_update)
  have "fst (cmdVerify cr en2 ?st [run_out vals]) = verifyUnanchored"
    by (rule cmdVerify_unanchored [OF out(1) rd span(1,2)])
  moreover have "fst (cmdVerify cr en2 ?st vargs) = verifyOK"
    by (rule cmdVerify_verified [OF flags rd span(1) cert(1) _ cert(4) cas(1) _ vr])
      (use cert(2,3) cas(2,3) in \<open>simp_all add: ReadFile_update read_cas_update\<close>)
  moreover have "str_bytes ''run'' \<noteq> str_bytes ''keygen''" "str_bytes ''verify'' \<noteq> str_bytes ''keygen''"
    "str_bytes ''verify'' \<noteq> str_bytes ''run''" by (simp_all add: str_bytes_def)
  ultimately show ?thesis using run by (intro exI [of _ ?st]) (simp add: lastro_main_def)
qed

theorem receipt_end_to_end_witness:
  "\<exists>st'. lastro_main ref_crypto (demo_env (Exited 0) [(Stdout, [104, 105], True)]) demo_store
            (str_bytes ''lastro'' # str_bytes ''run'' # demo_args) = (0, st') \<and>
     lastro_main ref_crypto (demo_env Signaled []) st' [str_bytes ''lastro'', str_bytes ''verify'', str_bytes ''r'']
       = (verifyUnanchored, st') \<and>
     lastro_main ref_crypto (demo_env Signaled []) st' (str_bytes ''lastro'' # str_bytes ''verify'' # demo_verify_args)
       = (verifyOK, st')"
proof -
  have pub: "ed_pub ref_crypto (key32 7) = key32 0x5d" by simp
  have ne: "str_bytes ''cert'' \<noteq> str_bytes ''r''" "str_bytes ''r'' \<notin> {str_bytes ''ca1'', str_bytes ''ca2''}"
    "hd (str_bytes ''r'') \<noteq> 0x2d" by (simp_all add: str_bytes_def)
  have rd: "ReadFile (demo_env Signaled []) demo_store (str_bytes ''cert'') = Some (enc_cert exec_cert)"
    "read_cas (demo_env Signaled []) demo_store [str_bytes ''ca1'', str_bytes ''ca2''] = Some [key32 1, key32 2]"
    "env_readable (demo_env Signaled []) (str_bytes ''r'')"
    by (simp_all add: ReadFile_def demo_files) (simp_all add: demo_env_def)
  show ?thesis
    using receipt_end_to_end [OF ref_ed25519 ref_blake2s demo_ready _ _ _ _ _ _ exec_cert_ok(3),
        of "demo_env Signaled []" demo_verify_args demo_verify_vals "[key32 1, key32 2]" "str_bytes ''lastro''"]
      demo_cert_accepted(1) [of "key32 0x5d" RoleExecutor] ne rd
    by (simp add: demo_cmdline demo_verify_cmdline has_role_def)
qed

text \<open>
  C15: A completed handshake carries a session. After the exchange of the two handshake
  messages, a packet sealed by either end under its send key opens at the other end under
  its receive key to the same plaintext and counter, and a binding frame made over the
  initiator's transcript hash with the key of an accepted certificate is accepted by the
  responder against its own transcript hash.
\<close>

theorem session_established:
  assumes laws: "x25519_laws cr" "aead_laws cr" "blake2s_laws cr" "ed25519_laws cr"
    and keys: "X25519 cr sI (Basepoint cr) = Some SI" "X25519 cr sR (Basepoint cr) = Some SR"
      "length cookie1 = 16" "length cookie2 = 16"
    and w1: "WriteInitiation cr (NewInitiator cr sI SI SR) out1 idx1 ts eI sigR cookie1 = (Inr (), i, m1)"
    and w2: "WriteResponse cr (snd (ReadInitiation cr (NewResponder cr sR SR) m1 sigR))
           out2 idx2 ridx eR sigR cookie2 = (Inr (), r, m2)"
    and cert: "length seed = SeedSize" "ParseCert cb = Inr ct" "chain_accepts cr ct trusted"
      "cert_SigPubkey ct = ed_pub cr seed"
  defines "ri \<equiv> Initiator_Finalize cr (snd (ReadResponse cr i m2 sigR))" and "rr \<equiv> Responder_Finalize cr r"
  shows "(\<exists>p. SealTransport cr (hr_SendKey ri) idx counter pt = Inr p \<and> OpenTransport cr (hr_RecvKey rr) p = Inr (pt, counter)) \<and>
     (\<exists>p. SealTransport cr (hr_SendKey rr) idx counter pt = Inr p \<and> OpenTransport cr (hr_RecvKey ri) p = Inr (pt, counter)) \<and>
     (\<exists>frame. BuildBindingFrame cr cb seed (hr_H ri) = Inr frame \<and> VerifyBindingFrame cr frame (hr_H rr) trusted = Inr ct)"
proof -
  have agree: "hr_SendKey ri = hr_RecvKey rr" "hr_RecvKey ri = hr_SendKey rr" "hr_H ri = hr_H rr"
    using handshake_agrees [OF laws(1-3) keys w1 w2] by (simp_all add: ri_def rr_def Let_def)
  have len: "length (hr_RecvKey rr) = keyLen" "length (hr_SendKey rr) = keyLen"
    using Finalize_lengths [OF laws(3)] agree(1,2) by (simp_all add: ri_def [symmetric] flip: agree(1,2))
      (simp_all add: ri_def Finalize_lengths [OF laws(3)])
  show ?thesis
    unfolding agree
    using seal_then_open [OF laws(2) len(1), of idx counter pt] seal_then_open [OF laws(2) len(2), of idx counter pt]
      binding_frame_accepted [OF laws(4) cert, of "hr_H rr"] by blast
qed

text \<open>
  C27: Damage to the framing of a wire structure is always detected and named. For a span,
  a certificate, a grant, an envelope, an intent body and a refusal alike, every strict
  prefix of bytes that parse is refused as truncated and every extension as carrying
  trailing bytes.
\<close>

theorem parsers_framing:
  "(ParseSpan b = Inr s \<longrightarrow> (strict_prefix p b \<longrightarrow> ParseSpan p = Inl ErrTruncated) \<and>
      (x \<noteq> [] \<longrightarrow> ParseSpan (b @ x) = Inl ErrTrailingBytes)) \<and>
   (ParseCert b = Inr ct \<longrightarrow> (strict_prefix p b \<longrightarrow> ParseCert p = Inl ErrTruncated) \<and>
      (x \<noteq> [] \<longrightarrow> ParseCert (b @ x) = Inl ErrTrailingBytes)) \<and>
   (ParseGrant b = Inr g \<longrightarrow> (strict_prefix p b \<longrightarrow> ParseGrant p = Inl ErrTruncated) \<and>
      (x \<noteq> [] \<longrightarrow> ParseGrant (b @ x) = Inl ErrTrailingBytes)) \<and>
   (ParseEnvelope b = Inr e \<longrightarrow> (strict_prefix p b \<longrightarrow> ParseEnvelope p = Inl ErrTruncated) \<and>
      (x \<noteq> [] \<longrightarrow> ParseEnvelope (b @ x) = Inl ErrTrailingBytes)) \<and>
   (ParseIntent b = Inr it \<longrightarrow> (strict_prefix p b \<longrightarrow> ParseIntent p = Inl ErrTruncated) \<and>
      (x \<noteq> [] \<longrightarrow> ParseIntent (b @ x) = Inl ErrTrailingBytes)) \<and>
   (ParseRefusal b = Inr rf \<longrightarrow> (strict_prefix p b \<longrightarrow> ParseRefusal p = Inl ErrTruncated) \<and>
      (x \<noteq> [] \<longrightarrow> ParseRefusal (b @ x) = Inl ErrTrailingBytes))"
  by (intro conjI impI;
      erule (1) spanc.parse_prefix spanc.parse_extension certc.parse_prefix certc.parse_extension
        grantc.parse_prefix grantc.parse_extension envc.parse_prefix envc.parse_extension
        intentc.parse_prefix intentc.parse_extension refusalc.parse_prefix refusalc.parse_extension)

theorem parsers_framing_witness:
  "ParseSpan (butlast (enc_span demo_parsed_span)) = Inl ErrTruncated \<and>
   ParseSpan (enc_span demo_parsed_span @ [0]) = Inl ErrTrailingBytes \<and>
   ParseRefusal (enc_refusal demo_refusal @ [0]) = Inl ErrTrailingBytes"
proof -
  have "refusal_ok demo_refusal" by (simp add: refusal_ok_def demo_refusal_def ed25519_lawsD ref_laws)
  then have r: "ParseRefusal (enc_refusal demo_refusal) = Inr demo_refusal" by (rule refusalc.parse_enc)
  have s: "ParseSpan (enc_span demo_parsed_span) = Inr demo_parsed_span"
    by (rule spanc.parse_enc [OF demo_parsed_span_ok])
  have "strict_prefix (butlast (enc_span demo_parsed_span)) (enc_span demo_parsed_span)"
    by (rule strict_prefix_butlast) (simp add: enc_span_def span_layout_def)
  with r s show ?thesis using parsers_framing by blast
qed

theorem session_established_witness:
  "\<exists>frame. BuildBindingFrame ref_crypto (enc_cert exec_cert) (key32 7)
       (hr_H (Initiator_Finalize ref_crypto (snd (ReadResponse ref_crypto (fst (snd demo_init)) (snd (snd demo_resp)) (key32 4)))))
       = Inr frame \<and>
     VerifyBindingFrame ref_crypto frame (hr_H (Responder_Finalize ref_crypto (fst (snd demo_resp)))) [key32 1, key32 2]
       = Inr exec_cert"
proof -
  have i: "demo_init = (Inr (), fst (snd demo_init), snd (snd demo_init))"
    using demo_init_ok by (metis prod.collapse)
  have r: "demo_resp = (Inr (), fst (snd demo_resp), snd (snd demo_resp))"
    using demo_resp_ok by (metis prod.collapse)
  have c: "chain_accepts ref_crypto exec_cert [key32 1, key32 2]" "cert_SigPubkey exec_cert = ed_pub ref_crypto (key32 7)"
    by (simp_all add: demo_cert_accepted)
  show ?thesis
    using session_established [OF ref_x25519 ref_aead ref_blake2s ref_ed25519 demo_points length_replicate length_replicate
        i [unfolded demo_init_def] r [unfolded demo_resp_def demo_read_def, unfolded demo_init_def]
        length_replicate exec_cert_ok(3) c]
    by (simp add: demo_read_def demo_resp_def demo_init_def)
qed

text \<open>
  C8: No input makes the wire library panic. Whatever bytes arrive, each parser, the opening
  of a transport packet and the check of a binding frame end with a value or an error,
  never with an index or a slice out of range or a key of a wrong size; and the check of a
  parsed receipt against a parsed certificate does so too.
\<close>

theorem wire_never_panics:
  "no_panic (ParseSpan b) \<and> no_panic (ParseCert b) \<and> no_panic (ParseGrant b) \<and> no_panic (ParseEnvelope b) \<and>
   no_panic (ParseIntent b) \<and> no_panic (ParseRefusal b) \<and> no_panic (ParseBindingFrame b) \<and>
   no_panic (OpenTransport cr key b) \<and> no_panic (VerifyBindingFrame cr b h trusted) \<and>
   (ParseSpan b = Inr s \<longrightarrow> ParseCert cb = Inr ct \<longrightarrow> no_panic (VerifyReceipt cr s ct trusted))"
  by (intro conjI impI panic_free VerifyReceipt_no_panic) (simp add: certc.parse_iff)

theorem wire_never_panics_witness:
  "no_panic (VerifyReceipt ref_crypto demo_parsed_span exec_cert [])"
  using wire_never_panics [of "enc_span demo_parsed_span" ref_crypto "[]" "[]" "[]" demo_parsed_span "enc_cert exec_cert" exec_cert]
  by (simp add: exec_cert_ok(3) spanc.parse_enc [OF demo_parsed_span_ok])

end
